(* ===== verification/Prelude.thy ===== *)
theory Prelude
  imports Main "HOL-Library.Sublist"
begin

text \<open>
  The Go runtime as far as spottr uses it. A Go string is a sequence of bytes, modelled as
  \<^typ>\<open>string\<close> (a list of 8-bit characters), so \<open>length\<close> is Go's \<open>len\<close> and indices are byte
  offsets. This theory holds the functions of the packages \<open>strings\<close> and \<open>strconv\<close> that the
  program calls, 64-bit integers with their wrap-around, instants and durations, and the
  generic lemmas the component theories share.
\<close>

section \<open>Lemma collections\<close>

named_theorems go_defs "definitions of string predicates, unfolded together"
named_theorems inv_intros "preservation of a component's invariant by its operations"

section \<open>Prefixes, suffixes and searching (package strings)\<close>

definition has_prefix :: "string \<Rightarrow> string \<Rightarrow> bool" where
  "has_prefix s p = (take (length p) s = p)"

definition has_suffix :: "string \<Rightarrow> string \<Rightarrow> bool" where
  "has_suffix s p = has_prefix (rev s) (rev p)"

definition trim_prefix :: "string \<Rightarrow> string \<Rightarrow> string" where
  "trim_prefix s p = (if has_prefix s p then drop (length p) s else s)"

definition trim_suffix :: "string \<Rightarrow> string \<Rightarrow> string" where
  "trim_suffix s p = (if has_suffix s p then take (length s - length p) s else s)"

text \<open>\<open>strings.Index\<close>: the first byte offset where the separator occurs, \<open>None\<close> for -1.\<close>

fun go_index :: "string \<Rightarrow> string \<Rightarrow> nat option" where
  "go_index [] p = (if p = [] then Some 0 else None)"
| "go_index (x # xs) p =
     (if has_prefix (x # xs) p then Some 0 else map_option Suc (go_index xs p))"

text \<open>\<open>strings.LastIndex\<close>: the last such offset.\<close>

fun last_index :: "string \<Rightarrow> string \<Rightarrow> nat option" where
  "last_index [] p = (if p = [] then Some 0 else None)"
| "last_index (x # xs) p =
     (case last_index xs p of
        Some i \<Rightarrow> Some (Suc i)
      | None \<Rightarrow> (if has_prefix (x # xs) p then Some 0 else None))"

definition go_contains :: "string \<Rightarrow> string \<Rightarrow> bool" where
  "go_contains s p = (go_index s p \<noteq> None)"

text \<open>\<open>strings.Split\<close> with a separator of one byte: never empty, the parts keep the order.\<close>

fun split_on :: "char \<Rightarrow> string \<Rightarrow> string list" where
  "split_on c [] = [[]]"
| "split_on c (x # xs) =
     (if x = c then [] # split_on c xs
      else (case split_on c xs of [] \<Rightarrow> [[x]] | y # ys \<Rightarrow> (x # y) # ys))"

text \<open>\<open>strings.Join\<close>.\<close>

fun go_join :: "string list \<Rightarrow> string \<Rightarrow> string" where
  "go_join [] sep = []"
| "go_join [x] sep = x"
| "go_join (x # y # ys) sep = x @ sep @ go_join (y # ys) sep"

text \<open>
  \<open>strings.ReplaceAll\<close> for a non-empty old string: every non-overlapping occurrence, left to
  right. (An empty old string does not occur in this program.)
\<close>

function replace_all :: "string \<Rightarrow> string \<Rightarrow> string \<Rightarrow> string" where
  "replace_all s old new =
     (if s = [] then []
      else if old \<noteq> [] \<and> has_prefix s old then new @ replace_all (drop (length old) s) old new
      else hd s # replace_all (tl s) old new)"
  by pat_completeness auto
termination
  by (relation "measure (\<lambda>(s, old, new). length s)") (auto simp: neq_Nil_conv)

declare replace_all.simps [simp del]

section \<open>White space (strings.TrimSpace, strings.Fields)\<close>

text \<open>
  \<open>unicode.IsSpace\<close> on UTF-8: the six ASCII spaces, U+0085 and U+00A0, and the wide spaces
  U+1680, U+2000 to U+200A, U+2028, U+2029, U+202F, U+205F, U+3000. \<open>space_len s\<close> is the number
  of bytes of the white-space rune that \<open>s\<close> starts with, 0 when it starts with none. No such
  encoding starts with a continuation byte, so scanning byte by byte and scanning rune by rune
  find the same white space.
\<close>

definition ascii_space :: "char \<Rightarrow> bool" where
  "ascii_space c \<longleftrightarrow> c \<in> {CHR 0x09, CHR 0x0A, CHR 0x0B, CHR 0x0C, CHR 0x0D, CHR '' ''}"

definition wide_space :: "char \<Rightarrow> char \<Rightarrow> char \<Rightarrow> bool" where
  "wide_space a b c \<longleftrightarrow>
     (a = CHR 0xE1 \<and> b = CHR 0x9A \<and> c = CHR 0x80) \<or>
     (a = CHR 0xE2 \<and> b = CHR 0x80 \<and>
        (0x80 \<le> (of_char c :: nat) \<and> (of_char c :: nat) \<le> 0x8A \<or>
         c = CHR 0xA8 \<or> c = CHR 0xA9 \<or> c = CHR 0xAF)) \<or>
     (a = CHR 0xE2 \<and> b = CHR 0x81 \<and> c = CHR 0x9F) \<or>
     (a = CHR 0xE3 \<and> b = CHR 0x80 \<and> c = CHR 0x80)"

definition narrow_space :: "char \<Rightarrow> char \<Rightarrow> bool" where
  "narrow_space a b \<longleftrightarrow> a = CHR 0xC2 \<and> (b = CHR 0x85 \<or> b = CHR 0xA0)"

fun space_len :: "string \<Rightarrow> nat" where
  "space_len [] = 0"
| "space_len (a # t) =
     (if ascii_space a then 1
      else (case t of
              [] \<Rightarrow> 0
            | b # u \<Rightarrow> if narrow_space a b then 2
                       else (case u of [] \<Rightarrow> 0 | c # _ \<Rightarrow> if wide_space a b c then 3 else 0)))"

text \<open>The same from the end of the string; the argument is the reversed string.\<close>

fun space_len_rev :: "string \<Rightarrow> nat" where
  "space_len_rev [] = 0"
| "space_len_rev (c # t) =
     (if ascii_space c then 1
      else (case t of
              [] \<Rightarrow> 0
            | b # u \<Rightarrow> if narrow_space b c then 2
                       else (case u of [] \<Rightarrow> 0 | a # _ \<Rightarrow> if wide_space a b c then 3 else 0)))"

function trim_left_by :: "(string \<Rightarrow> nat) \<Rightarrow> string \<Rightarrow> string" where
  "trim_left_by f s = (if s = [] \<or> f s = 0 then s else trim_left_by f (drop (f s) s))"
  by pat_completeness auto
termination
  by (relation "measure (\<lambda>(f, s). length s)") auto

declare trim_left_by.simps [simp del]

definition trim_space :: "string \<Rightarrow> string" where
  "trim_space s = rev (trim_left_by space_len_rev (rev (trim_left_by space_len s)))"

function fields_aux :: "string \<Rightarrow> string \<Rightarrow> string list" where
  "fields_aux cur s =
     (if s = [] then (if cur = [] then [] else [cur])
      else if space_len s = 0 then fields_aux (cur @ [hd s]) (tl s)
      else (if cur = [] then [] else [cur]) @ fields_aux [] (drop (space_len s) s))"
  by pat_completeness auto
termination
  by (relation "measure (\<lambda>(cur, s). length s)") (auto simp: neq_Nil_conv)

declare fields_aux.simps [simp del]

definition go_fields :: "string \<Rightarrow> string list" where
  "go_fields s = fields_aux [] s"

text \<open>\<open>strings.TrimLeft\<close>, \<open>TrimRight\<close> and \<open>Trim\<close> with a set of ASCII bytes.\<close>

definition trim_left_set :: "string \<Rightarrow> string \<Rightarrow> string" where
  "trim_left_set s cs = dropWhile (\<lambda>c. c \<in> set cs) s"

definition trim_right_set :: "string \<Rightarrow> string \<Rightarrow> string" where
  "trim_right_set s cs = rev (dropWhile (\<lambda>c. c \<in> set cs) (rev s))"

definition trim_set :: "string \<Rightarrow> string \<Rightarrow> string" where
  "trim_set s cs = trim_right_set (trim_left_set s cs) cs"

section \<open>Letter case (strings.ToLower)\<close>

definition is_ascii :: "char \<Rightarrow> bool" where
  "is_ascii c \<longleftrightarrow> (of_char c :: nat) < 0x80"

definition lower_char :: "char \<Rightarrow> char" where
  "lower_char c = (let n = (of_char c :: nat) in if 65 \<le> n \<and> n \<le> 90 then char_of (n + 32) else c)"

text \<open>
  \<open>strings.ToLower\<close> for the use the program makes of it: the result is compared with, or searched
  for, ASCII text. The ASCII letters are mapped, and so are the only two other code points whose
  lower case is ASCII (U+0130 to \<open>i\<close>, U+212A to \<open>k\<close>); any other non-ASCII rune stays non-ASCII
  in Go, here it is left as it is.
\<close>

function to_lower :: "string \<Rightarrow> string" where
  "to_lower s =
     (case s of
        [] \<Rightarrow> []
      | a # t \<Rightarrow>
          if has_prefix s [CHR 0xC4, CHR 0xB0] then CHR ''i'' # to_lower (drop 1 t)
          else if has_prefix s [CHR 0xE2, CHR 0x84, CHR 0xAA] then CHR ''k'' # to_lower (drop 2 t)
          else lower_char a # to_lower t)"
  by pat_completeness auto
termination
  by (relation "measure length") (auto simp: le_imp_less_Suc)

declare to_lower.simps [simp del]

definition ascii_letter :: "char \<Rightarrow> bool" where
  "ascii_letter c \<longleftrightarrow> 97 \<le> (of_char (lower_char c) :: nat) \<and> (of_char (lower_char c) :: nat) \<le> 122"

section \<open>Numbers (package strconv, fmt)\<close>

definition is_digit :: "char \<Rightarrow> bool" where
  "is_digit c \<longleftrightarrow> 48 \<le> (of_char c :: nat) \<and> (of_char c :: nat) \<le> 57"

definition digit_val :: "char \<Rightarrow> nat" where
  "digit_val c = of_char c - 48"

definition max_int64 :: int where "max_int64 = 9223372036854775807"
definition min_int64 :: int where "min_int64 = -9223372036854775808"
definition max_uint64 :: nat where "max_uint64 = 18446744073709551615"

text \<open>Wrap-around of 64-bit two's complement arithmetic (Go's \<open>int64\<close> and \<open>int\<close>).\<close>

definition wrap64 :: "int \<Rightarrow> int" where
  "wrap64 x = (x + 9223372036854775808) mod 18446744073709551616 - 9223372036854775808"

datatype num_error = ErrSyntax | ErrRange

text \<open>\<open>strconv.ParseUint\<close>, base 10: left to right, stopping at the first error.\<close>

fun parse_uint_from :: "nat \<Rightarrow> string \<Rightarrow> nat \<times> num_error option" where
  "parse_uint_from n [] = (n, None)"
| "parse_uint_from n (c # cs) =
     (if \<not> is_digit c then (0, Some ErrSyntax)
      else if max_uint64 < n * 10 + digit_val c then (max_uint64, Some ErrRange)
      else parse_uint_from (n * 10 + digit_val c) cs)"

definition parse_uint :: "string \<Rightarrow> nat \<times> num_error option" where
  "parse_uint s = (if s = [] then (0, Some ErrSyntax) else parse_uint_from 0 s)"

text \<open>
  \<open>strconv.ParseInt(s, 10, 64)\<close> and \<open>strconv.Atoi\<close>: value and error. Out of range, the value is
  the nearest 64-bit integer, and callers that discard the error keep it.
\<close>

definition parse_int :: "string \<Rightarrow> int \<times> num_error option" where
  "parse_int s =
     (if s = [] then (0, Some ErrSyntax)
      else let neg = (hd s = CHR ''-'');
               body = (if hd s = CHR ''+'' \<or> hd s = CHR ''-'' then tl s else s)
           in case parse_uint body of
                (un, err) \<Rightarrow>
                  if err = Some ErrSyntax then (0, Some ErrSyntax)
                  else if \<not> neg \<and> max_int64 < int un then (max_int64, Some ErrRange)
                  else if neg \<and> - min_int64 < int un then (min_int64, Some ErrRange)
                  else (if neg then - int un else int un, None))"

text \<open>Decimal output (\<open>%d\<close>, \<open>strconv.Itoa\<close>).\<close>

fun show_nat :: "nat \<Rightarrow> string" where
  "show_nat n = (if n < 10 then [char_of (48 + n)]
                 else show_nat (n div 10) @ [char_of (48 + n mod 10)])"

declare show_nat.simps [simp del]

definition show_int :: "int \<Rightarrow> string" where
  "show_int i = (if i < 0 then CHR ''-'' # show_nat (nat (- i)) else show_nat (nat i))"

section \<open>Instants and durations (package time)\<close>

text \<open>
  A \<open>time.Time\<close> is its distance from the Unix epoch in nanoseconds, unbounded as Go's seconds
  and nanoseconds pair is for every instant the program can meet; the zero \<open>time.Time\<close> is
  1 January of year 1. A \<open>time.Duration\<close> is an \<open>int64\<close> of nanoseconds, and \<open>Time.Sub\<close> saturates.
\<close>

type_synonym gotime = int
type_synonym duration = int

definition second :: duration where "second = 1000000000"
definition minute :: duration where "minute = 60 * second"
definition hour :: duration where "hour = 60 * minute"

definition zero_time :: gotime where "zero_time = -62135596800 * second"

definition unix_time :: "int \<Rightarrow> gotime" where "unix_time s = s * second"

definition to_unix :: "gotime \<Rightarrow> int" where "to_unix t = t div second"

text \<open>\<open>int(d.Seconds())\<close>, \<open>int(d.Hours())\<close> and the like: whole units towards zero. (The \<open>float64\<close> in between may
  round up the last fraction of a microsecond before a full unit.)\<close>

definition whole_units :: "duration \<Rightarrow> duration \<Rightarrow> int" where
  "whole_units d unit = (if d < 0 then - ((- d) div unit) else d div unit)"

definition time_sub :: "gotime \<Rightarrow> gotime \<Rightarrow> duration" where
  "time_sub t u = max min_int64 (min max_int64 (t - u))"

section \<open>Lemmas on searching and splitting\<close>

lemma has_prefix_Nil [simp]: "has_prefix s []"
  by (simp add: has_prefix_def)

lemma has_prefix_Nil_Cons [simp]: "\<not> has_prefix [] (y # ys)"
  by (simp add: has_prefix_def)

lemma has_prefix_Cons [simp]: "has_prefix (x # xs) (y # ys) \<longleftrightarrow> x = y \<and> has_prefix xs ys"
  by (auto simp: has_prefix_def)

lemma has_prefix_append [simp]: "has_prefix (p @ s) p"
  by (simp add: has_prefix_def)

lemma has_prefix_iff: "has_prefix s p \<longleftrightarrow> (\<exists>t. s = p @ t)"
  by (auto simp: has_prefix_def) (metis append_take_drop_id)

lemma has_suffix_append [simp]: "has_suffix (s @ p) p"
  by (simp add: has_suffix_def)

lemma has_suffix_iff: "has_suffix s p \<longleftrightarrow> (\<exists>t. s = t @ p)"
  by (auto simp: has_suffix_def has_prefix_iff) (metis rev_append rev_rev_ident)

lemma trim_suffix_append [simp]: "trim_suffix (s @ p) p = s"
  by (simp add: trim_suffix_def)

lemma trim_prefix_append [simp]: "trim_prefix (p @ s) p = s"
  by (simp add: trim_prefix_def)

lemma split_on_not_Nil [simp]: "split_on c s \<noteq> []"
  by (induction c s rule: split_on.induct) (auto split: list.splits)

lemma split_on_append_sep: "c \<notin> set a \<Longrightarrow> split_on c (a @ c # b) = a # split_on c b"
  by (induction a) (auto split: list.splits)

lemma split_on_no_sep: "c \<notin> set a \<Longrightarrow> split_on c a = [a]"
  by (induction a) (auto split: list.splits)

lemma split_on_parts: "p \<in> set (split_on c s) \<Longrightarrow> c \<notin> set p"
  by (induction c s arbitrary: p rule: split_on.induct) (auto split: list.splits if_splits)

lemma split_on_parts_subset: "p \<in> set (split_on c s) \<Longrightarrow> set p \<subseteq> set s"
  by (induction c s arbitrary: p rule: split_on.induct) (fastforce split: list.splits if_splits)+

lemma go_join_Cons: "xs \<noteq> [] \<Longrightarrow> go_join (x # xs) sep = x @ sep @ go_join xs sep"
  by (cases xs) auto

lemma join_split_on: "go_join (split_on c s) [c] = s"
proof (induction c s rule: split_on.induct)
  case (1 c)
  then show ?case by simp
next
  case (2 c x xs)
  then show ?case
    by (cases "split_on c xs"; cases "tl (split_on c xs)") (auto simp: go_join_Cons)
qed

lemma go_index_Some: "go_index s p = Some i \<Longrightarrow> i \<le> length s \<and> has_prefix (drop i s) p"
  by (induction s p arbitrary: i rule: go_index.induct) (auto split: if_splits)

lemma last_index_Some: "last_index s p = Some i \<Longrightarrow> i \<le> length s \<and> has_prefix (drop i s) p"
  by (induction s p arbitrary: i rule: last_index.induct) (auto split: if_splits option.splits)

lemma replace_all_Nil [simp]: "replace_all [] old new = []"
  by (simp add: replace_all.simps)

lemma replace_all_hit: "old \<noteq> [] \<Longrightarrow> replace_all (old @ s) old new = new @ replace_all s old new"
  by (subst replace_all.simps) simp

lemma replace_all_miss: "\<not> has_prefix (c # s) old \<Longrightarrow> replace_all (c # s) old new = c # replace_all s old new"
  by (subst replace_all.simps) simp

section \<open>Lemmas on white space\<close>

lemma not_narrow_space [simp]:
  "is_ascii a \<Longrightarrow> \<not> narrow_space a b" "is_ascii b \<Longrightarrow> \<not> narrow_space a b"
  by (auto simp: narrow_space_def is_ascii_def)

lemma not_wide_space [simp]:
  "is_ascii a \<Longrightarrow> \<not> wide_space a b c" "is_ascii c \<Longrightarrow> \<not> wide_space a b c"
  by (auto simp: wide_space_def is_ascii_def)

lemma space_len_ascii [simp]: "is_ascii c \<Longrightarrow> \<not> ascii_space c \<Longrightarrow> space_len (c # t) = 0"
  by (simp split: list.split)

lemma space_len_rev_ascii [simp]: "is_ascii c \<Longrightarrow> \<not> ascii_space c \<Longrightarrow> space_len_rev (c # t) = 0"
  by (simp split: list.split)

declare space_len.simps(2) [simp del] space_len_rev.simps(2) [simp del]

lemma trim_left_by_stop: "s = [] \<or> f s = 0 \<Longrightarrow> trim_left_by f s = s"
  by (subst trim_left_by.simps) auto

lemma trim_left_by_done: "trim_left_by f s = [] \<or> f (trim_left_by f s) = 0"
proof (induction f s rule: trim_left_by.induct)
  case (1 f s)
  then show ?case
    by (cases "s = [] \<or> f s = 0") (auto simp: trim_left_by.simps[of f s])
qed

lemma trim_left_by_subset: "set (trim_left_by f s) \<subseteq> set s"
proof (induction f s rule: trim_left_by.induct)
  case (1 f s)
  then show ?case
    by (cases "s = [] \<or> f s = 0")
      (auto simp: trim_left_by.simps[of f s] dest: in_set_dropD)
qed

lemma trim_space_subset: "set (trim_space s) \<subseteq> set s"
  unfolding trim_space_def
  by (metis set_rev subset_trans trim_left_by_subset)

text \<open>A string that starts and ends in printable ASCII has nothing to trim.\<close>

lemma trim_space_id:
  assumes "s \<noteq> []" and "is_ascii (hd s)" and "\<not> ascii_space (hd s)"
    and "is_ascii (last s)" and "\<not> ascii_space (last s)"
  shows "trim_space s = s"
proof -
  have l: "trim_left_by space_len s = s"
    using assms by (intro trim_left_by_stop) (cases s, auto)
  have "trim_left_by space_len_rev (rev s) = rev s"
    using assms by (intro trim_left_by_stop) (cases s rule: rev_cases, auto)
  with l show ?thesis by (simp add: trim_space_def)
qed

section \<open>Lemmas on numbers\<close>

definition digits_value :: "nat \<Rightarrow> string \<Rightarrow> nat" where
  "digits_value a s = foldl (\<lambda>n c. n * 10 + digit_val c) a s"

lemma digits_value_ge: "a \<le> digits_value a s"
proof (induction s arbitrary: a)
  case Nil
  then show ?case by (simp add: digits_value_def)
next
  case (Cons c s)
  have "a \<le> a * 10 + digit_val c" by simp
  also have "\<dots> \<le> digits_value (a * 10 + digit_val c) s" by (rule Cons.IH)
  finally show ?case by (simp add: digits_value_def)
qed

lemma parse_uint_from_digits:
  "list_all is_digit s \<Longrightarrow> digits_value a s \<le> max_uint64 \<Longrightarrow>
   parse_uint_from a s = (digits_value a s, None)"
proof (induction s arbitrary: a)
  case Nil
  then show ?case by (simp add: digits_value_def)
next
  case (Cons c s)
  have "a * 10 + digit_val c \<le> max_uint64"
    using digits_value_ge[of "a * 10 + digit_val c" s] Cons.prems(2)
    by (simp add: digits_value_def)
  with Cons show ?case by (simp add: digits_value_def)
qed

lemma of_char_digit: "d < 10 \<Longrightarrow> of_char (char_of (48 + d) :: char) = (48 + d :: nat)"
  by simp

lemma digit_char: "d < 10 \<Longrightarrow> is_digit (char_of (48 + d)) \<and> digit_val (char_of (48 + d)) = d"
  unfolding is_digit_def digit_val_def using of_char_digit[of d] by simp

lemma show_nat_digits: "list_all is_digit (show_nat n)"
proof (induction n rule: show_nat.induct)
  case (1 n)
  show ?case
  proof (cases "n < 10")
    case True
    then show ?thesis by (subst show_nat.simps) (simp add: digit_char)
  next
    case False
    then show ?thesis
      by (subst show_nat.simps) (use 1 digit_char[of "n mod 10"] in simp)
  qed
qed

lemma show_nat_not_Nil [simp]: "show_nat n \<noteq> []"
  by (subst show_nat.simps) simp

lemma digits_value_show_nat: "digits_value 0 (show_nat n) = n"
proof (induction n rule: show_nat.induct)
  case (1 n)
  show ?case
  proof (cases "n < 10")
    case True
    then show ?thesis
      by (subst show_nat.simps) (simp add: digits_value_def digit_char)
  next
    case False
    then show ?thesis
      by (subst show_nat.simps) (use 1 digit_char[of "n mod 10"] in \<open>simp add: digits_value_def\<close>)
  qed
qed

lemma show_nat_hd: "hd (show_nat n) \<noteq> CHR ''+''" "hd (show_nat n) \<noteq> CHR ''-''"
proof -
  have "is_digit (hd (show_nat n))"
    using show_nat_digits[of n] by (cases "show_nat n") simp_all
  then show "hd (show_nat n) \<noteq> CHR ''+''" "hd (show_nat n) \<noteq> CHR ''-''"
    by (auto simp: is_digit_def)
qed

text \<open>Printing and parsing a 64-bit integer are inverse.\<close>

lemma parse_int_show_int:
  assumes "min_int64 \<le> n" and "n \<le> max_int64"
  shows "parse_int (show_int n) = (n, None)"
proof -
  have u: "parse_uint (show_nat m) = (m, None)" if "m \<le> max_uint64" for m
    using parse_uint_from_digits[OF show_nat_digits, of 0 m] that
    by (simp add: parse_uint_def digits_value_show_nat)
  have "nat (abs n) \<le> max_uint64"
    using assms by (simp add: min_int64_def max_int64_def max_uint64_def)
  from u[OF this] show ?thesis
    using assms show_nat_hd[of "nat n"]
    by (auto simp: parse_int_def show_int_def Let_def min_int64_def max_int64_def)
qed

lemma show_nat_set: "c \<in> set (show_nat n) \<Longrightarrow> is_digit c"
  using show_nat_digits[of n] by (simp add: list_all_iff)

lemma show_int_set: "c \<in> set (show_int n) \<Longrightarrow> is_digit c \<or> c = CHR ''-''"
  by (auto simp: show_int_def split: if_splits dest: show_nat_set)

section \<open>Lemmas on letter case\<close>

lemma to_lower_Nil [simp]: "to_lower [] = []"
  by (simp add: to_lower.simps)

lemma to_lower_Cons_ascii: "is_ascii c \<Longrightarrow> to_lower (c # s) = lower_char c # to_lower s"
proof -
  assume "is_ascii c"
  then have "c \<noteq> CHR 0xC4" "c \<noteq> CHR 0xE2" by (auto simp: is_ascii_def)
  then show ?thesis by (subst to_lower.simps) simp
qed

lemma to_lower_ascii: "list_all is_ascii s \<Longrightarrow> to_lower s = map lower_char s"
  by (induction s) (simp_all add: to_lower_Cons_ascii)

section \<open>The codec contract\<close>

text \<open>
  Several components decode what a peer or an older version of the program encoded. The contract:
  on every valid value, decoding undoes encoding. Its consequences are proved once, here.
\<close>

locale codec =
  fixes enc :: "'a \<Rightarrow> 'b" and dec :: "'b \<Rightarrow> 'c" and res :: "'a \<Rightarrow> 'c" and valid :: "'a \<Rightarrow> bool"
  assumes dec_enc: "valid x \<Longrightarrow> dec (enc x) = res x"
begin

lemma enc_separates: "valid x \<Longrightarrow> valid y \<Longrightarrow> res x \<noteq> res y \<Longrightarrow> enc x \<noteq> enc y"
  using dec_enc by metis

lemma dec_image: "(\<And>x. x \<in> A \<Longrightarrow> valid x) \<Longrightarrow> dec ` enc ` A = res ` A"
  using dec_enc by (force simp: image_iff)

lemma dec_map: "list_all valid xs \<Longrightarrow> map dec (map enc xs) = map res xs"
  using dec_enc by (induction xs) auto

end

section \<open>The invariant contract\<close>

text \<open>Components with a state and a step relation share one contract: the invariant holds at the
  start and every step keeps it. Then it holds in every reachable state.\<close>

locale invariant =
  fixes start :: "'s \<Rightarrow> bool" and step :: "'s \<Rightarrow> 's \<Rightarrow> bool" and inv :: "'s \<Rightarrow> bool"
  assumes inv_start: "start s \<Longrightarrow> inv s"
    and inv_step: "inv s \<Longrightarrow> step s s' \<Longrightarrow> inv s'"
begin

lemma inv_steps: "step\<^sup>*\<^sup>* s s' \<Longrightarrow> inv s \<Longrightarrow> inv s'"
  by (induction rule: rtranclp_induct) (auto intro: inv_step)

lemma inv_reachable: "start s \<Longrightarrow> step\<^sup>*\<^sup>* s s' \<Longrightarrow> inv s'"
  using inv_steps inv_start by blast

end

interpretation int64: codec show_int parse_int "\<lambda>n. (n, None)" "\<lambda>n. min_int64 \<le> n \<and> n \<le> max_int64"
  by unfold_locales (simp add: parse_int_show_int)

lemma split_on_join:
  assumes "ps \<noteq> []" and "list_all (\<lambda>p. c \<notin> set p) ps"
  shows "split_on c (go_join ps [c]) = ps"
  using assms
proof (induction ps)
  case (Cons p ps)
  then show ?case
    by (cases ps) (auto simp: split_on_append_sep split_on_no_sep)
qed simp

end
