(* ===== verification/Base64.thy ===== *)
theory Base64
  imports Prelude
begin

text \<open>
  \<open>encoding/base64.StdEncoding\<close> as the program uses it (keys, signatures, spotter ids, encoded
  words): the standard alphabet with padding, newlines skipped when decoding, no check of the
  unused bits of the last character.
\<close>

definition b64_char :: "nat \<Rightarrow> char" where
  "b64_char n =
     (if n < 26 then char_of (65 + n)
      else if n < 52 then char_of (97 + (n - 26))
      else if n < 62 then char_of (48 + (n - 52))
      else if n = 62 then CHR ''+'' else CHR ''/'')"

definition b64_val :: "char \<Rightarrow> nat option" where
  "b64_val c =
     (let n = (of_char c :: nat)
      in if 65 \<le> n \<and> n \<le> 90 then Some (n - 65)
         else if 97 \<le> n \<and> n \<le> 122 then Some (n - 97 + 26)
         else if 48 \<le> n \<and> n \<le> 57 then Some (n - 48 + 52)
         else if c = CHR ''+'' then Some 62
         else if c = CHR ''/'' then Some 63
         else None)"

fun b64_encode :: "string \<Rightarrow> string" where
  "b64_encode [] = []"
| "b64_encode [x] =
     (let v = of_char x * 16
      in [b64_char (v div 64), b64_char (v mod 64), CHR ''='', CHR ''=''])"
| "b64_encode [x, y] =
     (let v = (of_char x * 256 + of_char y) * 4
      in [b64_char (v div 4096), b64_char (v div 64 mod 64), b64_char (v mod 64), CHR ''=''])"
| "b64_encode (x # y # z # rest) =
     (let v = (of_char x * 256 + of_char y) * 256 + of_char z
      in [b64_char (v div 262144), b64_char (v div 4096 mod 64), b64_char (v div 64 mod 64),
          b64_char (v mod 64)] @ b64_encode rest)"

fun b64_quads :: "string \<Rightarrow> string option" where
  "b64_quads [] = Some []"
| "b64_quads (a # b # c # d # rest) =
     (case (b64_val a, b64_val b, b64_val c, b64_val d) of
        (Some p, Some q, Some r, Some s) \<Rightarrow>
          (let v = ((p * 64 + q) * 64 + r) * 64 + s
           in map_option (\<lambda>t. char_of (v div 65536) # char_of (v div 256) # char_of v # t) (b64_quads rest))
      | (Some p, Some q, Some r, None) \<Rightarrow>
          (if d = CHR ''='' \<and> rest = []
           then (let v = (p * 64 + q) * 64 + r in Some [char_of (v div 1024), char_of (v div 4)])
           else None)
      | (Some p, Some q, None, None) \<Rightarrow>
          (if c = CHR ''='' \<and> d = CHR ''='' \<and> rest = []
           then Some [char_of ((p * 64 + q) div 16)] else None)
      | _ \<Rightarrow> None)"
| "b64_quads _ = None"

definition b64_decode :: "string \<Rightarrow> string option" where
  "b64_decode s = b64_quads (filter (\<lambda>c. c \<noteq> CHR 0x0A \<and> c \<noteq> CHR 0x0D) s)"

section \<open>Round trip\<close>

lemma of_char_of_byte: "n < 256 \<Longrightarrow> of_char (char_of n :: char) = (n :: nat)"
  by simp

lemma b64_val_char: "n < 64 \<Longrightarrow> b64_val (b64_char n) = Some n"
proof -
  assume n: "n < 64"
  consider "n < 26" | "26 \<le> n" "n < 52" | "52 \<le> n" "n < 62" | "n = 62" | "n = 63"
    using n by linarith
  then show ?thesis
  proof cases
    case 1
    then show ?thesis using of_char_of_byte[of "65 + n"] by (simp add: b64_char_def b64_val_def)
  next
    case 2
    then show ?thesis using of_char_of_byte[of "97 + (n - 26)"] by (simp add: b64_char_def b64_val_def Let_def)
  next
    case 3
    then have "of_char (char_of (48 + (n - 52)) :: char) = (48 + (n - 52))" by (intro of_char_of_byte) simp
    with 3 show ?thesis by (auto simp: b64_char_def b64_val_def Let_def)
  qed (simp_all add: b64_char_def b64_val_def)
qed

lemma b64_val_eq [simp]: "b64_val (CHR ''='') = None"
  by (simp add: b64_val_def)

lemma of_char_lt: "(of_char (c :: char) :: nat) < 256"
  by (metis of_char_mod_256 mod_less_divisor zero_less_numeral)

lemma char_of_of_char_add: "char_of (256 * k + of_char c :: nat) = c"
proof -
  have "of_char (char_of (256 * k + of_char c :: nat) :: char) = (of_char c :: nat)"
    unfolding of_char_of by simp
  then show ?thesis by (simp only: of_char_eq_iff)
qed

lemma b64_char_not_newline: "b64_char n \<noteq> CHR 0x0A \<and> b64_char n \<noteq> CHR 0x0D"
proof -
  have "b64_val (b64_char (min n 63)) = Some (min n 63)"
    by (rule b64_val_char) simp
  moreover have "b64_char (min n 63) = b64_char n" by (auto simp: b64_char_def min_def)
  ultimately have "b64_val (b64_char n) = Some (min n 63)" by simp
  then show ?thesis by (auto simp: b64_val_def)
qed

lemma filter_b64_encode:
  "filter (\<lambda>c. c \<noteq> CHR 0x0A \<and> c \<noteq> CHR 0x0D) (b64_encode s) = b64_encode s"
  by (induction s rule: b64_encode.induct) (auto simp: b64_char_not_newline Let_def)

lemma sextets:
  fixes v :: nat
  shows "((v div 262144 * 64 + v div 4096 mod 64) * 64 + v div 64 mod 64) * 64 + v mod 64 = v"
    and "(v div 4096 * 64 + v div 64 mod 64) * 64 + v mod 64 = v"
    and "v div 64 * 64 + v mod 64 = v"
proof -
  show c: "v div 64 * 64 + v mod 64 = v" for v :: nat by (rule div_mult_mod_eq)
  have e: "v div 4096 = v div 64 div 64" for v :: nat by (simp add: div_mult2_eq [symmetric])
  show b: "(v div 4096 * 64 + v div 64 mod 64) * 64 + v mod 64 = v" for v :: nat
    by (simp only: e c)
  have "v div 262144 = v div 4096 div 64" by (simp add: div_mult2_eq [symmetric])
  then show "((v div 262144 * 64 + v div 4096 mod 64) * 64 + v div 64 mod 64) * 64 + v mod 64 = v"
    using b[of "v div 64"] c[of v] by (simp add: div_mult2_eq [symmetric])
qed

lemma b64_quads_encode: "b64_quads (b64_encode s) = Some s"
proof (induction s rule: b64_encode.induct)
  case 1
  then show ?case by simp
next
  case (2 x)
  define v where "v = (of_char x * 16 :: nat)"
  have "v < 4096" using of_char_lt[of x] unfolding v_def by linarith
  then have "v div 64 < 64" by (simp add: less_mult_imp_div_less)
  moreover have "v div 16 = of_char x" by (simp add: v_def)
  ultimately show ?case
    by (simp add: Let_def b64_val_char sextets flip: v_def)
next
  case (3 x y)
  define v where "v = ((of_char x * 256 + of_char y) * 4 :: nat)"
  have "v < 262144" using of_char_lt[of x] of_char_lt[of y] unfolding v_def distrib_right by linarith
  then have "v div 4096 < 64" by (simp add: less_mult_imp_div_less)
  moreover have "b64_encode [x, y]
      = [b64_char (v div 4096), b64_char (v div 64 mod 64), b64_char (v mod 64), CHR ''='']"
    by (simp only: b64_encode.simps Let_def v_def)
  moreover have "v div 1024 = of_char x" "v div 4 = 256 * of_char x + of_char y"
    using of_char_lt[of x] of_char_lt[of y] by (simp_all add: v_def)
  ultimately show ?case
    using sextets(2)[of v] by (simp add: Let_def b64_val_char char_of_of_char_add del: b64_encode.simps)
next
  case (4 x y z rest)
  define v where "v = ((of_char x * 256 + of_char y) * 256 + of_char z :: nat)"
  have "v < 16777216" using of_char_lt[of x] of_char_lt[of y] of_char_lt[of z] unfolding v_def distrib_right by linarith
  then have "v div 262144 < 64" by (simp add: less_mult_imp_div_less)
  moreover have "b64_encode (x # y # z # rest)
      = [b64_char (v div 262144), b64_char (v div 4096 mod 64), b64_char (v div 64 mod 64),
         b64_char (v mod 64)] @ b64_encode rest"
    by (simp only: b64_encode.simps Let_def v_def)
  ultimately have "b64_quads (b64_encode (x # y # z # rest))
      = Some (char_of (v div 65536) # char_of (v div 256) # char_of v # rest)"
    using 4 sextets(1)[of v] by (simp add: Let_def b64_val_char del: b64_encode.simps)
  moreover have d: "v div 256 = 256 * of_char x + of_char y"
    unfolding v_def by (subst div_mult_self3) simp_all
  moreover have "v div 65536 = of_char x"
  proof -
    have "v div 65536 = v div 256 div 256" by (simp add: div_mult2_eq [symmetric])
    then show ?thesis by (simp add: d)
  qed
  moreover have "char_of v = z"
    using char_of_of_char_add[of "of_char x * 256 + of_char y" z] by (simp add: v_def mult.commute)
  ultimately show ?case by (simp add: char_of_of_char_add)
qed

lemma b64_decode_encode: "b64_decode (b64_encode s) = Some s"
  by (simp add: b64_decode_def filter_b64_encode b64_quads_encode)

interpretation base64: codec b64_encode b64_decode Some "\<lambda>_. True"
  by unfold_locales (simp add: b64_decode_encode)

end
