(* ===== verification/Crypto.thy ===== *)
theory Crypto
  imports Base64 "HOL-Library.Word"
begin

text \<open>
  The cryptographic packages of the Go standard library as \<open>internal/spotnet/signing.go\<close> uses
  them: \<open>crypto/sha1\<close>, \<open>hash/crc32\<close> (IEEE), and \<open>math/big\<close> (big-endian bytes, bit length). Words
  are 32 bits wide and wrap around.
\<close>

unbundle bit_operations_syntax

section \<open>Bytes and numbers\<close>

type_synonym w32 = "32 word"

definition os2ip :: "string \<Rightarrow> nat" where
  "os2ip s = foldl (\<lambda>n c. n * 256 + of_char c) 0 s"

text \<open>\<open>FillBytes\<close>: the number in exactly \<open>k\<close> bytes, most significant first.\<close>

primrec i2osp :: "nat \<Rightarrow> nat \<Rightarrow> string" where
  "i2osp 0 x = []"
| "i2osp (Suc k) x = i2osp k (x div 256) @ [char_of x]"

fun bit_len :: "nat \<Rightarrow> nat" where
  "bit_len n = (if n = 0 then 0 else Suc (bit_len (n div 2)))"

declare bit_len.simps [simp del]

section \<open>SHA-1\<close>

definition rotl32 :: "nat \<Rightarrow> w32 \<Rightarrow> w32" where
  "rotl32 n x = (push_bit n x OR drop_bit (32 - n) x)"

text \<open>The message schedule, newest word first.\<close>

definition sha1_next :: "w32 list \<Rightarrow> w32" where
  "sha1_next ws = rotl32 1 (ws ! 2 XOR ws ! 7 XOR ws ! 13 XOR ws ! 15)"

primrec sha1_expand :: "nat \<Rightarrow> w32 list \<Rightarrow> w32 list" where
  "sha1_expand 0 ws = ws"
| "sha1_expand (Suc n) ws = sha1_expand n (sha1_next ws # ws)"

definition sha1_f :: "nat \<Rightarrow> w32 \<Rightarrow> w32 \<Rightarrow> w32 \<Rightarrow> w32" where
  "sha1_f t b c d =
     (if t < 20 then (b AND c) OR (NOT b AND d)
      else if t < 40 then b XOR c XOR d
      else if t < 60 then (b AND c) OR (b AND d) OR (c AND d)
      else b XOR c XOR d)"

definition sha1_k :: "nat \<Rightarrow> w32" where
  "sha1_k t = (if t < 20 then 0x5A827999 else if t < 40 then 0x6ED9EBA1
               else if t < 60 then 0x8F1BBCDC else 0xCA62C1D6)"

type_synonym sha1_state = "w32 \<times> w32 \<times> w32 \<times> w32 \<times> w32"

fun sha1_rounds :: "nat \<Rightarrow> w32 list \<Rightarrow> sha1_state \<Rightarrow> sha1_state" where
  "sha1_rounds t [] s = s"
| "sha1_rounds t (w # ws) (a, b, c, d, e) =
     sha1_rounds (Suc t) ws
       (rotl32 5 a + sha1_f t b c d + e + w + sha1_k t, a, rotl32 30 b, c, d)"

fun sha1_compress :: "w32 list \<Rightarrow> sha1_state \<Rightarrow> sha1_state" where
  "sha1_compress ws (h0, h1, h2, h3, h4) =
     (case sha1_rounds 0 (rev (sha1_expand 64 (rev ws))) (h0, h1, h2, h3, h4) of
        (a, b, c, d, e) \<Rightarrow> (h0 + a, h1 + b, h2 + c, h3 + d, h4 + e))"

declare sha1_compress.simps [simp del]

definition sha1_pad :: "string \<Rightarrow> string" where
  "sha1_pad m =
     m @ [CHR 0x80] @ replicate ((119 - length m mod 64) mod 64) (CHR 0x00) @ i2osp 8 (8 * length m)"

fun be_words :: "string \<Rightarrow> w32 list" where
  "be_words (a # b # c # d # r) = of_nat (os2ip [a, b, c, d]) # be_words r"
| "be_words _ = []"

function sha1_blocks :: "w32 list \<Rightarrow> sha1_state \<Rightarrow> sha1_state" where
  "sha1_blocks ws s = (if ws = [] then s else sha1_blocks (drop 16 ws) (sha1_compress (take 16 ws) s))"
  by pat_completeness auto
termination
  by (relation "measure (\<lambda>(ws, s). length ws)") auto

declare sha1_blocks.simps [simp del]

definition sha1_words :: "string \<Rightarrow> sha1_state" where
  "sha1_words m =
     sha1_blocks (be_words (sha1_pad m)) (0x67452301, 0xEFCDAB89, 0x98BADCFE, 0x10325476, 0xC3D2E1F0)"

definition sha1 :: "string \<Rightarrow> string" where
  "sha1 m =
     (case sha1_words m of
        (a, b, c, d, e) \<Rightarrow>
          i2osp 4 (unat a) @ i2osp 4 (unat b) @ i2osp 4 (unat c) @ i2osp 4 (unat d) @ i2osp 4 (unat e))"

text \<open>\<open>hex.EncodeToString\<close>.\<close>

definition hex_digit :: "nat \<Rightarrow> char" where
  "hex_digit n = (if n < 10 then char_of (48 + n) else char_of (87 + n))"

definition hex_encode :: "string \<Rightarrow> string" where
  "hex_encode s = concat (map (\<lambda>c. [hex_digit (of_char c div 16), hex_digit (of_char c mod 16)]) s)"

section \<open>CRC-32 (IEEE)\<close>

definition crc_step :: "w32 \<Rightarrow> w32" where
  "crc_step c = (if c AND 1 = 0 then drop_bit 1 c else drop_bit 1 c XOR 0xEDB88320)"

definition crc_byte :: "w32 \<Rightarrow> char \<Rightarrow> w32" where
  "crc_byte c x =
     crc_step (crc_step (crc_step (crc_step (crc_step (crc_step (crc_step (crc_step
       (c XOR of_nat (of_char x)))))))))"

definition crc32 :: "string \<Rightarrow> w32" where
  "crc32 s = (foldl crc_byte 0xFFFFFFFF s) XOR 0xFFFFFFFF"

section \<open>Lemmas on bytes\<close>

lemma length_i2osp [simp]: "length (i2osp k x) = k"
  by (induction k arbitrary: x) auto

lemma os2ip_Nil [simp]: "os2ip [] = 0"
  by (simp add: os2ip_def)

lemma os2ip_snoc [simp]: "os2ip (s @ [c]) = os2ip s * 256 + of_char c"
  by (simp add: os2ip_def)

lemma os2ip_less: "os2ip s < 256 ^ length s"
proof (induction s rule: rev_induct)
  case (snoc c s)
  have "os2ip s * 256 + of_char c < (os2ip s + 1) * 256" by simp
  also have "\<dots> \<le> 256 ^ length s * 256" using snoc by (intro mult_right_mono) simp_all
  finally show ?case by simp
qed simp

lemma os2ip_i2osp: "os2ip (i2osp k x) = x mod 256 ^ k"
proof (induction k arbitrary: x)
  case (Suc k)
  then show ?case by (simp add: mod_mult2_eq mult.commute)
qed simp

lemma i2osp_os2ip: "i2osp (length s) (os2ip s) = s"
proof (induction s rule: rev_induct)
  case (snoc c s)
  have "(os2ip s * 256 + of_char c) div 256 = os2ip s" by simp
  moreover have "char_of (os2ip s * 256 + of_char c) = c"
    using char_of_of_char_add[of "os2ip s" c] by (simp add: mult.commute)
  ultimately show ?case using snoc by simp
qed simp

lemma i2osp_eq_iff:
  assumes "x < 256 ^ k" "length s = k"
  shows "i2osp k x = s \<longleftrightarrow> x = os2ip s"
  using assms os2ip_i2osp[of k x] i2osp_os2ip[of s] by auto

lemma bit_len_bounds: "0 < n \<Longrightarrow> 2 ^ (bit_len n - 1) \<le> n \<and> n < 2 ^ bit_len n \<and> 0 < bit_len n"
proof (induction n rule: bit_len.induct)
  case (1 n)
  show ?case
  proof (cases "n div 2 = 0")
    case True
    with "1.prems" have "n = Suc 0" by linarith
    then show ?thesis by (simp add: bit_len.simps[of "Suc 0"] bit_len.simps[of 0])
  next
    case False
    then have ih: "2 ^ (bit_len (n div 2) - 1) \<le> n div 2" "n div 2 < 2 ^ bit_len (n div 2)"
      "0 < bit_len (n div 2)"
      using 1 by auto
    have b: "bit_len n = Suc (bit_len (n div 2))" using "1.prems" by (subst bit_len.simps) simp
    have "2 ^ bit_len (n div 2) = 2 * 2 ^ (bit_len (n div 2) - 1)"
      using ih(3) by (cases "bit_len (n div 2)") simp_all
    also have "\<dots> \<le> n" using ih(1) by linarith
    finally have "2 ^ bit_len (n div 2) \<le> n" .
    moreover have "n < 2 * 2 ^ bit_len (n div 2)" using ih(2) by linarith
    ultimately show ?thesis by (simp add: b)
  qed
qed

lemma length_sha1 [simp]: "length (sha1 m) = 20"
  by (simp add: sha1_def split: prod.split)

section \<open>Evaluation\<close>

lemma sha1_expand_numeral:
  "sha1_expand (numeral k) ws = sha1_expand (pred_numeral k) (sha1_next ws # ws)"
  by (simp only: numeral_eq_Suc [of k] sha1_expand.simps)

lemma i2osp_numeral:
  "i2osp (numeral k) x = i2osp (pred_numeral k) (x div 256) @ [char_of x]"
  by (simp only: numeral_eq_Suc [of k] i2osp.simps)

lemmas sha1_eval = rotl32_def sha1_expand_numeral sha1_next_def sha1_f_def sha1_k_def

lemma replicate_numeral: "replicate (numeral k) x = x # replicate (pred_numeral k) x"
  by (simp only: numeral_eq_Suc [of k] replicate_Suc)

lemma sha1_rounds_append:
  "sha1_rounds t (xs @ ys) s = sha1_rounds (t + length xs) ys (sha1_rounds t xs s)"
  by (induction t xs s rule: sha1_rounds.induct) auto

lemma sha1_eighty:
  assumes "sha1_rounds 0 a s = s1" "sha1_rounds 20 b s1 = s2" "sha1_rounds 40 c s2 = s3"
    "sha1_rounds 60 d s3 = s4" "length a = 20" "length b = 20" "length c = 20"
  shows "sha1_rounds 0 (a @ b @ c @ d) s = s4"
  using assms by (simp add: sha1_rounds_append)

lemma sha1_compress_step:
  assumes "rev (sha1_expand 64 (rev ws)) = w" and "sha1_rounds 0 w (h0, h1, h2, h3, h4) = (a, b, c, d, e)"
  shows "sha1_compress ws (h0, h1, h2, h3, h4) = (h0 + a, h1 + b, h2 + c, h3 + d, h4 + e)"
  using assms by (simp add: sha1_compress.simps)

lemma sha1_blocks_Nil: "sha1_blocks [] s = s"
  by (simp add: sha1_blocks.simps)

lemma sha1_blocks_step:
  "length xs = 16 \<Longrightarrow> sha1_blocks (xs @ ys) s = sha1_blocks ys (sha1_compress xs s)"
  by (subst sha1_blocks.simps) (auto simp: numeral_eq_Suc)

lemma sha1_blocks_last: "length xs = 16 \<Longrightarrow> sha1_blocks xs s = sha1_compress xs s"
  using sha1_blocks_step[of xs "[]" s] by (simp add: sha1_blocks_Nil)

lemma bit_len_eq: "2 ^ k \<le> n \<Longrightarrow> n < 2 ^ Suc k \<Longrightarrow> bit_len n = Suc k"
proof -
  assume a: "2 ^ k \<le> n" "n < 2 ^ Suc k"
  then have n: "0 < n" using zero_less_power[of "2 :: nat" k] by linarith
  note b = bit_len_bounds[OF n]
  have "(2 :: nat) ^ k < 2 ^ bit_len n" using a(1) b by linarith
  then have "k < bit_len n" by simp
  moreover have "(2 :: nat) ^ (bit_len n - 1) < 2 ^ Suc k" using a(2) b by linarith
  then have "bit_len n - 1 < Suc k" by (rule power_less_imp_less_exp[rotated]) simp
  ultimately show ?thesis by linarith
qed

lemma square_mod: "x * x = q * n + y \<Longrightarrow> y < n \<Longrightarrow> (x :: nat) ^ 2 mod n = y"
  by (simp add: power2_eq_square)

lemma times_mod: "x * z = q * n + y \<Longrightarrow> y < n \<Longrightarrow> (x :: nat) * z mod n = y"
  by simp

lemma power_mod_double: "x ^ e mod n = (y :: nat) \<Longrightarrow> y ^ 2 mod n = z \<Longrightarrow> x ^ (2 * e) mod n = z"
  by (metis mult.commute power_mod power_mult)

end
