(* ===== verification/Signing.thy ===== *)
theory Signing
  imports Crypto
begin

text \<open>
  \<open>internal/spotnet/signing.go\<close>: RSA PKCS#1 v1.5 signatures over SHA-1, the network's master keys,
  self-signed articles with their proof of work, and spotter ids. \<open>xml.Unmarshal\<close> of an X-User-Key
  header is the parameter \<open>xml_user_key\<close> of \<open>ParseUserKey\<close>: the modulus and exponent elements, or
  \<open>None\<close> for an error.
\<close>

section \<open>Keys\<close>

record PublicKey =
  Modulus :: string
  Exponent :: string

definition MasterKeys :: "int \<rightharpoonup> PublicKey" where
  "MasterKeys = map_of
    [(2, \<lparr>Modulus = ''ys8WSlqonQMWT8ubG0tAA2Q07P36E+CJmb875wSR1XH7IFhEi0CCwlUzNqBFhC+P'', Exponent = ''AQAB''\<rparr>),
     (3, \<lparr>Modulus = ''uiyChPV23eguLAJNttC/o0nAsxXgdjtvUvidV2JL+hjNzc4Tc/PPo2JdYvsqUsat'', Exponent = ''AQAB''\<rparr>),
     (4, \<lparr>Modulus = ''1k6RNDVD6yBYWR6kHmwzmSud7JkNV4SMigBrs+jFgOK5Ldzwl17mKXJhl+su/GR9'', Exponent = ''AQAB''\<rparr>)]"

text \<open>An \<open>rsa.PublicKey\<close> is its modulus and exponent; \<open>None\<close> stands for each of the errors.\<close>

definition rsaPub :: "PublicKey \<Rightarrow> (nat \<times> nat) option" where
  "rsaPub k =
     (case b64_decode (Modulus k) of
        None \<Rightarrow> None
      | Some n \<Rightarrow>
          (case b64_decode (Exponent k) of
             None \<Rightarrow> None
           | Some e \<Rightarrow>
               if n = [] \<or> e = [] then None
               else if 2147483647 < os2ip e then None
               else Some (os2ip n, os2ip e)))"

definition UnprepareBase64 :: "string \<Rightarrow> string" where
  "UnprepareBase64 s =
     (let s1 = replace_all s ''-s'' ''/'';
          s2 = replace_all s1 ''-p'' ''+'';
          pad = length s2 mod 4
      in if 0 < pad then s2 @ replicate (4 - pad) (CHR ''='') else s2)"

section \<open>Spotter ids\<close>

definition le_bytes :: "w32 \<Rightarrow> string" where
  "le_bytes w = rev (i2osp 4 (unat w))"

definition SpotterID :: "string \<Rightarrow> string" where
  "SpotterID modulusB64 =
     (case b64_decode modulusB64 of
        None \<Rightarrow> []
      | Some raw \<Rightarrow>
          if raw = [] then []
          else filter (\<lambda>c. c \<noteq> CHR ''/'' \<and> c \<noteq> CHR ''+'' \<and> c \<noteq> CHR ''='')
                 (b64_encode (le_bytes (crc32 raw))))"

section \<open>Signatures\<close>

definition sha1DigestInfo :: string where
  "sha1DigestInfo =
    [CHR 0x30, CHR 0x21, CHR 0x30, CHR 0x09, CHR 0x06, CHR 0x05, CHR 0x2B, CHR 0x0E, CHR 0x03,
     CHR 0x02, CHR 0x1A, CHR 0x05, CHR 0x00, CHR 0x04, CHR 0x14]"

text \<open>The array \<open>want\<close>: 0, 1, a run of 255, 0, the digest's DER prefix and the digest.\<close>

definition pkcs1_em :: "nat \<Rightarrow> string \<Rightarrow> string" where
  "pkcs1_em k digest =
     (let tLen = length sha1DigestInfo + length digest
      in [CHR 0x00, CHR 0x01] @ replicate (k - tLen - 3) (CHR 0xFF) @ [CHR 0x00] @ sha1DigestInfo @ digest)"

definition verifyPKCS1v15SHA1 :: "nat \<times> nat \<Rightarrow> string \<Rightarrow> string \<Rightarrow> bool" where
  "verifyPKCS1v15SHA1 pub digest sig =
     (case pub of
        (N, E) \<Rightarrow>
          let k = (bit_len N + 7) div 8;
              tLen = length sha1DigestInfo + length digest
          in if length sig \<noteq> k \<or> k < tLen + 11 \<or> E < 2 then False
             else let s = os2ip sig
                  in if N \<le> s then False
                     else i2osp k (s ^ E mod N) = pkcs1_em k digest)"

definition verify :: "PublicKey \<Rightarrow> string \<Rightarrow> string \<Rightarrow> bool" where
  "verify key dat signatureB64 =
     (case rsaPub key of
        None \<Rightarrow> False
      | Some pub \<Rightarrow>
          (case b64_decode signatureB64 of
             None \<Rightarrow> False
           | Some sig \<Rightarrow> if sig = [] then False else verifyPKCS1v15SHA1 pub (sha1 dat) sig))"

definition ParseUserKey :: "(string \<Rightarrow> (string \<times> string) option) \<Rightarrow> string \<Rightarrow> PublicKey option" where
  "ParseUserKey xml_user_key header =
     (case xml_user_key (trim_space header) of
        None \<Rightarrow> None
      | Some (m, e) \<Rightarrow> if m = [] then None else Some \<lparr>Modulus = m, Exponent = e\<rparr>)"

definition headerSigningString :: "string \<Rightarrow> string \<Rightarrow> string \<Rightarrow> string option" where
  "headerSigningString title header poster =
     (case last_index header ''.'' of None \<Rightarrow> None | Some idx \<Rightarrow> Some (title @ take idx header @ poster))"

definition VerifyHeader :: "string \<Rightarrow> string \<Rightarrow> string \<Rightarrow> string \<Rightarrow> int \<Rightarrow> bool" where
  "VerifyHeader title header poster signatureB64 keyID =
     (case MasterKeys keyID of
        None \<Rightarrow> False
      | Some key \<Rightarrow>
          (case headerSigningString title header poster of
             None \<Rightarrow> False
           | Some toCheck \<Rightarrow> verify key toCheck (UnprepareBase64 signatureB64)))"

definition minSelfSignedKeyLen :: nat where "minSelfSignedKeyLen = 50"
definition hashcashPrefix :: string where "hashcashPrefix = ''0000''"

definition bracketed :: "string \<Rightarrow> string" where
  "bracketed m = (if \<not> has_prefix m ''<'' then ''<'' @ m @ ''>'' else m)"

definition HasValidHashcash :: "string \<Rightarrow> bool" where
  "HasValidHashcash messageID = has_prefix (hex_encode (sha1 (bracketed messageID))) hashcashPrefix"

definition VerifySelfSigned ::
  "string \<Rightarrow> string \<Rightarrow> string \<Rightarrow> string \<Rightarrow> string \<Rightarrow> string \<Rightarrow> string \<times> bool" where
  "VerifySelfSigned title header poster signatureB64 selfSignedPubKey messageID =
     (if length selfSignedPubKey \<le> minSelfSignedKeyLen then ([], False)
      else if \<not> HasValidHashcash messageID then ([], False)
      else (case headerSigningString title header poster of
              None \<Rightarrow> ([], False)
            | Some toCheck \<Rightarrow>
                let key = \<lparr>Modulus = selfSignedPubKey, Exponent = ''AQAB''\<rparr>
                in if \<not> verify key toCheck (UnprepareBase64 signatureB64) then ([], False)
                   else (SpotterID (Modulus key), True)))"

definition VerifyFullSpot :: "string \<Rightarrow> PublicKey \<Rightarrow> string \<Rightarrow> string \<Rightarrow> bool" where
  "VerifyFullSpot messageID userKey userSignatureB64 xmlSignatureB64 =
     (if userSignatureB64 = [] \<or> Modulus userKey = [] then False
      else let sig = UnprepareBase64 userSignatureB64
           in if verify userKey (bracketed messageID) sig then True
              else if xmlSignatureB64 \<noteq> [] then verify userKey xmlSignatureB64 sig
              else False)"

section \<open>Lemmas on signatures\<close>

lemma length_pkcs1_em:
  "length digest = 20 \<Longrightarrow> 46 \<le> k \<Longrightarrow> length (pkcs1_em k digest) = k"
  by (simp add: pkcs1_em_def sha1DigestInfo_def)

lemma pkcs1_em_inj: "length d = length d' \<Longrightarrow> pkcs1_em k d = pkcs1_em k d' \<Longrightarrow> d = d'"
  by (simp add: pkcs1_em_def Let_def)

lemma byte_len_bound:
  assumes "0 < N"
  shows "N < 256 ^ ((bit_len N + 7) div 8)"
proof -
  have "bit_len N \<le> 8 * ((bit_len N + 7) div 8)" by linarith
  then have "(2::nat) ^ bit_len N \<le> 2 ^ (8 * ((bit_len N + 7) div 8))" by (rule power_increasing) simp
  then show ?thesis using bit_len_bounds[OF assms] by (simp add: power_mult)
qed

text \<open>The specification: RSA verification as an equation between numbers.\<close>

definition rsa_accepts :: "nat \<Rightarrow> nat \<Rightarrow> string \<Rightarrow> string \<Rightarrow> bool" where
  "rsa_accepts N E dat sig \<longleftrightarrow>
     (let k = (bit_len N + 7) div 8
      in length sig = k \<and> 46 \<le> k \<and> 2 \<le> E \<and> os2ip sig < N
         \<and> os2ip sig ^ E mod N = os2ip (pkcs1_em k (sha1 dat)))"

lemma verifyPKCS1v15SHA1_accepts:
  "verifyPKCS1v15SHA1 (N, E) (sha1 dat) sig \<longleftrightarrow> rsa_accepts N E dat sig"
proof -
  define k where "k = (bit_len N + 7) div 8"
  have eq: "i2osp k (os2ip sig ^ E mod N) = pkcs1_em k (sha1 dat)
      \<longleftrightarrow> os2ip sig ^ E mod N = os2ip (pkcs1_em k (sha1 dat))" if "46 \<le> k" "os2ip sig < N"
  proof (rule i2osp_eq_iff)
    have "os2ip sig ^ E mod N < N" using that by (intro mod_less_divisor) linarith
    also have "N < 256 ^ k" unfolding k_def using that by (intro byte_len_bound) linarith
    finally show "os2ip sig ^ E mod N < 256 ^ k" .
    show "length (pkcs1_em k (sha1 dat)) = k" using that by (simp add: length_pkcs1_em)
  qed
  have t: "length sha1DigestInfo + length (sha1 dat) = 35" by (simp add: sha1DigestInfo_def)
  show ?thesis
    unfolding verifyPKCS1v15SHA1_def rsa_accepts_def prod.case Let_def t k_def[symmetric]
    using eq by auto
qed

lemma rsa_accepts_digest: "rsa_accepts N E d1 sig \<Longrightarrow> rsa_accepts N E d2 sig \<Longrightarrow> sha1 d1 = sha1 d2"
proof -
  assume a: "rsa_accepts N E d1 sig" "rsa_accepts N E d2 sig"
  define k where "k = (bit_len N + 7) div 8"
  have k: "46 \<le> k" and e: "os2ip (pkcs1_em k (sha1 d1)) = os2ip (pkcs1_em k (sha1 d2))"
    using a by (auto simp: rsa_accepts_def Let_def k_def)
  have "pkcs1_em k (sha1 d1) = pkcs1_em k (sha1 d2)"
    using e k i2osp_os2ip[of "pkcs1_em k (sha1 d1)"] i2osp_os2ip[of "pkcs1_em k (sha1 d2)"]
    by (simp add: length_pkcs1_em)
  then show ?thesis by (rule pkcs1_em_inj[rotated]) simp
qed

lemma verify_iff:
  "verify key dat s64 \<longleftrightarrow>
     (\<exists>N E sig. rsaPub key = Some (N, E) \<and> b64_decode s64 = Some sig \<and> rsa_accepts N E dat sig)"
proof -
  have ne: "\<not> rsa_accepts N E dat []" for N E
    by (auto simp: rsa_accepts_def Let_def)
  show ?thesis
    by (auto simp: verify_def verifyPKCS1v15SHA1_accepts ne split: option.splits)
qed

section \<open>Lemmas on the header-safe base64 variant\<close>

text \<open>What a Spotnet client does to a base64 text before it puts it in a header.\<close>

definition header_escape :: "char \<Rightarrow> string" where
  "header_escape c = (if c = CHR ''/'' then ''-s'' else if c = CHR ''+'' then ''-p'' else [c])"

definition prepare_base64 :: "string \<Rightarrow> string" where
  "prepare_base64 s = concat (map header_escape (filter (\<lambda>c. c \<noteq> CHR ''='') s))"

definition plus_escape :: "char \<Rightarrow> string" where
  "plus_escape c = (if c = CHR ''+'' then ''-p'' else [c])"

lemma escape_cases:
  "header_escape (CHR ''/'') = ''-s''" "header_escape (CHR ''+'') = ''-p''"
  "c \<noteq> CHR ''/'' \<Longrightarrow> c \<noteq> CHR ''+'' \<Longrightarrow> header_escape c = [c]"
  "plus_escape (CHR ''+'') = ''-p''" "c \<noteq> CHR ''+'' \<Longrightarrow> plus_escape c = [c]"
  by (simp_all add: header_escape_def plus_escape_def)

lemma unescape_slash:
  "CHR ''-'' \<notin> set t \<Longrightarrow> replace_all (concat (map header_escape t)) ''-s'' ''/'' = concat (map plus_escape t)"
proof (induction t)
  case (Cons c t)
  let ?r = "concat (map header_escape t)"
  have nd: "c \<noteq> CHR ''-''" using Cons.prems by auto
  consider "c = CHR ''/''" | "c = CHR ''+''" | "c \<noteq> CHR ''/''" "c \<noteq> CHR ''+''" by blast
  then show ?case
  proof cases
    case 1
    then show ?thesis
      using Cons replace_all_hit[of "''-s''" ?r "''/''"] by (simp add: escape_cases)
  next
    case 2
    then show ?thesis
      using Cons nd by (simp add: escape_cases replace_all_miss)
  next
    case 3
    then show ?thesis
      using Cons nd by (simp add: escape_cases replace_all_miss)
  qed
qed simp

lemma unescape_plus:
  "CHR ''-'' \<notin> set t \<Longrightarrow> replace_all (concat (map plus_escape t)) ''-p'' ''+'' = t"
proof (induction t)
  case (Cons c t)
  let ?r = "concat (map plus_escape t)"
  have nd: "c \<noteq> CHR ''-''" using Cons.prems by auto
  show ?case
  proof (cases "c = CHR ''+''")
    case True
    then show ?thesis
      using Cons replace_all_hit[of "''-p''" ?r "''+''"] by (simp add: escape_cases)
  next
    case False
    then show ?thesis using Cons nd by (simp add: escape_cases replace_all_miss)
  qed
qed simp

lemma b64_char_not: "b64_char n \<noteq> CHR ''='' \<and> b64_char n \<noteq> CHR ''-''"
proof -
  have "b64_val (b64_char (min n 63)) = Some (min n 63)" by (rule b64_val_char) simp
  moreover have "b64_char (min n 63) = b64_char n" by (auto simp: b64_char_def min_def)
  ultimately have "b64_val (b64_char n) = Some (min n 63)" by simp
  then show ?thesis by (auto simp: b64_val_def)
qed

lemma b64_encode_padding:
  "b64_encode s = filter (\<lambda>c. c \<noteq> CHR ''='') (b64_encode s)
     @ replicate ((4 - length (filter (\<lambda>c. c \<noteq> CHR ''='') (b64_encode s)) mod 4) mod 4) (CHR ''='')
   \<and> CHR ''-'' \<notin> set (b64_encode s)"
  by (induction s rule: b64_encode.induct)
    (simp_all add: Let_def b64_char_not b64_char_not[THEN conjunct2, symmetric] replicate_numeral)

lemma UnprepareBase64_prepare: "UnprepareBase64 (prepare_base64 (b64_encode raw)) = b64_encode raw"
proof -
  let ?t = "filter (\<lambda>c. c \<noteq> CHR ''='') (b64_encode raw)"
  have dash: "CHR ''-'' \<notin> set ?t" using b64_encode_padding[of raw] by auto
  have "replace_all (replace_all (prepare_base64 (b64_encode raw)) ''-s'' ''/'') ''-p'' ''+'' = ?t"
    unfolding prepare_base64_def by (simp only: unescape_slash[OF dash] unescape_plus[OF dash])
  then have "UnprepareBase64 (prepare_base64 (b64_encode raw))
      = ?t @ replicate ((4 - length ?t mod 4) mod 4) (CHR ''='')"
    by (simp add: UnprepareBase64_def Let_def)
  also have "\<dots> = b64_encode raw" using b64_encode_padding[of raw] by simp
  finally show ?thesis .
qed

interpretation header_base64: codec "\<lambda>raw. prepare_base64 (b64_encode raw)" "\<lambda>h. b64_decode (UnprepareBase64 h)"
    Some "\<lambda>_. True"
  by unfold_locales (simp add: UnprepareBase64_prepare b64_decode_encode)

text \<open>Spotter ids.\<close>

definition is_alnum :: "char \<Rightarrow> bool" where
  "is_alnum c \<longleftrightarrow> (let n = (of_char c :: nat)
     in 48 \<le> n \<and> n \<le> 57 \<or> 65 \<le> n \<and> n \<le> 90 \<or> 97 \<le> n \<and> n \<le> 122)"

lemma b64_char_alnum: "is_alnum (b64_char n) \<or> b64_char n = CHR ''/'' \<or> b64_char n = CHR ''+''"
proof (cases "n < 62")
  case True
  then have v: "b64_val (b64_char n) = Some n" by (intro b64_val_char) simp
  show ?thesis
  proof (rule ccontr)
    assume "\<not> ?thesis"
    then have "b64_val (b64_char n) = None" by (auto simp: b64_val_def is_alnum_def Let_def)
    with v show False by simp
  qed
next
  case False
  then show ?thesis by (auto simp: b64_char_def)
qed

lemma b64_char_16: "n < 4 \<Longrightarrow> is_alnum (b64_char (16 * n))"
proof -
  assume "n < 4"
  then consider "n = 0" | "n = 1" | "n = 2" | "n = 3" by linarith
  then show ?thesis by cases (simp_all add: b64_char_def is_alnum_def)
qed

lemma alnum_not_stripped: "is_alnum c \<Longrightarrow> c \<noteq> CHR ''/'' \<and> c \<noteq> CHR ''+'' \<and> c \<noteq> CHR ''=''"
  by (auto simp: is_alnum_def)

lemma list4: "length xs = 4 \<Longrightarrow> \<exists>a b c d. xs = [a, b, c, d]"
  by (auto simp: numeral_eq_Suc length_Suc_conv)

text \<open>The stripped base64 of four bytes: five or fewer characters may be stripped, the sixth never is.\<close>

lemma stripped_b64_4:
  assumes "length xs = 4"
  defines "t \<equiv> filter (\<lambda>c. c \<noteq> CHR ''/'' \<and> c \<noteq> CHR ''+'' \<and> c \<noteq> CHR ''='') (b64_encode xs)"
  shows "t \<noteq> [] \<and> length t \<le> 6 \<and> list_all is_alnum t"
proof -
  obtain a b c d where xs: "xs = [a, b, c, d]" using list4[OF assms(1)] by blast
  define v where "v = ((of_char a * 256 + of_char b) * 256 + of_char c :: nat)"
  define w where "w = (of_char d * 16 :: nat)"
  define last where "last = b64_char (w mod 64)"
  define p where "p = [b64_char (v div 262144), b64_char (v div 4096 mod 64), b64_char (v div 64 mod 64),
      b64_char (v mod 64), b64_char (w div 64)]"
  have e: "b64_encode xs = p @ [last, CHR ''='', CHR ''='']"
    unfolding xs last_def p_def by (simp only: b64_encode.simps Let_def v_def w_def append_Cons append_Nil)
  have "w mod 64 = 16 * (of_char d mod 4)"
    using mod_mult_mult1[of 16 "of_char d" "4 :: nat"] by (simp add: w_def mult.commute)
  then have l: "is_alnum last" using b64_char_16[of "of_char d mod 4"] by (simp add: last_def)
  have t: "t = filter (\<lambda>c. c \<noteq> CHR ''/'' \<and> c \<noteq> CHR ''+'' \<and> c \<noteq> CHR ''='') p @ [last]"
    using alnum_not_stripped[OF l] by (simp add: t_def e)
  have "length p = 5" by (simp add: p_def)
  then have "length t \<le> 6"
    using length_filter_le[of "\<lambda>c. c \<noteq> CHR ''/'' \<and> c \<noteq> CHR ''+'' \<and> c \<noteq> CHR ''=''" p] by (simp add: t)
  moreover have "list_all is_alnum t"
  proof -
    have "list_all (\<lambda>c. is_alnum c \<or> c = CHR ''/'' \<or> c = CHR ''+'') p"
      unfolding p_def by (simp only: list.pred_inject b64_char_alnum simp_thms)
    with l show ?thesis unfolding t list_all_iff by auto
  qed
  ultimately show ?thesis by (simp add: t)
qed

section \<open>Properties\<close>


text \<open>The header-safe base64 of keys and signatures is undone exactly: for any bytes, stripping the
  padding and writing slash and plus as \<open>-s\<close> and \<open>-p\<close>, then \<open>UnprepareBase64\<close>, gives back the base64
  text, and decoding it gives back the bytes.\<close>

theorem UnprepareBase64_roundtrip:
  "UnprepareBase64 (prepare_base64 (b64_encode raw)) = b64_encode raw
   \<and> b64_decode (UnprepareBase64 (prepare_base64 (b64_encode raw))) = Some raw"
  by (simp add: UnprepareBase64_prepare base64.dec_enc)

text \<open>A spotter id is at most six letters and digits, and it is empty only for a modulus that does
  not decode or has no bytes: the empty id, which the ownership checks read as "owner unknown", is
  never the id of a key.\<close>

theorem SpotterID_form:
  "length (SpotterID m) \<le> 6 \<and> list_all is_alnum (SpotterID m)
   \<and> (SpotterID m = [] \<longleftrightarrow> b64_decode m = None \<or> b64_decode m = Some [])"
proof -
  have "length (le_bytes (crc32 raw)) = 4" for raw by (simp add: le_bytes_def)
  from stripped_b64_4[OF this] show ?thesis
    by (simp add: SpotterID_def split: option.split)
qed

end
