(* ===== verification/Moderation.thy ===== *)
theory Moderation
  imports Signing
begin

text \<open>
  \<open>internal/spotnet/moderation.go\<close>: withdrawal requests. An article whose title reads
  "<command> <message-id> ..." asks for a spot to be withdrawn; \<open>ParseDispose\<close> recognises it and
  checks its signature, \<open>ValidateDispose\<close> decides whether it may be applied to a spot.
\<close>

definition disposeMaxAge :: duration where "disposeMaxAge = 5 * 24 * hour"

record ModerationCommand =
  Action :: string
  TargetID :: string
  Spotter :: string
  mc_Verified :: bool
  Stamp :: gotime
  Moderator :: bool

definition empty_command :: ModerationCommand where
  "empty_command = \<lparr>Action = [], TargetID = [], Spotter = [], mc_Verified = False, Stamp = zero_time,
     Moderator = False\<rparr>"

definition validModerationCommands :: "string set" where
  "validModerationCommands = {''delete'', ''dispose'', ''remove''}"

definition LooksLikeModerationCommand :: "string \<Rightarrow> ModerationCommand \<times> bool" where
  "LooksLikeModerationCommand title =
     (let fields = go_fields title
      in if length fields < 2 then (empty_command, False)
         else let action = to_lower (fields ! 0)
              in if action \<notin> validModerationCommands then (empty_command, False)
                 else let target = trim_space (fields ! 1)
                      in if target = [] \<or> \<not> go_contains target ''@'' then (empty_command, False)
                         else let target' = (if \<not> has_prefix target ''<'' then ''<'' @ target @ ''>'' else target)
                              in (empty_command\<lparr>Action := action, TargetID := target'\<rparr>, True))"

definition ParseDispose ::
  "string \<Rightarrow> string \<Rightarrow> string \<Rightarrow> string \<Rightarrow> string \<Rightarrow> string \<Rightarrow> int \<Rightarrow> gotime \<Rightarrow> ModerationCommand \<times> bool" where
  "ParseDispose title header poster signatureB64 selfSignedPubKey messageID keyID stamp =
     (case LooksLikeModerationCommand title of
        (cmd0, ok) \<Rightarrow>
          if \<not> ok then (empty_command, False)
          else let cmd = cmd0\<lparr>Stamp := stamp\<rparr>
               in if keyID \<noteq> 2 then (cmd, True)
                  else if length selfSignedPubKey \<le> minSelfSignedKeyLen
                  then if VerifyHeader title header poster signatureB64 2
                       then (cmd\<lparr>mc_Verified := True, Moderator := True\<rparr>, True)
                       else (cmd, True)
                  else (case VerifySelfSigned title header poster signatureB64 selfSignedPubKey messageID of
                          (spotter, verified) \<Rightarrow>
                            if verified then (cmd\<lparr>Spotter := spotter, mc_Verified := True\<rparr>, True)
                            else (cmd, True)))"

definition WithinDisposeWindow :: "ModerationCommand \<Rightarrow> gotime \<Rightarrow> bool" where
  "WithinDisposeWindow cmd spotStamp =
     (if Stamp cmd < spotStamp then False else time_sub (Stamp cmd) spotStamp \<le> disposeMaxAge)"

definition ValidateDispose :: "ModerationCommand \<Rightarrow> string \<Rightarrow> gotime \<Rightarrow> bool" where
  "ValidateDispose cmd spotSpotterID spotStamp =
     (if mc_Verified cmd \<and> Moderator cmd then True
      else if \<not> mc_Verified cmd \<or> Spotter cmd = [] then False
      else if spotSpotterID = [] \<or> spotSpotterID \<noteq> Spotter cmd then False
      else WithinDisposeWindow cmd spotStamp)"

section \<open>Lemmas\<close>

lemma WithinDisposeWindow_iff:
  "WithinDisposeWindow cmd t \<longleftrightarrow> t \<le> Stamp cmd \<and> Stamp cmd - t \<le> disposeMaxAge"
  by (auto simp: WithinDisposeWindow_def time_sub_def disposeMaxAge_def hour_def minute_def second_def
      max_int64_def min_int64_def)

lemma looks_like_fresh:
  "LooksLikeModerationCommand title = (cmd, ok) \<Longrightarrow>
     \<not> mc_Verified cmd \<and> \<not> Moderator cmd \<and> Spotter cmd = []"
  by (auto simp: LooksLikeModerationCommand_def Let_def empty_command_def split: if_splits)

lemma looks_like_target:
  "LooksLikeModerationCommand title = (cmd, True) \<Longrightarrow> has_prefix (TargetID cmd) ''<''"
  by (auto simp: LooksLikeModerationCommand_def Let_def split: if_splits)

lemma ParseDispose_recognised:
  "LooksLikeModerationCommand title = (cmd0, True) \<Longrightarrow>
     \<exists>cmd. ParseDispose title header poster sig key msgid keyID stamp = (cmd, True)"
  by (auto simp: ParseDispose_def Let_def split: prod.split)

text \<open>The proof of work: the hex text starts with 0000 if the digest starts with two zero bytes.\<close>

lemma hex_zero:
  assumes "n < 16"
  shows "hex_digit n = CHR ''0'' \<longleftrightarrow> n = 0"
proof -
  have "(of_char (hex_digit n) :: nat) = (if n < 10 then 48 + n else 87 + n)"
    using assms by (simp add: hex_digit_def)
  moreover have "hex_digit n = CHR ''0'' \<longleftrightarrow> (of_char (hex_digit n) :: nat) = of_char (CHR ''0'')"
    by (simp only: of_char_eq_iff)
  ultimately show ?thesis by simp
qed

lemma byte_zero: "(of_char c :: nat) div 16 = 0 \<and> (of_char c :: nat) mod 16 = 0 \<longleftrightarrow> c = CHR 0x00"
proof -
  have "(of_char c :: nat) div 16 = 0 \<and> (of_char c :: nat) mod 16 = 0 \<longleftrightarrow> (of_char c :: nat) = 0"
    using div_mult_mod_eq[of "of_char c :: nat" 16] by auto
  also have "\<dots> \<longleftrightarrow> (of_char c :: nat) = of_char (CHR 0x00)" by simp
  finally show ?thesis by (simp only: of_char_eq_iff)
qed

lemma hex_prefix_zero:
  "has_prefix (hex_encode (a # b # r)) ''0000'' \<longleftrightarrow> a = CHR 0x00 \<and> b = CHR 0x00"
proof -
  have d: "(of_char c :: nat) div 16 < 16" "(of_char c :: nat) mod 16 < 16" for c
    using of_char_lt[of c] by (auto simp: less_mult_imp_div_less)
  have "has_prefix (hex_encode (a # b # r)) ''0000'' \<longleftrightarrow>
      (of_char a :: nat) div 16 = 0 \<and> (of_char a :: nat) mod 16 = 0 \<and>
      (of_char b :: nat) div 16 = 0 \<and> (of_char b :: nat) mod 16 = 0"
    by (simp add: hex_encode_def hex_zero d)
  then show ?thesis by (simp only: byte_zero[symmetric] conj_assoc)
qed

definition proof_of_work :: "string \<Rightarrow> bool" where
  "proof_of_work m \<longleftrightarrow> take 2 (sha1 (bracketed m)) = [CHR 0x00, CHR 0x00]"

lemma HasValidHashcash_iff: "HasValidHashcash m \<longleftrightarrow> proof_of_work m"
proof -
  obtain a b r where "sha1 (bracketed m) = a # b # r"
    using length_sha1[of "bracketed m"] by (cases "sha1 (bracketed m)"; cases "tl (sha1 (bracketed m))") auto
  then show ?thesis
    by (simp add: HasValidHashcash_def hashcashPrefix_def hex_prefix_zero proof_of_work_def)
qed

section \<open>Who may withdraw a spot\<close>

text \<open>
  The specification. A signed text is the title, the header up to its last dot, and the poster.
  The network's moderator signs it with master key 2; a poster signs it with a key of their own,
  carried inline, whose spotter id must be the spot's owner.
\<close>

definition moderator_signed :: "string \<Rightarrow> string \<Rightarrow> string \<Rightarrow> string \<Rightarrow> bool" where
  "moderator_signed title header poster sig \<longleftrightarrow>
     (\<exists>key txt. MasterKeys 2 = Some key \<and> headerSigningString title header poster = Some txt
        \<and> verify key txt (UnprepareBase64 sig))"

definition poster_signed :: "string \<Rightarrow> string \<Rightarrow> string \<Rightarrow> string \<Rightarrow> string \<Rightarrow> bool" where
  "poster_signed title header poster sig key \<longleftrightarrow>
     (\<exists>txt. headerSigningString title header poster = Some txt
        \<and> verify \<lparr>Modulus = key, Exponent = ''AQAB''\<rparr> txt (UnprepareBase64 sig))"

definition may_withdraw ::
  "string \<Rightarrow> string \<Rightarrow> string \<Rightarrow> string \<Rightarrow> string \<Rightarrow> string \<Rightarrow> int \<Rightarrow> gotime \<Rightarrow> string \<Rightarrow> gotime \<Rightarrow> bool" where
  "may_withdraw title header poster sig key msgid keyID stamp owner spotStamp \<longleftrightarrow>
     keyID = 2 \<and>
     (if length key \<le> 50 then moderator_signed title header poster sig
      else poster_signed title header poster sig key \<and> proof_of_work msgid
           \<and> owner \<noteq> [] \<and> owner = SpotterID key
           \<and> spotStamp \<le> stamp \<and> stamp - spotStamp \<le> 5 * 24 * hour)"

lemma VerifyHeader_moderator: "VerifyHeader title header poster sig 2 \<longleftrightarrow> moderator_signed title header poster sig"
  by (auto simp: VerifyHeader_def moderator_signed_def split: option.splits)

lemma VerifySelfSigned_poster:
  "VerifySelfSigned title header poster sig key msgid =
     (if 50 < length key \<and> proof_of_work msgid \<and> poster_signed title header poster sig key
      then (SpotterID key, True) else ([], False))"
  by (auto simp: VerifySelfSigned_def minSelfSignedKeyLen_def HasValidHashcash_iff poster_signed_def
      split: option.splits)

text \<open>C28: a withdrawal request is applied to a spot exactly if it is under key id 2 and either carries no
  key of its own and is signed with the network's moderator key, or carries its poster's key, is
  signed with it, has a message-id with the proof of work, belongs to the known, non-empty owner of
  the spot, and is posted within five days after the spot. Nothing else about the request matters.\<close>

theorem withdrawal_authorised:
  assumes "ParseDispose title header poster sig key msgid keyID stamp = (cmd, True)"
  shows "ValidateDispose cmd owner spotStamp \<longleftrightarrow>
         may_withdraw title header poster sig key msgid keyID stamp owner spotStamp"
proof -
  obtain cmd0 where l: "LooksLikeModerationCommand title = (cmd0, True)"
    using assms by (auto simp: ParseDispose_def split: prod.splits if_splits)
  note fresh = looks_like_fresh[OF l]
  show ?thesis
    using assms fresh
    by (auto simp: ParseDispose_def l VerifyHeader_moderator VerifySelfSigned_poster Let_def
        minSelfSignedKeyLen_def ValidateDispose_def WithinDisposeWindow_iff may_withdraw_def
        disposeMaxAge_def split: if_splits)
qed

end
