(* ===== verification/Withdrawal.thy ===== *)
theory Withdrawal
  imports Moderation
begin

text \<open>
  A real withdrawal (free.pt article 4405394, the one \<open>internal/spotnet/signing_test.go\<close> holds) run
  through the model by the kernel: SHA-1 of the signed text and of the message-id, the RSA
  exponentiation, the CRC of the key. It is the concrete input at which the theorems on signatures and
  withdrawals are applied.
\<close>

section \<open>The article\<close>

definition wd_title :: string where
  "wd_title = ''DISPOSE SmUHfKk5wZAPerwaQ9Lp5@spot.net - Suske en Wiske -- nr. 000 - 386 (CBR)''"

definition wd_header :: string where
  "wd_header = ''12a01.999.10.1777398896.1.NL.BrWYVZuwDKdDEwXg3aWjxAmhVW6KKFFqvfFDMCNBV39mJIU2NTKJDt8SLcXnZ8IK''"

definition wd_sig :: string where
  "wd_sig = ''BrWYVZuwDKdDEwXg3aWjxAmhVW6KKFFqvfFDMCNBV39mJIU2NTKJDt8SLcXnZ8IK''"

definition wd_wire_key :: string where
  "wd_wire_key = ''qSARxcH-pd5OaBQr-szQyRzPtuACCzXr4Z3f38GTWqBV44sup664O0d-s7DPD3pxyB1''"

definition wd_key :: string where
  "wd_key = ''qSARxcH+d5OaBQr/zQyRzPtuACCzXr4Z3f38GTWqBV44sup664O0d/7DPD3pxyB1''"

definition wd_msgid :: string where
  "wd_msgid = ''<SmUHfKk5wZAPerwaQ9Lp5.0.hvq81P9v5wccPTwaQ.GeUK@spot.net>''"

definition wd_text :: string where
  "wd_text = ''DISPOSE SmUHfKk5wZAPerwaQ9Lp5@spot.net - Suske en Wiske -- nr. 000 - 386 (CBR)12a01.999.10.1777398896.1.NLTormentor''"

definition wd_forged :: string where
  "wd_forged = ''DISPOSE SmUHfKk5wZAPerwaQ9Lp5@spot.net - Suske en Wiske -- nr. 000 - 386 (CBR)12a01.999.10.1777398896.1.NLTormentor2''"

definition modulus_number :: nat where
  "modulus_number = 26030761653379395812236563645216387300646050994825230572115767510006574083446923381619722923249596457312183891992693"

definition signature_number :: nat where
  "signature_number = 1032664353184726074046797624735074369545449008644219549404566890547949753307630377594211539057104916496902145950218"

definition encoded_number :: nat where
  "encoded_number = 1202453802380202612679413568598138339193644137975647424214328382136042821313377073759641727661205667550351674358"

section \<open>SHA-1\<close>

lemma wd_text_block1:
  "sha1_compress
     [1145656144, 1330857248, 1399674184, 1716218677, 2002403664, 1702000481, 1362709616, 893416304,
      1869885038, 1702109229, 542340467, 1801789541, 1847613289, 1936418080, 757932142, 1915625520]
     (1732584193, 4023233417, 2562383102, 271733878, 3285377520)
   = (1669375440, 280274665, 3989397310, 1104653691, 767328132)"
proof -
  have e: "rev (sha1_expand 64 (rev
      [1145656144, 1330857248, 1399674184, 1716218677, 2002403664, 1702000481, 1362709616, 893416304,
      1869885038, 1702109229, 542340467, 1801789541, 1847613289, 1936418080, 757932142, 1915625520])) =
      [1145656144, 1330857248, 1399674184, 1716218677, 2002403664, 1702000481, 1362709616, 893416304,
      1869885038, 1702109229, 542340467, 1801789541, 1847613289, 1936418080, 757932142, 1915625520,
      376871596, 3263323308, 3969155766, 4233448762] @
      [360844747, 2677786383, 3731496597, 1865481548, 2375290237, 636650722, 2611919809, 3550349828,
      3875273820, 182481852, 1834966182, 1926167320, 4214017462, 3975517092, 552443720, 2532875022,
      2211248461, 3041766767, 1353951361, 2004940791] @
      [2964827338, 2488626054, 1416650308, 4267875577, 947545187, 841414431, 1900366544, 2743334481,
      2996834902, 1044009977, 2846202912, 3740234140, 2860436653, 2996593486, 2673638926, 3562097947,
      3388409645, 2527311121, 603838008, 3065526959] @
      [3955535390, 25782384, 3556915279, 1146654043, 2801254999, 1156144759, 3371964380, 4168733780,
      874415509, 1601217523, 4120980080, 1701437832, 656105826, 581433203, 3411614948, 3500658642,
      1392494958, 2750461049, 2951102324, 1850734484]"
    by (simp add: sha1_eval)
  have r1: "sha1_rounds 0
      [1145656144, 1330857248, 1399674184, 1716218677, 2002403664, 1702000481, 1362709616, 893416304,
      1869885038, 1702109229, 542340467, 1801789541, 1847613289, 1936418080, 757932142, 1915625520,
      376871596, 3263323308, 3969155766, 4233448762]
      (1732584193, 4023233417, 2562383102, 271733878, 3285377520) =
      (3722711864, 506041352, 3612218398, 3893328574, 591740211)"
    by (simp add: sha1_eval)
  have r2: "sha1_rounds 20
      [360844747, 2677786383, 3731496597, 1865481548, 2375290237, 636650722, 2611919809, 3550349828,
      3875273820, 182481852, 1834966182, 1926167320, 4214017462, 3975517092, 552443720, 2532875022,
      2211248461, 3041766767, 1353951361, 2004940791]
      (3722711864, 506041352, 3612218398, 3893328574, 591740211) =
      (315702297, 1373848256, 51183942, 2388814491, 564037490)"
    by (simp add: sha1_eval)
  have r3: "sha1_rounds 40
      [2964827338, 2488626054, 1416650308, 4267875577, 947545187, 841414431, 1900366544, 2743334481,
      2996834902, 1044009977, 2846202912, 3740234140, 2860436653, 2996593486, 2673638926, 3562097947,
      3388409645, 2527311121, 603838008, 3065526959]
      (315702297, 1373848256, 51183942, 2388814491, 564037490) =
      (799399845, 2273662555, 976243900, 3270959002, 4154898521)"
    by (simp add: sha1_eval)
  have r4: "sha1_rounds 60
      [3955535390, 25782384, 3556915279, 1146654043, 2801254999, 1156144759, 3371964380, 4168733780,
      874415509, 1601217523, 4120980080, 1701437832, 656105826, 581433203, 3411614948, 3500658642,
      1392494958, 2750461049, 2951102324, 1850734484]
      (799399845, 2273662555, 976243900, 3270959002, 4154898521) =
      (4231758543, 552008544, 1427014208, 832919813, 1776917908)"
    by (simp add: sha1_eval)
  have "sha1_rounds 0 (
      [1145656144, 1330857248, 1399674184, 1716218677, 2002403664, 1702000481, 1362709616, 893416304,
      1869885038, 1702109229, 542340467, 1801789541, 1847613289, 1936418080, 757932142, 1915625520,
      376871596, 3263323308, 3969155766, 4233448762] @
      [360844747, 2677786383, 3731496597, 1865481548, 2375290237, 636650722, 2611919809, 3550349828,
      3875273820, 182481852, 1834966182, 1926167320, 4214017462, 3975517092, 552443720, 2532875022,
      2211248461, 3041766767, 1353951361, 2004940791] @
      [2964827338, 2488626054, 1416650308, 4267875577, 947545187, 841414431, 1900366544, 2743334481,
      2996834902, 1044009977, 2846202912, 3740234140, 2860436653, 2996593486, 2673638926, 3562097947,
      3388409645, 2527311121, 603838008, 3065526959] @
      [3955535390, 25782384, 3556915279, 1146654043, 2801254999, 1156144759, 3371964380, 4168733780,
      874415509, 1601217523, 4120980080, 1701437832, 656105826, 581433203, 3411614948, 3500658642,
      1392494958, 2750461049, 2951102324, 1850734484])
      (1732584193, 4023233417, 2562383102, 271733878, 3285377520) =
      (4231758543, 552008544, 1427014208, 832919813, 1776917908)"
    by (rule sha1_eighty [OF r1 r2 r3 r4]) simp_all
  from sha1_compress_step [OF e this] show ?thesis by simp
qed

lemma wd_text_block2:
  "sha1_compress
     [808460333, 540227638, 539509570, 1378431282, 1630548270, 960051502, 825241137, 926365491,
      959985721, 908996910, 1313625199, 1919772014, 1953460864, 0, 0, 920]
     (1669375440, 280274665, 3989397310, 1104653691, 767328132)
   = (3280593129, 915517857, 3415140409, 1631023232, 3340585974)"
proof -
  have e: "rev (sha1_expand 64 (rev
      [808460333, 540227638, 539509570, 1378431282, 1630548270, 960051502, 825241137, 926365491,
      959985721, 908996910, 1313625199, 1919772014, 1953460864, 0, 0, 920])) =
      [808460333, 540227638, 539509570, 1378431282, 1630548270, 960051502, 825241137, 926365491,
      959985721, 908996910, 1313625199, 1919772014, 1953460864, 0, 0, 920, 1379972780, 2288545876,
      514345782, 2524690364] @
      [1477327767, 558664278, 1021789033, 2989390884, 149987672, 3784888059, 759833595, 3654084373,
      2616397785, 403526762, 1859528097, 1131020387, 3089764688, 582637925, 1359783538, 2913179487,
      3141557381, 3032877269, 4005863839, 1463409779] @
      [1387083340, 3897926185, 1629006919, 2107516120, 1281468841, 494133559, 2337104748, 4111489464,
      1307623603, 3624017663, 4236779024, 1377236930, 2211353753, 67655426, 3395553018, 2472896247,
      4103740276, 257637865, 2234055186, 2361545395] @
      [2540881770, 3532008254, 3665709, 1376505268, 784981459, 183531507, 1355512415, 3895091009,
      2823833077, 708886824, 2915523525, 3435898558, 3933731642, 1230800600, 481674035, 3090398188,
      3969111764, 1827784995, 1981130158, 4048000090]"
    by (simp add: sha1_eval)
  have r1: "sha1_rounds 0
      [808460333, 540227638, 539509570, 1378431282, 1630548270, 960051502, 825241137, 926365491,
      959985721, 908996910, 1313625199, 1919772014, 1953460864, 0, 0, 920, 1379972780, 2288545876,
      514345782, 2524690364]
      (1669375440, 280274665, 3989397310, 1104653691, 767328132) =
      (2782965082, 3023630002, 3294386400, 1404907801, 3645189973)"
    by (simp add: sha1_eval)
  have r2: "sha1_rounds 20
      [1477327767, 558664278, 1021789033, 2989390884, 149987672, 3784888059, 759833595, 3654084373,
      2616397785, 403526762, 1859528097, 1131020387, 3089764688, 582637925, 1359783538, 2913179487,
      3141557381, 3032877269, 4005863839, 1463409779]
      (2782965082, 3023630002, 3294386400, 1404907801, 3645189973) =
      (292746636, 404175466, 3239935895, 1361512250, 688389099)"
    by (simp add: sha1_eval)
  have r3: "sha1_rounds 40
      [1387083340, 3897926185, 1629006919, 2107516120, 1281468841, 494133559, 2337104748, 4111489464,
      1307623603, 3624017663, 4236779024, 1377236930, 2211353753, 67655426, 3395553018, 2472896247,
      4103740276, 257637865, 2234055186, 2361545395]
      (292746636, 404175466, 3239935895, 1361512250, 688389099) =
      (3471783231, 1166884021, 1335332182, 2556115567, 2262782317)"
    by (simp add: sha1_eval)
  have r4: "sha1_rounds 60
      [2540881770, 3532008254, 3665709, 1376505268, 784981459, 183531507, 1355512415, 3895091009,
      2823833077, 708886824, 2915523525, 3435898558, 3933731642, 1230800600, 481674035, 3090398188,
      3969111764, 1827784995, 1981130158, 4048000090]
      (3471783231, 1166884021, 1335332182, 2556115567, 2262782317) =
      (1611217689, 635243192, 3720710395, 526369541, 2573257842)"
    by (simp add: sha1_eval)
  have "sha1_rounds 0 (
      [808460333, 540227638, 539509570, 1378431282, 1630548270, 960051502, 825241137, 926365491,
      959985721, 908996910, 1313625199, 1919772014, 1953460864, 0, 0, 920, 1379972780, 2288545876,
      514345782, 2524690364] @
      [1477327767, 558664278, 1021789033, 2989390884, 149987672, 3784888059, 759833595, 3654084373,
      2616397785, 403526762, 1859528097, 1131020387, 3089764688, 582637925, 1359783538, 2913179487,
      3141557381, 3032877269, 4005863839, 1463409779] @
      [1387083340, 3897926185, 1629006919, 2107516120, 1281468841, 494133559, 2337104748, 4111489464,
      1307623603, 3624017663, 4236779024, 1377236930, 2211353753, 67655426, 3395553018, 2472896247,
      4103740276, 257637865, 2234055186, 2361545395] @
      [2540881770, 3532008254, 3665709, 1376505268, 784981459, 183531507, 1355512415, 3895091009,
      2823833077, 708886824, 2915523525, 3435898558, 3933731642, 1230800600, 481674035, 3090398188,
      3969111764, 1827784995, 1981130158, 4048000090])
      (1669375440, 280274665, 3989397310, 1104653691, 767328132) =
      (1611217689, 635243192, 3720710395, 526369541, 2573257842)"
    by (rule sha1_eighty [OF r1 r2 r3 r4]) simp_all
  from sha1_compress_step [OF e this] show ?thesis by simp
qed

lemma wd_text_words:
  "be_words (sha1_pad wd_text) =
     [1145656144, 1330857248, 1399674184, 1716218677, 2002403664, 1702000481, 1362709616, 893416304,
      1869885038, 1702109229, 542340467, 1801789541, 1847613289, 1936418080, 757932142, 1915625520] @
     [808460333, 540227638, 539509570, 1378431282, 1630548270, 960051502, 825241137, 926365491,
      959985721, 908996910, 1313625199, 1919772014, 1953460864, 0, 0, 920]"
  by (simp add: wd_text_def sha1_pad_def i2osp_numeral replicate_numeral os2ip_def)

lemma wd_text_digest: "sha1 wd_text =
     [CHR 0xC3, CHR 0x89, CHR 0xE0, CHR 0xE9, CHR 0x36, CHR 0x91, CHR 0xB1, CHR 0xA1, CHR 0xCB, CHR
      0x8E, CHR 0xE8, CHR 0x39, CHR 0x61, CHR 0x37, CHR 0x70, CHR 0x80, CHR 0xC7, CHR 0x1D, CHR 0x4B,
      CHR 0xF6]"
proof -
  have "sha1_words wd_text = (3280593129, 915517857, 3415140409, 1631023232, 3340585974)"
    by (simp add: sha1_words_def wd_text_words sha1_blocks_step sha1_blocks_last
         wd_text_block1 wd_text_block2 del: append.simps)
  then show ?thesis by (simp add: sha1_def i2osp_numeral char_of_def bit_0)
qed

lemma wd_forged_block2:
  "sha1_compress
     [808460333, 540227638, 539509570, 1378431282, 1630548270, 960051502, 825241137, 926365491,
      959985721, 908996910, 1313625199, 1919772014, 1953460786, 2147483648, 0, 928]
     (1669375440, 280274665, 3989397310, 1104653691, 767328132)
   = (570415064, 2429552115, 1959519062, 3171645254, 3590697180)"
proof -
  have e: "rev (sha1_expand 64 (rev
      [808460333, 540227638, 539509570, 1378431282, 1630548270, 960051502, 825241137, 926365491,
      959985721, 908996910, 1313625199, 1919772014, 1953460786, 2147483648, 0, 928])) =
      [808460333, 540227638, 539509570, 1378431282, 1630548270, 960051502, 825241137, 926365491,
      959985721, 908996910, 1313625199, 1919772014, 1953460786, 2147483648, 0, 928, 1379972781,
      2288545876, 514345798, 2524690366] @
      [1477327603, 558664375, 1021789037, 2989391516, 149987480, 3784888051, 759834383, 3654083728,
      2616396901, 403528753, 1859527329, 1131020827, 3089760900, 582637425, 1359784258, 2913187387,
      3141551381, 3032875697, 4005883615, 1463414467] @
      [1387073348, 3897894811, 1629018583, 2107507644, 1281398933, 494078617, 2337118860, 4111615608,
      1307663415, 3624057019, 4237092848, 1377162754, 2211256265, 67109430, 3395508778, 2473013715,
      4102623524, 257265005, 2233937602, 2363726855] @
      [2540384634, 3532439594, 7864621, 1379531988, 787535251, 175490547, 1354646623, 3893181249,
      2841735893, 715878176, 2906579653, 3470026110, 3958049450, 1241148600, 407665971, 3138575244,
      4010826868, 1688493531, 1900665838, 4077912154]"
    by (simp add: sha1_eval)
  have r1: "sha1_rounds 0
      [808460333, 540227638, 539509570, 1378431282, 1630548270, 960051502, 825241137, 926365491,
      959985721, 908996910, 1313625199, 1919772014, 1953460786, 2147483648, 0, 928, 1379972781,
      2288545876, 514345798, 2524690366]
      (1669375440, 280274665, 3989397310, 1104653691, 767328132) =
      (2043890911, 2749133791, 3715303283, 2995107082, 4181422437)"
    by (simp add: sha1_eval)
  have r2: "sha1_rounds 20
      [1477327603, 558664375, 1021789037, 2989391516, 149987480, 3784888051, 759834383, 3654083728,
      2616396901, 403528753, 1859527329, 1131020827, 3089760900, 582637425, 1359784258, 2913187387,
      3141551381, 3032875697, 4005883615, 1463414467]
      (2043890911, 2749133791, 3715303283, 2995107082, 4181422437) =
      (4095616836, 1172852218, 1821136553, 1568556820, 492822243)"
    by (simp add: sha1_eval)
  have r3: "sha1_rounds 40
      [1387073348, 3897894811, 1629018583, 2107507644, 1281398933, 494078617, 2337118860, 4111615608,
      1307663415, 3624057019, 4237092848, 1377162754, 2211256265, 67109430, 3395508778, 2473013715,
      4102623524, 257265005, 2233937602, 2363726855]
      (4095616836, 1172852218, 1821136553, 1568556820, 492822243) =
      (1997261081, 825306879, 4189757825, 523711111, 3843694650)"
    by (simp add: sha1_eval)
  have r4: "sha1_rounds 60
      [2540384634, 3532439594, 7864621, 1379531988, 787535251, 175490547, 1354646623, 3893181249,
      2841735893, 715878176, 2906579653, 3470026110, 3958049450, 1241148600, 407665971, 3138575244,
      4010826868, 1688493531, 1900665838, 4077912154]
      (1997261081, 825306879, 4189757825, 523711111, 3843694650) =
      (3196006920, 2149277450, 2265089048, 2066991563, 2823369048)"
    by (simp add: sha1_eval)
  have "sha1_rounds 0 (
      [808460333, 540227638, 539509570, 1378431282, 1630548270, 960051502, 825241137, 926365491,
      959985721, 908996910, 1313625199, 1919772014, 1953460786, 2147483648, 0, 928, 1379972781,
      2288545876, 514345798, 2524690366] @
      [1477327603, 558664375, 1021789037, 2989391516, 149987480, 3784888051, 759834383, 3654083728,
      2616396901, 403528753, 1859527329, 1131020827, 3089760900, 582637425, 1359784258, 2913187387,
      3141551381, 3032875697, 4005883615, 1463414467] @
      [1387073348, 3897894811, 1629018583, 2107507644, 1281398933, 494078617, 2337118860, 4111615608,
      1307663415, 3624057019, 4237092848, 1377162754, 2211256265, 67109430, 3395508778, 2473013715,
      4102623524, 257265005, 2233937602, 2363726855] @
      [2540384634, 3532439594, 7864621, 1379531988, 787535251, 175490547, 1354646623, 3893181249,
      2841735893, 715878176, 2906579653, 3470026110, 3958049450, 1241148600, 407665971, 3138575244,
      4010826868, 1688493531, 1900665838, 4077912154])
      (1669375440, 280274665, 3989397310, 1104653691, 767328132) =
      (3196006920, 2149277450, 2265089048, 2066991563, 2823369048)"
    by (rule sha1_eighty [OF r1 r2 r3 r4]) simp_all
  from sha1_compress_step [OF e this] show ?thesis by simp
qed

lemma wd_forged_words:
  "be_words (sha1_pad wd_forged) =
     [1145656144, 1330857248, 1399674184, 1716218677, 2002403664, 1702000481, 1362709616, 893416304,
      1869885038, 1702109229, 542340467, 1801789541, 1847613289, 1936418080, 757932142, 1915625520] @
     [808460333, 540227638, 539509570, 1378431282, 1630548270, 960051502, 825241137, 926365491,
      959985721, 908996910, 1313625199, 1919772014, 1953460786, 2147483648, 0, 928]"
  by (simp add: wd_forged_def sha1_pad_def i2osp_numeral replicate_numeral os2ip_def)

lemma wd_forged_digest: "sha1 wd_forged =
     [CHR 0x21, CHR 0xFF, CHR 0xD7, CHR 0xD8, CHR 0x90, CHR 0xD0, CHR 0x05, CHR 0xF3, CHR 0x74, CHR
      0xCB, CHR 0xE3, CHR 0x56, CHR 0xBD, CHR 0x0B, CHR 0x77, CHR 0x46, CHR 0xD6, CHR 0x05, CHR 0xB0,
      CHR 0xDC]"
proof -
  have "sha1_words wd_forged = (570415064, 2429552115, 1959519062, 3171645254, 3590697180)"
    by (simp add: sha1_words_def wd_forged_words sha1_blocks_step sha1_blocks_last
        wd_text_block1 wd_forged_block2 del: append.simps)
  then show ?thesis by (simp add: sha1_def i2osp_numeral char_of_def bit_0)
qed

lemma wd_msgid_block1:
  "sha1_compress
     [1012100437, 1214663531, 897014337, 1348825719, 1632713036, 1882533424, 778598001, 942755897,
      1983215459, 1666208887, 1632710215, 1700088640, 1936748404, 778986868, 1048576000, 0]
     (1732584193, 4023233417, 2562383102, 271733878, 3285377520)
   = (2586945917, 3121392039, 80111638, 4265488986, 2420314179)"
proof -
  have e: "rev (sha1_expand 64 (rev
      [1012100437, 1214663531, 897014337, 1348825719, 1632713036, 1882533424, 778598001, 942755897,
      1983215459, 1666208887, 1632710215, 1700088640, 1936748404, 778986868, 1048576000, 0])) =
      [1012100437, 1214663531, 897014337, 1348825719, 1632713036, 1882533424, 778598001, 942755897,
      1983215459, 1666208887, 1632710215, 1700088640, 1936748404, 778986868, 1048576000, 0,
      2734574086, 2342968022, 1794022036, 3489053187] @
      [1876948287, 420021202, 1381463587, 1769857762, 1495671265, 3219744645, 593785482, 3151457197,
      999160733, 671492184, 3959205648, 2997716819, 1919005271, 546001024, 703673573, 1049804886,
      1293701122, 3808951066, 3158208777, 1380623468] @
      [3595056205, 823548739, 3332649788, 4128731100, 1492565913, 2115030619, 2808612645, 825595981,
      3885037897, 282040673, 653893421, 2552585139, 1916145639, 3544718337, 2859873188, 1086247178,
      1214891122, 4218502324, 4029383941, 2962652300] @
      [3987937246, 3633159716, 3023135368, 435130353, 2736420964, 2404727261, 2048341117, 2982315700,
      1967924353, 1658375844, 3487049685, 2933427613, 4076990318, 383040608, 2460898935, 1437669092,
      1949686638, 1646858764, 444880827, 2561655230]"
    by (simp add: sha1_eval)
  have r1: "sha1_rounds 0
      [1012100437, 1214663531, 897014337, 1348825719, 1632713036, 1882533424, 778598001, 942755897,
      1983215459, 1666208887, 1632710215, 1700088640, 1936748404, 778986868, 1048576000, 0,
      2734574086, 2342968022, 1794022036, 3489053187]
      (1732584193, 4023233417, 2562383102, 271733878, 3285377520) =
      (3747673110, 2849692636, 3685296772, 4253560027, 173120604)"
    by (simp add: sha1_eval)
  have r2: "sha1_rounds 20
      [1876948287, 420021202, 1381463587, 1769857762, 1495671265, 3219744645, 593785482, 3151457197,
      999160733, 671492184, 3959205648, 2997716819, 1919005271, 546001024, 703673573, 1049804886,
      1293701122, 3808951066, 3158208777, 1380623468]
      (3747673110, 2849692636, 3685296772, 4253560027, 173120604) =
      (3956576447, 2108400118, 1947862368, 1887114083, 822353420)"
    by (simp add: sha1_eval)
  have r3: "sha1_rounds 40
      [3595056205, 823548739, 3332649788, 4128731100, 1492565913, 2115030619, 2808612645, 825595981,
      3885037897, 282040673, 653893421, 2552585139, 1916145639, 3544718337, 2859873188, 1086247178,
      1214891122, 4218502324, 4029383941, 2962652300]
      (3956576447, 2108400118, 1947862368, 1887114083, 822353420) =
      (1206392518, 2138870851, 2320524599, 1082259449, 657261203)"
    by (simp add: sha1_eval)
  have r4: "sha1_rounds 60
      [3987937246, 3633159716, 3023135368, 435130353, 2736420964, 2404727261, 2048341117, 2982315700,
      1967924353, 1658375844, 3487049685, 2933427613, 4076990318, 383040608, 2460898935, 1437669092,
      1949686638, 1646858764, 444880827, 2561655230]
      (1206392518, 2138870851, 2320524599, 1082259449, 657261203) =
      (854361724, 3393125918, 1812695832, 3993755108, 3429903955)"
    by (simp add: sha1_eval)
  have "sha1_rounds 0 (
      [1012100437, 1214663531, 897014337, 1348825719, 1632713036, 1882533424, 778598001, 942755897,
      1983215459, 1666208887, 1632710215, 1700088640, 1936748404, 778986868, 1048576000, 0,
      2734574086, 2342968022, 1794022036, 3489053187] @
      [1876948287, 420021202, 1381463587, 1769857762, 1495671265, 3219744645, 593785482, 3151457197,
      999160733, 671492184, 3959205648, 2997716819, 1919005271, 546001024, 703673573, 1049804886,
      1293701122, 3808951066, 3158208777, 1380623468] @
      [3595056205, 823548739, 3332649788, 4128731100, 1492565913, 2115030619, 2808612645, 825595981,
      3885037897, 282040673, 653893421, 2552585139, 1916145639, 3544718337, 2859873188, 1086247178,
      1214891122, 4218502324, 4029383941, 2962652300] @
      [3987937246, 3633159716, 3023135368, 435130353, 2736420964, 2404727261, 2048341117, 2982315700,
      1967924353, 1658375844, 3487049685, 2933427613, 4076990318, 383040608, 2460898935, 1437669092,
      1949686638, 1646858764, 444880827, 2561655230])
      (1732584193, 4023233417, 2562383102, 271733878, 3285377520) =
      (854361724, 3393125918, 1812695832, 3993755108, 3429903955)"
    by (rule sha1_eighty [OF r1 r2 r3 r4]) simp_all
  from sha1_compress_step [OF e this] show ?thesis by simp
qed

lemma wd_msgid_block2:
  "sha1_compress
     [0, 0, 0, 0, 0, 0, 0, 0, 0, 0, 0, 0, 0, 0, 0, 456]
     (2586945917, 3121392039, 80111638, 4265488986, 2420314179)
   = (59041, 2790798316, 2393045330, 3294542670, 2686196888)"
proof -
  have e: "rev (sha1_expand 64 (rev
      [0, 0, 0, 0, 0, 0, 0, 0, 0, 0, 0, 0, 0, 0, 0, 456])) =
      [0, 0, 0, 0, 0, 0, 0, 0, 0, 0, 0, 0, 0, 0, 0, 456, 0, 0, 912, 0] @
      [0, 1824, 0, 912, 3648, 0, 0, 7296, 0, 3536, 14592, 1200, 0, 29184, 3648, 14144, 58368, 3648, 0,
      116288] @
      [0, 56576, 233472, 19488, 0, 470592, 59968, 221664, 933888, 58368, 14144, 1862208, 0, 893440,
      3735552, 324928, 58368, 7531072, 959488, 3659840] @
      [14942208, 955200, 58368, 29811008, 0, 14483456, 59827200, 4988928, 0, 120471552, 15351808,
      56753280, 239075328, 15000576, 3635456, 476763648, 0, 228759040, 956359680, 83114880]"
    by (simp add: sha1_eval)
  have r1: "sha1_rounds 0
      [0, 0, 0, 0, 0, 0, 0, 0, 0, 0, 0, 0, 0, 0, 0, 456, 0, 0, 912, 0]
      (2586945917, 3121392039, 80111638, 4265488986, 2420314179) =
      (3430573033, 2919497164, 2504613299, 1697354624, 1231866522)"
    by (simp add: sha1_eval)
  have r2: "sha1_rounds 20
      [0, 1824, 0, 912, 3648, 0, 0, 7296, 0, 3536, 14592, 1200, 0, 29184, 3648, 14144, 58368, 3648, 0,
      116288]
      (3430573033, 2919497164, 2504613299, 1697354624, 1231866522) =
      (2040084963, 2505993032, 1891825642, 799106708, 3162022994)"
    by (simp add: sha1_eval)
  have r3: "sha1_rounds 40
      [0, 56576, 233472, 19488, 0, 470592, 59968, 221664, 933888, 58368, 14144, 1862208, 0, 893440,
      3735552, 324928, 58368, 7531072, 959488, 3659840]
      (2040084963, 2505993032, 1891825642, 799106708, 3162022994) =
      (295044433, 3314409848, 811124923, 1768704739, 652930504)"
    by (simp add: sha1_eval)
  have r4: "sha1_rounds 60
      [14942208, 955200, 58368, 29811008, 0, 14483456, 59827200, 4988928, 0, 120471552, 15351808,
      56753280, 239075328, 15000576, 3635456, 476763648, 0, 228759040, 956359680, 83114880]
      (295044433, 3314409848, 811124923, 1768704739, 652930504) =
      (1708080420, 3964373573, 2312933692, 3324020980, 265882709)"
    by (simp add: sha1_eval)
  have "sha1_rounds 0 (
      [0, 0, 0, 0, 0, 0, 0, 0, 0, 0, 0, 0, 0, 0, 0, 456, 0, 0, 912, 0] @
      [0, 1824, 0, 912, 3648, 0, 0, 7296, 0, 3536, 14592, 1200, 0, 29184, 3648, 14144, 58368, 3648, 0,
      116288] @
      [0, 56576, 233472, 19488, 0, 470592, 59968, 221664, 933888, 58368, 14144, 1862208, 0, 893440,
      3735552, 324928, 58368, 7531072, 959488, 3659840] @
      [14942208, 955200, 58368, 29811008, 0, 14483456, 59827200, 4988928, 0, 120471552, 15351808,
      56753280, 239075328, 15000576, 3635456, 476763648, 0, 228759040, 956359680, 83114880])
      (2586945917, 3121392039, 80111638, 4265488986, 2420314179) =
      (1708080420, 3964373573, 2312933692, 3324020980, 265882709)"
    by (rule sha1_eighty [OF r1 r2 r3 r4]) simp_all
  from sha1_compress_step [OF e this] show ?thesis by simp
qed

lemma wd_msgid_words:
  "be_words (sha1_pad wd_msgid) =
     [1012100437, 1214663531, 897014337, 1348825719, 1632713036, 1882533424, 778598001, 942755897,
      1983215459, 1666208887, 1632710215, 1700088640, 1936748404, 778986868, 1048576000, 0] @
     [0, 0, 0, 0, 0, 0, 0, 0, 0, 0, 0, 0, 0, 0, 0, 456]"
  by (simp add: wd_msgid_def sha1_pad_def i2osp_numeral replicate_numeral os2ip_def)

lemma wd_msgid_digest: "sha1 wd_msgid =
     [CHR 0x00, CHR 0x00, CHR 0xE6, CHR 0xA1, CHR 0xA6, CHR 0x58, CHR 0x33, CHR 0xEC, CHR 0x8E, CHR
      0xA2, CHR 0xF9, CHR 0x52, CHR 0xC4, CHR 0x5E, CHR 0xBB, CHR 0x4E, CHR 0xA0, CHR 0x1C, CHR 0x1C,
      CHR 0x98]"
proof -
  have "sha1_words wd_msgid = (59041, 2790798316, 2393045330, 3294542670, 2686196888)"
    by (simp add: sha1_words_def wd_msgid_words sha1_blocks_step sha1_blocks_last
         wd_msgid_block1 wd_msgid_block2 del: append.simps)
  then show ?thesis by (simp add: sha1_def i2osp_numeral char_of_def bit_0)
qed

section \<open>RSA\<close>

lemma square_1:
  "(1032664353184726074046797624735074369545449008644219549404566890547949753307630377594211539057104916496902145950218 :: nat) ^ 2 mod
   26030761653379395812236563645216387300646050994825230572115767510006574083446923381619722923249596457312183891992693 =
   7848815181844938675381602776911147862566250328735625843574538917212825711843636299594492160073784998558363952955591"
  by (rule square_mod [where q = 40966748516172818713245509778669181860174255975643494377447642309044811477623220295757637809325364582729307276681]) simp_all

lemma square_2:
  "(7848815181844938675381602776911147862566250328735625843574538917212825711843636299594492160073784998558363952955591 :: nat) ^ 2 mod
   26030761653379395812236563645216387300646050994825230572115767510006574083446923381619722923249596457312183891992693 =
   15438937920627810521785064835928935791773586160675457848735719721135262430024691543994013563594937011213765685239515"
  by (rule square_mod [where q = 2366580762371276395162072618089101265354395357686788820481211360857494499189483712982667508593747151002809632649662]) simp_all

lemma square_3:
  "(15438937920627810521785064835928935791773586160675457848735719721135262430024691543994013563594937011213765685239515 :: nat) ^ 2 mod
   26030761653379395812236563645216387300646050994825230572115767510006574083446923381619722923249596457312183891992693 =
   23824208894926401964664291007183866771511073739047567540823591205656722986392174323213879718768353297281743722891183"
  by (rule square_mod [where q = 9156889348493367201405223287736492833095237657092289909008933528061771187831118181120449966324031444686445198611394]) simp_all

lemma square_4:
  "(23824208894926401964664291007183866771511073739047567540823591205656722986392174323213879718768353297281743722891183 :: nat) ^ 2 mod
   26030761653379395812236563645216387300646050994825230572115767510006574083446923381619722923249596457312183891992693 =
   4671532735375789707118927459016632202758822371931348156415985520554714978140020043013046048393425106928470885498522"
  by (rule square_mod [where q = 21804699264164772593521490691917009315377623013092020534437249768896452294361203384407082456068351258581313961348619]) simp_all

lemma square_5:
  "(4671532735375789707118927459016632202758822371931348156415985520554714978140020043013046048393425106928470885498522 :: nat) ^ 2 mod
   26030761653379395812236563645216387300646050994825230572115767510006574083446923381619722923249596457312183891992693 =
   15647327904415851419515662460107766603374335609196733439034797177781600982208999441612765394576515981581490631427983"
  by (rule square_mod [where q = 838362641411779392255429109260356732368359572730937745858063834425208825796113373807104715285023080143889239361057]) simp_all

lemma square_6:
  "(15647327904415851419515662460107766603374335609196733439034797177781600982208999441612765394576515981581490631427983 :: nat) ^ 2 mod
   26030761653379395812236563645216387300646050994825230572115767510006574083446923381619722923249596457312183891992693 =
   7362388246297559816358185371893990883475273770329477376664703683288480869622749869356545703271080740911396346605443"
  by (rule square_mod [where q = 9405751311027243940277090077058197909067716454853852392533595007313692693324914632601313918953318841094432331005222]) simp_all

lemma square_7:
  "(7362388246297559816358185371893990883475273770329477376664703683288480869622749869356545703271080740911396346605443 :: nat) ^ 2 mod
   26030761653379395812236563645216387300646050994825230572115767510006574083446923381619722923249596457312183891992693 =
   23853098379310895102755358536827677859066919655616962115775920895451399877290538030700768474321887027962696794505022"
  by (rule square_mod [where q = 2082334793387938567080448730011106629420088654000528801900091651367439280478155384510582503005738153195433736453439]) simp_all

lemma square_8:
  "(23853098379310895102755358536827677859066919655616962115775920895451399877290538030700768474321887027962696794505022 :: nat) ^ 2 mod
   26030761653379395812236563645216387300646050994825230572115767510006574083446923381619722923249596457312183891992693 =
   3681375117760981509385980922058981561990845460734927816271866472149375775456890165661831757274612899713759363653027"
  by (rule square_mod [where q = 21857612538172448223667440783587190181094257147988980002557538709019393544782784507523641597236895399364424187503549]) simp_all

lemma square_9:
  "(3681375117760981509385980922058981561990845460734927816271866472149375775456890165661831757274612899713759363653027 :: nat) ^ 2 mod
   26030761653379395812236563645216387300646050994825230572115767510006574083446923381619722923249596457312183891992693 =
   3962416133449339261803191189649327200180651353818496867180293984417405133768607262445032916037595893065928945641568"
  by (rule square_mod [where q = 520634891062061916475695037050809166494409465194631794076957464810641254608199888502794215342427533663521733376677]) simp_all

lemma square_10:
  "(3962416133449339261803191189649327200180651353818496867180293984417405133768607262445032916037595893065928945641568 :: nat) ^ 2 mod
   26030761653379395812236563645216387300646050994825230572115767510006574083446923381619722923249596457312183891992693 =
   15296648831918990754522890069331968576407899516961691137459715010966357588393694245544069344016647016933032170850832"
  by (rule square_mod [where q = 603161053206497015127109255836454262314957649593957296363205542818728413249256574414856966231308681518658016900144]) simp_all

lemma square_11:
  "(15296648831918990754522890069331968576407899516961691137459715010966357588393694245544069344016647016933032170850832 :: nat) ^ 2 mod
   26030761653379395812236563645216387300646050994825230572115767510006574083446923381619722923249596457312183891992693 =
   23424661197264426719971810241555827068004034723026409369542421097229937787920028972302939124277989079894101727670919"
  by (rule square_mod [where q = 8988882791935964401557784781145141419667485155137738495228671040082427389502240213670229988429938862157673335616885]) simp_all

lemma square_12:
  "(23424661197264426719971810241555827068004034723026409369542421097229937787920028972302939124277989079894101727670919 :: nat) ^ 2 mod
   26030761653379395812236563645216387300646050994825230572115767510006574083446923381619722923249596457312183891992693 =
   23028924803083892957293000051548416351012140567105437244480399922339259681756911199802504004112641916113742949193586"
  by (rule square_mod [where q = 21079473567205045679693093001262641434123659021154560200195430332376145011021945050038775014095966837550101290063075]) simp_all

lemma square_13:
  "(23028924803083892957293000051548416351012140567105437244480399922339259681756911199802504004112641916113742949193586 :: nat) ^ 2 mod
   26030761653379395812236563645216387300646050994825230572115767510006574083446923381619722923249596457312183891992693 =
   5024393680258941716763584648755130255753335682901098215279780762697846751465705880570735787241351362518346527920002"
  by (rule square_mod [where q = 20373256251502853016252771970892035798654585501391822544334134602785463212836626495145203692235452539834848472062458]) simp_all

lemma square_14:
  "(5024393680258941716763584648755130255753335682901098215279780762697846751465705880570735787241351362518346527920002 :: nat) ^ 2 mod
   26030761653379395812236563645216387300646050994825230572115767510006574083446923381619722923249596457312183891992693 =
   6693847633197525405335763579082345312810074440612312857618996855710949597052474160970034156018708425803536989641438"
  by (rule square_mod [where q = 969796127765192290390194329437182773439888971406819722566728435501835830173704492317545167697373683144299183821262]) simp_all

lemma square_15:
  "(6693847633197525405335763579082345312810074440612312857618996855710949597052474160970034156018708425803536989641438 :: nat) ^ 2 mod
   26030761653379395812236563645216387300646050994825230572115767510006574083446923381619722923249596457312183891992693 =
   23152219617817709135248145583269061117673528957409156196618981404213966104745446699581577854443818614314036955887729"
  by (rule square_mod [where q = 1721332503947192369903687756218800928253933788986784116061344998578841881888970547207770365795903380094346490654055]) simp_all

lemma square_16:
  "(23152219617817709135248145583269061117673528957409156196618981404213966104745446699581577854443818614314036955887729 :: nat) ^ 2 mod
   26030761653379395812236563645216387300646050994825230572115767510006574083446923381619722923249596457312183891992693 =
   15030877681908438899045029464651727331798813095789473972542323284032945840069298621956525862913849118906686697898451"
  by (rule square_mod [where q = 20591993441039966391210064517024057153710474488860917475874989648214480301443478836691397773669136292143215087697430]) simp_all

lemma signature_power: "signature_number ^ 65537 mod modulus_number = encoded_number"
proof -
  have p0: "signature_number ^ 1 mod 26030761653379395812236563645216387300646050994825230572115767510006574083446923381619722923249596457312183891992693 = 1032664353184726074046797624735074369545449008644219549404566890547949753307630377594211539057104916496902145950218"
    by (simp add: signature_number_def)
  have p1: "signature_number ^ 16 mod modulus_number = 4671532735375789707118927459016632202758822371931348156415985520554714978140020043013046048393425106928470885498522"
    using power_mod_double[OF power_mod_double[OF power_mod_double[OF power_mod_double[OF p0 square_1] square_2] square_3] square_4] unfolding modulus_number_def by simp
  note p1u = p1[unfolded modulus_number_def]
  have p2: "signature_number ^ 256 mod modulus_number = 3681375117760981509385980922058981561990845460734927816271866472149375775456890165661831757274612899713759363653027"
    using power_mod_double[OF power_mod_double[OF power_mod_double[OF power_mod_double[OF p1u square_5] square_6] square_7] square_8] unfolding modulus_number_def by simp
  note p2u = p2[unfolded modulus_number_def]
  have p3: "signature_number ^ 4096 mod modulus_number = 23028924803083892957293000051548416351012140567105437244480399922339259681756911199802504004112641916113742949193586"
    using power_mod_double[OF power_mod_double[OF power_mod_double[OF power_mod_double[OF p2u square_9] square_10] square_11] square_12] unfolding modulus_number_def by simp
  note p3u = p3[unfolded modulus_number_def]
  have p4: "signature_number ^ 65536 mod modulus_number = 15030877681908438899045029464651727331798813095789473972542323284032945840069298621956525862913849118906686697898451"
    using power_mod_double[OF power_mod_double[OF power_mod_double[OF power_mod_double[OF p3u square_13] square_14] square_15] square_16] unfolding modulus_number_def by simp
  note p4u = p4[unfolded modulus_number_def]
  have "signature_number ^ 65537 mod modulus_number
      = (signature_number ^ 65536 mod modulus_number * signature_number) mod modulus_number"
    by (simp add: mod_mult_left_eq flip: power_Suc2)
  also have "\<dots> = 15030877681908438899045029464651727331798813095789473972542323284032945840069298621956525862913849118906686697898451 * 1032664353184726074046797624735074369545449008644219549404566890547949753307630377594211539057104916496902145950218 mod 26030761653379395812236563645216387300646050994825230572115767510006574083446923381619722923249596457312183891992693"
    unfolding p4 by (simp only: modulus_number_def signature_number_def)
  also have "\<dots> = encoded_number"
    unfolding encoded_number_def by (rule times_mod [where q = 596288798071785080383599892121510707958884592066310924855471018516111369431523408947234363888474458387314756743720]) simp_all
  finally show ?thesis .
qed

section \<open>The article verifies\<close>

lemma wd_signing_string: "headerSigningString wd_title wd_header ''Tormentor'' = Some wd_text"
  unfolding wd_title_def wd_header_def wd_text_def by code_simp

lemma wd_key_unprepared: "UnprepareBase64 wd_wire_key = wd_key"
  unfolding wd_wire_key_def wd_key_def by code_simp

lemma wd_sig_unprepared: "UnprepareBase64 wd_sig = wd_sig"
  unfolding wd_sig_def by code_simp

lemma wd_key_encoded: "b64_encode
     [CHR 0xA9, CHR 0x20, CHR 0x11, CHR 0xC5, CHR 0xC1, CHR 0xFE, CHR 0x77, CHR 0x93, CHR 0x9A, CHR
      0x05, CHR 0x0A, CHR 0xFF, CHR 0xCD, CHR 0x0C, CHR 0x91, CHR 0xCC, CHR 0xFB, CHR 0x6E, CHR 0x00,
      CHR 0x20, CHR 0xB3, CHR 0x5E, CHR 0xBE, CHR 0x19, CHR 0xDD, CHR 0xFD, CHR 0xFC, CHR 0x19, CHR
      0x35, CHR 0xAA, CHR 0x05, CHR 0x5E, CHR 0x38, CHR 0xB2, CHR 0xEA, CHR 0x7A, CHR 0xEB, CHR 0x83,
      CHR 0xB4, CHR 0x77, CHR 0xFE, CHR 0xC3, CHR 0x3C, CHR 0x3D, CHR 0xE9, CHR 0xC7, CHR 0x20, CHR
      0x75] = wd_key"
  by (simp add: wd_key_def b64_char_def Let_def char_of_def bit_0)

lemma wd_key_decodes: "b64_decode wd_key = Some
     [CHR 0xA9, CHR 0x20, CHR 0x11, CHR 0xC5, CHR 0xC1, CHR 0xFE, CHR 0x77, CHR 0x93, CHR 0x9A, CHR
      0x05, CHR 0x0A, CHR 0xFF, CHR 0xCD, CHR 0x0C, CHR 0x91, CHR 0xCC, CHR 0xFB, CHR 0x6E, CHR 0x00,
      CHR 0x20, CHR 0xB3, CHR 0x5E, CHR 0xBE, CHR 0x19, CHR 0xDD, CHR 0xFD, CHR 0xFC, CHR 0x19, CHR
      0x35, CHR 0xAA, CHR 0x05, CHR 0x5E, CHR 0x38, CHR 0xB2, CHR 0xEA, CHR 0x7A, CHR 0xEB, CHR 0x83,
      CHR 0xB4, CHR 0x77, CHR 0xFE, CHR 0xC3, CHR 0x3C, CHR 0x3D, CHR 0xE9, CHR 0xC7, CHR 0x20, CHR
      0x75]"
  unfolding wd_key_encoded [symmetric] by (rule b64_decode_encode)

lemma wd_sig_encoded: "b64_encode
     [CHR 0x06, CHR 0xB5, CHR 0x98, CHR 0x55, CHR 0x9B, CHR 0xB0, CHR 0x0C, CHR 0xA7, CHR 0x43, CHR
      0x13, CHR 0x05, CHR 0xE0, CHR 0xDD, CHR 0xA5, CHR 0xA3, CHR 0xC4, CHR 0x09, CHR 0xA1, CHR 0x55,
      CHR 0x6E, CHR 0x8A, CHR 0x28, CHR 0x51, CHR 0x6A, CHR 0xBD, CHR 0xF1, CHR 0x43, CHR 0x30, CHR
      0x23, CHR 0x41, CHR 0x57, CHR 0x7F, CHR 0x66, CHR 0x24, CHR 0x85, CHR 0x36, CHR 0x35, CHR 0x32,
      CHR 0x89, CHR 0x0E, CHR 0xDF, CHR 0x12, CHR 0x2D, CHR 0xC5, CHR 0xE7, CHR 0x67, CHR 0xC2, CHR
      0x0A] = wd_sig"
  by (simp add: wd_sig_def b64_char_def Let_def char_of_def bit_0)

lemma wd_sig_decodes: "b64_decode wd_sig = Some
     [CHR 0x06, CHR 0xB5, CHR 0x98, CHR 0x55, CHR 0x9B, CHR 0xB0, CHR 0x0C, CHR 0xA7, CHR 0x43, CHR
      0x13, CHR 0x05, CHR 0xE0, CHR 0xDD, CHR 0xA5, CHR 0xA3, CHR 0xC4, CHR 0x09, CHR 0xA1, CHR 0x55,
      CHR 0x6E, CHR 0x8A, CHR 0x28, CHR 0x51, CHR 0x6A, CHR 0xBD, CHR 0xF1, CHR 0x43, CHR 0x30, CHR
      0x23, CHR 0x41, CHR 0x57, CHR 0x7F, CHR 0x66, CHR 0x24, CHR 0x85, CHR 0x36, CHR 0x35, CHR 0x32,
      CHR 0x89, CHR 0x0E, CHR 0xDF, CHR 0x12, CHR 0x2D, CHR 0xC5, CHR 0xE7, CHR 0x67, CHR 0xC2, CHR
      0x0A]"
  unfolding wd_sig_encoded [symmetric] by (rule b64_decode_encode)

lemma wd_exponent: "b64_decode ''AQAB'' = Some [CHR 0x01, CHR 0x00, CHR 0x01]"
proof -
  have "b64_encode [CHR 0x01, CHR 0x00, CHR 0x01] = ''AQAB''"
    by (simp add: b64_char_def Let_def char_of_def bit_0)
  with b64_decode_encode show ?thesis by metis
qed

lemma wd_spotter: "SpotterID wd_key = ''1isD2g''"
proof -
  have "crc32
     [CHR 0xA9, CHR 0x20, CHR 0x11, CHR 0xC5, CHR 0xC1, CHR 0xFE, CHR 0x77, CHR 0x93, CHR 0x9A, CHR
      0x05, CHR 0x0A, CHR 0xFF, CHR 0xCD, CHR 0x0C, CHR 0x91, CHR 0xCC, CHR 0xFB, CHR 0x6E, CHR 0x00,
      CHR 0x20, CHR 0xB3, CHR 0x5E, CHR 0xBE, CHR 0x19, CHR 0xDD, CHR 0xFD, CHR 0xFC, CHR 0x19, CHR
      0x35, CHR 0xAA, CHR 0x05, CHR 0x5E, CHR 0x38, CHR 0xB2, CHR 0xEA, CHR 0x7A, CHR 0xEB, CHR 0x83,
      CHR 0xB4, CHR 0x77, CHR 0xFE, CHR 0xC3, CHR 0x3C, CHR 0x3D, CHR 0xE9, CHR 0xC7, CHR 0x20, CHR
      0x75] = 0xDA032BD6"
    by (simp add: crc32_def crc_byte_def crc_step_def)
  moreover have "b64_encode (le_bytes 0xDA032BD6) = ''1isD2g==''"
    by (simp add: le_bytes_def i2osp_numeral b64_char_def Let_def char_of_def bit_0)
  ultimately show ?thesis
    by (simp only: SpotterID_def wd_key_decodes option.case list.simps if_False) simp
qed

lemma wd_bit_len: "bit_len modulus_number = 384"
proof -
  have "bit_len modulus_number = Suc 383"
    by (rule bit_len_eq) (simp_all add: modulus_number_def)
  then show ?thesis by simp
qed

lemma wd_rsaPub: "rsaPub \<lparr>Modulus = wd_key, Exponent = ''AQAB''\<rparr> = Some (modulus_number, 65537)"
  by (simp add: rsaPub_def wd_key_decodes wd_exponent os2ip_def modulus_number_def)

lemma wd_accepts: "rsa_accepts modulus_number 65537 wd_text
     [CHR 0x06, CHR 0xB5, CHR 0x98, CHR 0x55, CHR 0x9B, CHR 0xB0, CHR 0x0C, CHR 0xA7, CHR 0x43, CHR
      0x13, CHR 0x05, CHR 0xE0, CHR 0xDD, CHR 0xA5, CHR 0xA3, CHR 0xC4, CHR 0x09, CHR 0xA1, CHR 0x55,
      CHR 0x6E, CHR 0x8A, CHR 0x28, CHR 0x51, CHR 0x6A, CHR 0xBD, CHR 0xF1, CHR 0x43, CHR 0x30, CHR
      0x23, CHR 0x41, CHR 0x57, CHR 0x7F, CHR 0x66, CHR 0x24, CHR 0x85, CHR 0x36, CHR 0x35, CHR 0x32,
      CHR 0x89, CHR 0x0E, CHR 0xDF, CHR 0x12, CHR 0x2D, CHR 0xC5, CHR 0xE7, CHR 0x67, CHR 0xC2, CHR
      0x0A]"
proof -
  have s: "os2ip [CHR 0x06, CHR 0xB5, CHR 0x98, CHR 0x55, CHR 0x9B, CHR 0xB0, CHR 0x0C, CHR 0xA7, CHR 0x43, CHR
      0x13, CHR 0x05, CHR 0xE0, CHR 0xDD, CHR 0xA5, CHR 0xA3, CHR 0xC4, CHR 0x09, CHR 0xA1, CHR 0x55,
      CHR 0x6E, CHR 0x8A, CHR 0x28, CHR 0x51, CHR 0x6A, CHR 0xBD, CHR 0xF1, CHR 0x43, CHR 0x30, CHR
      0x23, CHR 0x41, CHR 0x57, CHR 0x7F, CHR 0x66, CHR 0x24, CHR 0x85, CHR 0x36, CHR 0x35, CHR 0x32,
      CHR 0x89, CHR 0x0E, CHR 0xDF, CHR 0x12, CHR 0x2D, CHR 0xC5, CHR 0xE7, CHR 0x67, CHR 0xC2, CHR
      0x0A] = signature_number"
    by (simp add: os2ip_def signature_number_def)
  have "os2ip (pkcs1_em 48 (sha1 wd_text)) = encoded_number"
    unfolding wd_text_digest
    by (simp add: pkcs1_em_def sha1DigestInfo_def os2ip_def encoded_number_def replicate_numeral)
  moreover have "signature_number < modulus_number"
    by (simp add: signature_number_def modulus_number_def)
  ultimately show ?thesis
    unfolding rsa_accepts_def wd_bit_len s by (simp add: Let_def signature_power)
qed

lemma wd_verifies: "verify \<lparr>Modulus = wd_key, Exponent = ''AQAB''\<rparr> wd_text wd_sig"
  unfolding verify_iff using wd_rsaPub wd_sig_decodes wd_accepts by blast

lemma wd_poster_signed: "poster_signed wd_title wd_header ''Tormentor'' wd_sig wd_key"
  using wd_verifies by (simp add: poster_signed_def wd_signing_string wd_sig_unprepared)

lemma wd_proof_of_work: "proof_of_work wd_msgid"
proof -
  have "bracketed wd_msgid = wd_msgid" by (simp add: bracketed_def wd_msgid_def)
  then show ?thesis by (simp add: proof_of_work_def wd_msgid_digest)
qed

lemma wd_key_length: "length wd_key = 64" by (simp add: wd_key_def)

lemma wd_command:
  "LooksLikeModerationCommand wd_title =
     (empty_command\<lparr>Action := ''dispose'', TargetID := ''<SmUHfKk5wZAPerwaQ9Lp5@spot.net>''\<rparr>, True)"
  unfolding wd_title_def by code_simp

section \<open>Witnesses\<close>


text \<open>The withdrawal, posted at 1777398896, is recognised and applies to a spot of its owner posted
  shortly before; not to a spot of another owner, nor to one more than five days older.\<close>

lemma withdrawal_authorised_witness:
  "\<exists>cmd. ParseDispose wd_title wd_header ''Tormentor'' wd_sig (UnprepareBase64 wd_wire_key) wd_msgid 2
      (unix_time 1777398896) = (cmd, True)
    \<and> ValidateDispose cmd ''1isD2g'' (unix_time 1777300000)
    \<and> \<not> ValidateDispose cmd ''2isD2g'' (unix_time 1777300000)
    \<and> \<not> ValidateDispose cmd ''1isD2g'' (unix_time 1776966895)"
proof -
  obtain cmd where p: "ParseDispose wd_title wd_header ''Tormentor'' wd_sig wd_key wd_msgid 2
      (unix_time 1777398896) = (cmd, True)"
    using ParseDispose_recognised[OF wd_command] by blast
  note v = withdrawal_authorised[OF p]
  have "may_withdraw wd_title wd_header ''Tormentor'' wd_sig wd_key wd_msgid 2 (unix_time 1777398896) owner t
      \<longleftrightarrow> owner = ''1isD2g'' \<and> t \<le> unix_time 1777398896 \<and> unix_time 1777398896 - t \<le> 5 * 24 * hour" for owner t
    by (auto simp: may_withdraw_def wd_key_length wd_poster_signed wd_proof_of_work wd_spotter)
  then show ?thesis
    using p v by (intro exI[of _ cmd])
      (simp add: wd_key_unprepared unix_time_def hour_def minute_def second_def)
qed

end
