(* ===== verification/Msgid.thy ===== *)
theory Msgid
  imports Prelude
begin

text \<open>
  \<open>internal/nntp/msgid.go\<close>: the check every message-id passes before it is written into an NNTP
  command. Message-ids come from article XML that any poster can write, so this is what keeps a
  poster from ending a command early and adding one of his own.
\<close>

definition maxMessageIDLen :: nat where "maxMessageIDLen = 250"

datatype msgid_error =
    EmptyMessageID
  | MessageIDTooLong nat
  | IllegalByte nat nat
  | IllegalBracket char

text \<open>The loop over the bytes of the id, with its index; the first illegal byte ends it.\<close>

fun check_bytes :: "nat \<Rightarrow> string \<Rightarrow> msgid_error option" where
  "check_bytes i [] = None"
| "check_bytes i (c # cs) =
     (if (of_char c :: nat) \<le> 0x20 \<or> 0x7f \<le> (of_char c :: nat) then Some (IllegalByte (of_char c) i)
      else if c = CHR ''<'' \<or> c = CHR ''>'' then Some (IllegalBracket c)
      else check_bytes (Suc i) cs)"

definition NormalizeMessageID :: "string \<Rightarrow> msgid_error + string" where
  "NormalizeMessageID raw =
     (let id = trim_suffix (trim_prefix (trim_space raw) ''<'') ''>''
      in if id = [] then Inl EmptyMessageID
         else if maxMessageIDLen < length id + 2 then Inl (MessageIDTooLong (length id + 2))
         else case check_bytes 0 id of
                Some e \<Rightarrow> Inl e
              | None \<Rightarrow> Inr (''<'' @ id @ ''>''))"

definition ValidMessageID :: "string \<Rightarrow> bool" where
  "ValidMessageID raw \<longleftrightarrow> (case NormalizeMessageID raw of Inl _ \<Rightarrow> False | Inr _ \<Rightarrow> True)"

section \<open>What an accepted id looks like\<close>

text \<open>The specification: between the brackets, only printable ASCII without brackets.\<close>

definition msgid_char :: "char \<Rightarrow> bool" where
  "msgid_char c \<longleftrightarrow>
     0x20 < (of_char c :: nat) \<and> (of_char c :: nat) < 0x7f \<and> c \<noteq> CHR ''<'' \<and> c \<noteq> CHR ''>''"

definition safe_msgid :: "string \<Rightarrow> bool" where
  "safe_msgid r \<longleftrightarrow>
     (\<exists>core. r = ''<'' @ core @ ''>'' \<and> core \<noteq> [] \<and> length r \<le> maxMessageIDLen \<and> list_all msgid_char core)"

lemma check_bytes_None: "check_bytes i s = None \<longleftrightarrow> list_all msgid_char s"
  by (induction i s rule: check_bytes.induct) (auto simp: msgid_char_def)

lemma NormalizeMessageID_Inr:
  "NormalizeMessageID raw = Inr r \<longleftrightarrow>
     (let core = trim_suffix (trim_prefix (trim_space raw) ''<'') ''>''
      in core \<noteq> [] \<and> length core + 2 \<le> maxMessageIDLen \<and> list_all msgid_char core
         \<and> r = ''<'' @ core @ ''>'')"
  using check_bytes_None[of 0 "trim_suffix (trim_prefix (trim_space raw) ''<'') ''>''"]
  by (auto simp: NormalizeMessageID_def Let_def split: option.splits)

lemma normalized_safe: "NormalizeMessageID raw = Inr r \<Longrightarrow> safe_msgid r"
  by (auto simp: NormalizeMessageID_Inr safe_msgid_def Let_def)

lemma msgid_char_ascii: "msgid_char c \<Longrightarrow> is_ascii c \<and> \<not> ascii_space c"
  by (auto simp: msgid_char_def is_ascii_def ascii_space_def)

lemma msgid_char_not_space: "msgid_char c \<Longrightarrow> c \<noteq> CHR '' '' \<and> c \<noteq> CHR 0x0A \<and> c \<noteq> CHR 0x0D"
  by (auto simp: msgid_char_def)

lemma normalize_safe_id:
  assumes "safe_msgid r"
  shows "NormalizeMessageID r = Inr r"
proof -
  from assms obtain core where r: "r = ''<'' @ core @ ''>''" and c: "core \<noteq> []"
    "length r \<le> maxMessageIDLen" "list_all msgid_char core"
    by (auto simp: safe_msgid_def)
  have "trim_space r = r"
    by (rule trim_space_id) (auto simp: r is_ascii_def ascii_space_def)
  then have "trim_suffix (trim_prefix (trim_space r) ''<'') ''>'' = core"
    by (simp only: r trim_prefix_append trim_suffix_append)
  with c show ?thesis by (auto simp: NormalizeMessageID_Inr Let_def r)
qed

end
