(* ===== verification/Nntp.thy ===== *)
theory Nntp
  imports Msgid
begin

text \<open>
  \<open>internal/nntp/client.go\<close>: the NNTP client. A connection is the bytes the server will still
  send (then a read reports \<open>eof_err\<close>), the bytes written so far, and whether writes fail.
  Deadlines and TLS are the socket's and are not modelled; \<open>time.Parse\<close> is the parameter
  \<open>time_parse\<close> (layout, then value) of the functions that read a date.
\<close>

section \<open>Connection, results, errors\<close>

datatype io_error = EOF | IOError

datatype nntp_error =
    Io io_error
  | BadMessageID msgid_error
  | UnexpectedCode nat string
  | BadGroupResponse string
  | NoSuchArticle
  | ArticleTooLarge

record conn =
  inp :: string
  eof_err :: io_error
  out :: string
  werr :: "io_error option"
  maxArticleBytes :: int

record ArticleInfo =
  ai_ArticleNum :: int
  ai_Subject :: string
  ai_From :: string
  ai_Date :: gotime
  ai_MessageID :: string
  ai_References :: string
  ai_Bytes :: int
  ai_Lines :: int

record GroupInfo =
  gi_Name :: string
  gi_Count :: int
  gi_First :: int
  gi_Last :: int

abbreviation LF :: char where "LF \<equiv> CHR 0x0A"
abbreviation CR :: char where "CR \<equiv> CHR 0x0D"
abbreviation TAB :: char where "TAB \<equiv> CHR 0x09"
abbreviation CRLF :: string where "CRLF \<equiv> [CR, LF]"

definition defaultMaxArticleBytes :: int where "defaultMaxArticleBytes = 32 * 1048576"

definition SetMaxArticleBytes :: "int \<Rightarrow> conn \<Rightarrow> conn" where
  "SetMaxArticleBytes n c = c\<lparr>maxArticleBytes := (if n \<le> 0 then defaultMaxArticleBytes else n)\<rparr>"

definition read_limit :: "conn \<Rightarrow> int" where
  "read_limit c = (if maxArticleBytes c \<le> 0 then defaultMaxArticleBytes else maxArticleBytes c)"

section \<open>Lines\<close>

text \<open>\<open>bufio.Reader.ReadString('\n')\<close>: a line with its newline, or what is left and the error.\<close>

definition read_string :: "conn \<Rightarrow> string \<times> io_error option \<times> conn" where
  "read_string c =
     (let pre = takeWhile (\<lambda>x. x \<noteq> LF) (inp c); rest = dropWhile (\<lambda>x. x \<noteq> LF) (inp c)
      in if rest = [] then (pre, Some (eof_err c), c\<lparr>inp := []\<rparr>)
         else (pre @ [LF], None, c\<lparr>inp := tl rest\<rparr>))"

definition chomp :: "string \<Rightarrow> string" where
  "chomp line = trim_right_set line CRLF"

definition sendCmd :: "string \<Rightarrow> conn \<Rightarrow> (nntp_error + string) \<times> conn" where
  "sendCmd cmd c =
     (case werr c of
        Some e \<Rightarrow> (Inl (Io e), c)
      | None \<Rightarrow>
          (case read_string (c\<lparr>out := out c @ cmd @ CRLF\<rparr>) of
             (line, None, c') \<Rightarrow> (Inr (chomp line), c')
           | (line, Some e, c') \<Rightarrow> (Inl (Io e), c')))"

definition checkCode :: "string \<Rightarrow> nat \<Rightarrow> nntp_error option" where
  "checkCode resp code = (if has_prefix resp (show_nat code) then None else Some (UnexpectedCode code resp))"

text \<open>The greeting: the codes are compared, and the line is returned without an error either way.\<close>

definition readResponse :: "nat list \<Rightarrow> conn \<Rightarrow> (nntp_error + string) \<times> conn" where
  "readResponse codes c =
     (case read_string c of
        (line, Some e, c') \<Rightarrow> (Inl (Io e), c')
      | (line, None, c') \<Rightarrow>
          (if list_ex (\<lambda>code. has_prefix (chomp line) (show_nat code)) codes
           then (Inr (chomp line), c')
           else (Inr (chomp line), c')))"

definition auth :: "string \<Rightarrow> string \<Rightarrow> conn \<Rightarrow> nntp_error option \<times> conn" where
  "auth user pass c =
     (case sendCmd (''AUTHINFO USER '' @ user) c of
        (Inl e, c1) \<Rightarrow> (Some e, c1)
      | (Inr resp, c1) \<Rightarrow>
          if has_prefix resp ''281'' then (None, c1)
          else (case checkCode resp 381 of
                  Some e \<Rightarrow> (Some e, c1)
                | None \<Rightarrow>
                    (case sendCmd (''AUTHINFO PASS '' @ pass) c1 of
                       (Inl e, c2) \<Rightarrow> (Some e, c2)
                     | (Inr resp2, c2) \<Rightarrow> (checkCode resp2 281, c2))))"

definition SelectGroup :: "string \<Rightarrow> conn \<Rightarrow> (nntp_error + GroupInfo) \<times> conn" where
  "SelectGroup grp c =
     (case sendCmd (''GROUP '' @ grp) c of
        (Inl e, c1) \<Rightarrow> (Inl e, c1)
      | (Inr resp, c1) \<Rightarrow>
          (case checkCode resp 211 of
             Some e \<Rightarrow> (Inl e, c1)
           | None \<Rightarrow>
               let parts = go_fields resp
               in if length parts < 5 then (Inl (BadGroupResponse resp), c1)
                  else (Inr \<lparr>gi_Name = parts ! 4, gi_Count = fst (parse_int (parts ! 1)),
                             gi_First = fst (parse_int (parts ! 2)),
                             gi_Last = fst (parse_int (parts ! 3))\<rparr>, c1)))"

section \<open>Overviews\<close>

text \<open>\<open>strings.SplitN(line, sep, n)\<close> with a separator of one byte.\<close>

definition split_n :: "char \<Rightarrow> nat \<Rightarrow> string \<Rightarrow> string list" where
  "split_n sep n s =
     (let ps = split_on sep s
      in if length ps \<le> n then ps else take (n - 1) ps @ [go_join (drop (n - 1) ps) [sep]])"

definition nntpDateFormats :: "string list" where
  "nntpDateFormats =
    [''Mon, 2 Jan 2006 15:04:05 -0700'', ''Mon, 2 Jan 2006 15:04:05 MST'',
     ''Mon, 2 Jan 2006 15:04 -0700'', ''Mon, 2 Jan 2006 15:04 MST'',
     ''2 Jan 2006 15:04:05 -0700'', ''2 Jan 2006 15:04:05 MST'',
     ''2 Jan 2006 15:04 -0700'', ''2 Jan 2006 15:04 MST'',
     ''Mon, 2 Jan 06 15:04:05 -0700'', ''Mon, 2 Jan 06 15:04:05 MST'',
     ''Mon, 2 Jan 06 15:04 -0700'', ''Mon, 2 Jan 06 15:04 MST'',
     ''2 Jan 06 15:04:05 -0700'', ''2 Jan 06 15:04:05 MST'',
     ''2 Jan 06 15:04 -0700'', ''2 Jan 06 15:04 MST'',
     ''Mon, 02 Jan 2006 15:04:05 -0700'', ''Mon, 02 Jan 2006 15:04:05 MST'',
     ''02 Jan 06 15:04 -0700'', ''02 Jan 06 15:04 MST'']"

fun first_parse :: "(string \<Rightarrow> string \<Rightarrow> gotime option) \<Rightarrow> string list \<Rightarrow> string \<Rightarrow> gotime option" where
  "first_parse time_parse [] s = None"
| "first_parse time_parse (f # fs) s =
     (case time_parse f s of Some t \<Rightarrow> Some t | None \<Rightarrow> first_parse time_parse fs s)"

text \<open>The zero time and \<open>False\<close> on failure, never the current time.\<close>

definition parseNNTPDate :: "(string \<Rightarrow> string \<Rightarrow> gotime option) \<Rightarrow> string \<Rightarrow> gotime \<times> bool" where
  "parseNNTPDate time_parse raw =
     (let s = trim_space raw
      in if s = [] then (zero_time, False)
         else let s2 = (case last_index s '' ('' of
                          Some i \<Rightarrow> if 0 < i \<and> has_suffix s '')'' then trim_space (take i s) else s
                        | None \<Rightarrow> s)
              in case first_parse time_parse nntpDateFormats s2 of
                   Some t \<Rightarrow> (t, True)
                 | None \<Rightarrow> (zero_time, False))"

definition parse_overview_line :: "(string \<Rightarrow> string \<Rightarrow> gotime option) \<Rightarrow> string \<Rightarrow> ArticleInfo option" where
  "parse_overview_line time_parse line =
     (let parts = split_n TAB 9 line
      in if length parts < 8 then None
         else Some \<lparr>ai_ArticleNum = fst (parse_int (parts ! 0)), ai_Subject = parts ! 1,
                    ai_From = parts ! 2, ai_Date = fst (parseNNTPDate time_parse (parts ! 3)),
                    ai_MessageID = parts ! 4, ai_References = parts ! 5,
                    ai_Bytes = fst (parse_int (parts ! 6)), ai_Lines = fst (parse_int (parts ! 7))\<rparr>)"

lemma read_string_shrinks:
  "read_string c = (line, None, c') \<Longrightarrow> length (inp c') < length (inp c)"
proof -
  assume a: "read_string c = (line, None, c')"
  have le: "length (dropWhile (\<lambda>x. x \<noteq> LF) (inp c)) \<le> length (inp c)"
    by (rule length_dropWhile_le)
  from a have "dropWhile (\<lambda>x. x \<noteq> LF) (inp c) \<noteq> []"
    and c': "c' = c\<lparr>inp := tl (dropWhile (\<lambda>x. x \<noteq> LF) (inp c))\<rparr>"
    by (auto simp: read_string_def Let_def split: if_splits)
  then have "length (tl (dropWhile (\<lambda>x. x \<noteq> LF) (inp c))) < length (dropWhile (\<lambda>x. x \<noteq> LF) (inp c))"
    by (cases "dropWhile (\<lambda>x. x \<noteq> LF) (inp c)") auto
  with le have "length (tl (dropWhile (\<lambda>x. x \<noteq> LF) (inp c))) < length (inp c)"
    by (rule order.strict_trans2[rotated])
  then show ?thesis by (simp add: c')
qed

function overview_loop ::
  "(string \<Rightarrow> string \<Rightarrow> gotime option) \<Rightarrow> ArticleInfo list \<Rightarrow> conn \<Rightarrow> (nntp_error + ArticleInfo list) \<times> conn" where
  "overview_loop time_parse acc c =
     (case read_string c of
        (line, Some e, c') \<Rightarrow> (Inl (Io e), c')
      | (line, None, c') \<Rightarrow>
          if chomp line = ''.'' then (Inr acc, c')
          else (case parse_overview_line time_parse (chomp line) of
                  None \<Rightarrow> overview_loop time_parse acc c'
                | Some ai \<Rightarrow> overview_loop time_parse (acc @ [ai]) c'))"
  by pat_completeness auto
termination
  by (relation "measure (\<lambda>(tp, acc, c). length (inp c))") (auto dest: read_string_shrinks[OF sym])

declare overview_loop.simps [simp del]

definition Overview ::
  "(string \<Rightarrow> string \<Rightarrow> gotime option) \<Rightarrow> int \<Rightarrow> int \<Rightarrow> conn \<Rightarrow> (nntp_error + ArticleInfo list) \<times> conn" where
  "Overview time_parse lo hi c =
     (let range = show_int lo @ ''-'' @ show_int hi
      in case sendCmd (''OVER '' @ range) c of
           (Inl e, c1) \<Rightarrow> (Inl e, c1)
         | (Inr resp, c1) \<Rightarrow>
             (case checkCode resp 224 of
                None \<Rightarrow> overview_loop time_parse [] c1
              | Some _ \<Rightarrow>
                  (case sendCmd (''XOVER '' @ range) c1 of
                     (Inl e, c2) \<Rightarrow> (Inl e, c2)
                   | (Inr resp2, c2) \<Rightarrow>
                       (case checkCode resp2 224 of
                          Some e \<Rightarrow> (Inl e, c2)
                        | None \<Rightarrow> overview_loop time_parse [] c2))))"

section \<open>Article bodies and headers\<close>

text \<open>
  \<open>readDot\<close>: lines up to the one holding a single dot; a doubled leading dot loses one dot. The
  size check stands before the append. End of input ends the loop as the dot does.
\<close>

function readDot_loop :: "bool \<Rightarrow> int \<Rightarrow> string \<Rightarrow> conn \<Rightarrow> (nntp_error + string) \<times> conn" where
  "readDot_loop keep limit buf c =
     (case read_string c of
        (line, err, c') \<Rightarrow>
          if err \<noteq> None \<and> err \<noteq> Some EOF then (Inl (Io (the err)), c')
          else let trimmed = chomp line
               in if trimmed = ''.'' then (Inr buf, c')
                  else let body = (if has_prefix trimmed ''..'' then tl trimmed else trimmed)
                       in if limit < int (length buf) + int (length body) + 1
                          then (Inl ArticleTooLarge, c')
                          else let buf' = buf @ body @ (if keep then [LF] else [])
                               in if err = Some EOF then (Inr buf', c')
                                  else readDot_loop keep limit buf' c')"
  by pat_completeness auto
termination
  by (relation "measure (\<lambda>(keep, limit, buf, c). length (inp c))") (auto dest: read_string_shrinks[OF sym])

declare readDot_loop.simps [simp del]

definition readDot :: "bool \<Rightarrow> conn \<Rightarrow> (nntp_error + string) \<times> conn" where
  "readDot keep c = readDot_loop keep (read_limit c) [] c"

definition readDotBody :: "conn \<Rightarrow> (nntp_error + string) \<times> conn" where
  "readDotBody c = readDot True c"

definition readDotBinaryBody :: "conn \<Rightarrow> (nntp_error + string) \<times> conn" where
  "readDotBinaryBody c = readDot False c"

definition Body :: "string \<Rightarrow> conn \<Rightarrow> (nntp_error + string) \<times> conn" where
  "Body messageID c =
     (case NormalizeMessageID messageID of
        Inl e \<Rightarrow> (Inl (BadMessageID e), c)
      | Inr msgID \<Rightarrow>
          (case sendCmd (''BODY '' @ msgID) c of
             (Inl e, c1) \<Rightarrow> (Inl e, c1)
           | (Inr resp, c1) \<Rightarrow>
               (case checkCode resp 222 of Some e \<Rightarrow> (Inl e, c1) | None \<Rightarrow> readDotBody c1)))"

definition BinaryBody :: "string \<Rightarrow> conn \<Rightarrow> (nntp_error + string) \<times> conn" where
  "BinaryBody messageID c =
     (case NormalizeMessageID messageID of
        Inl e \<Rightarrow> (Inl (BadMessageID e), c)
      | Inr msgID \<Rightarrow>
          (case sendCmd (''BODY '' @ msgID) c of
             (Inl e, c1) \<Rightarrow> (Inl e, c1)
           | (Inr resp, c1) \<Rightarrow>
               (case checkCode resp 222 of Some e \<Rightarrow> (Inl e, c1) | None \<Rightarrow> readDotBinaryBody c1)))"

type_synonym headers = "string \<rightharpoonup> string"

definition header_get :: "headers \<Rightarrow> string \<Rightarrow> string" where
  "header_get h k = (case h k of Some v \<Rightarrow> v | None \<Rightarrow> [])"

text \<open>The closure \<open>flush\<close> of \<open>Head\<close>: a repeated header is concatenated.\<close>

definition head_flush :: "headers \<Rightarrow> string \<Rightarrow> string \<Rightarrow> headers" where
  "head_flush h k v = (if k \<noteq> [] then h(k \<mapsto> header_get h k @ v) else h)"

function head_loop ::
  "int \<Rightarrow> int \<Rightarrow> headers \<Rightarrow> string \<Rightarrow> string \<Rightarrow> conn \<Rightarrow> (nntp_error + headers) \<times> conn" where
  "head_loop limit nread h curKey curVal c =
     (case read_string c of
        (raw, Some e, c') \<Rightarrow> (Inl (Io e), c')
      | (raw, None, c') \<Rightarrow>
          let line = chomp raw
          in if line = ''.'' then (Inr (head_flush h curKey curVal), c')
             else let nread' = nread + int (length line) + 1
                  in if limit < nread' then (Inl ArticleTooLarge, c')
                     else if line \<noteq> [] \<and> (hd line = CHR '' '' \<or> hd line = TAB)
                          then head_loop limit nread' h curKey (curVal @ trim_left_set line [CHR '' '', TAB]) c'
                     else let h' = head_flush h curKey curVal
                          in case go_index line '':'' of
                               None \<Rightarrow> head_loop limit nread' h' [] [] c'
                             | Some i \<Rightarrow>
                                 head_loop limit nread' h' (to_lower (trim_space (take i line)))
                                   (trim_space (drop (i + 1) line)) c')"
  by pat_completeness auto
termination
  by (relation "measure (\<lambda>(limit, nread, h, k, v, c). length (inp c))")
    (auto dest: read_string_shrinks[OF sym])

declare head_loop.simps [simp del]

definition Head :: "string \<Rightarrow> conn \<Rightarrow> (nntp_error + headers) \<times> conn" where
  "Head messageID c =
     (case NormalizeMessageID messageID of
        Inl e \<Rightarrow> (Inl (BadMessageID e), c)
      | Inr msgID \<Rightarrow>
          (case sendCmd (''HEAD '' @ msgID) c of
             (Inl e, c1) \<Rightarrow> (Inl e, c1)
           | (Inr resp, c1) \<Rightarrow>
               if has_prefix resp ''430'' then (Inl NoSuchArticle, c1)
               else (case checkCode resp 221 of
                       Some e \<Rightarrow> (Inl e, c1)
                     | None \<Rightarrow> head_loop (read_limit c1) 0 Map.empty [] [] c1)))"

section \<open>The command stream stays one line per command\<close>

text \<open>What the server reads as command lines: the bytes written, cut at every newline.\<close>

definition wire_lines :: "string \<Rightarrow> string list" where
  "wire_lines w = split_on LF w"

lemma safe_msgid_no_newline:
  assumes "safe_msgid r" and "x \<in> {LF, CR, CHR '' ''}"
  shows "x \<notin> set r"
proof -
  from assms(1) obtain core where "r = ''<'' @ core @ ''>''" and "list_all msgid_char core"
    by (auto simp: safe_msgid_def)
  moreover from this(2) assms(2) have "x \<notin> set core"
    using msgid_char_not_space by (auto simp: list_all_iff)
  ultimately show ?thesis using assms(2) by auto
qed

lemma wire_lines_cmd:
  "LF \<notin> set cmd \<Longrightarrow> wire_lines (cmd @ CRLF) = [cmd @ [CR], []]"
  unfolding wire_lines_def
  using split_on_append_sep[of LF "cmd @ [CR]" "[]"] by simp

lemma read_string_snd_out: "out (snd (snd (read_string c))) = out c"
  by (simp add: read_string_def Let_def)

lemma read_string_out: "read_string c = (l, e, c') \<Longrightarrow> out c' = out c"
  using read_string_snd_out[of c] by simp

lemma sendCmd_out: "out (snd (sendCmd cmd c)) = (if werr c = None then out c @ cmd @ CRLF else out c)"
proof (cases "werr c")
  case None
  obtain line e c' where r: "read_string (c\<lparr>out := out c @ cmd @ CRLF\<rparr>) = (line, e, c')"
    by (cases "read_string (c\<lparr>out := out c @ cmd @ CRLF\<rparr>)") auto
  from read_string_out[OF r] have "out c' = out c @ cmd @ CRLF" by simp
  with None r show ?thesis by (cases e) (simp_all add: sendCmd_def)
next
  case (Some e)
  then show ?thesis by (simp add: sendCmd_def)
qed

lemma read_string_line:
  assumes "LF \<notin> set l"
  shows "read_string (c\<lparr>inp := l @ LF # rest\<rparr>) = (l @ [LF], None, c\<lparr>inp := rest\<rparr>)"
proof -
  have "takeWhile (\<lambda>x. x \<noteq> LF) (l @ LF # rest) = l"
    and "dropWhile (\<lambda>x. x \<noteq> LF) (l @ LF # rest) = LF # rest"
    using assms by (induction l) auto
  then show ?thesis by (simp add: read_string_def Let_def)
qed

lemma read_string_end:
  assumes "LF \<notin> set l"
  shows "read_string (c\<lparr>inp := l\<rparr>) = (l, Some (eof_err c), c\<lparr>inp := []\<rparr>)"
proof -
  have "takeWhile (\<lambda>x. x \<noteq> LF) l = l" and "dropWhile (\<lambda>x. x \<noteq> LF) l = []"
    using assms by (induction l) auto
  then show ?thesis by (simp add: read_string_def Let_def)
qed

text \<open>A text line: no newline inside, no carriage return at its end.\<close>

definition text_line :: "string \<Rightarrow> bool" where
  "text_line l \<longleftrightarrow> LF \<notin> set l \<and> (l = [] \<or> last l \<noteq> CR)"

lemma chomp_line: "text_line l \<Longrightarrow> chomp (l @ CRLF) = l"
  by (cases l rule: rev_cases) (auto simp: chomp_def trim_right_set_def text_line_def)

lemma chomp_text: "text_line l \<Longrightarrow> chomp l = l"
  by (cases l rule: rev_cases) (auto simp: chomp_def trim_right_set_def text_line_def)

text \<open>Dot-stuffing, as the server sends an article, and the connection holding it.\<close>

definition dot_stuff :: "string \<Rightarrow> string" where
  "dot_stuff l = (if has_prefix l ''.'' then CHR ''.'' # l else l)"

definition dot_lines :: "string list \<Rightarrow> string" where
  "dot_lines ls = concat (map (\<lambda>l. dot_stuff l @ CRLF) ls)"

definition body_of :: "bool \<Rightarrow> string list \<Rightarrow> string" where
  "body_of keep ls = concat (map (\<lambda>l. l @ (if keep then [LF] else [])) ls)"

lemma body_of_snoc: "body_of keep (ls @ [l]) = body_of keep ls @ l @ (if keep then [LF] else [])"
  by (simp add: body_of_def)

lemma read_limit_inp [simp]: "read_limit (c\<lparr>inp := x\<rparr>) = read_limit c"
  by (simp add: read_limit_def)

lemma dot_stuff_line: "text_line l \<Longrightarrow> text_line (dot_stuff l)"
  by (auto simp: text_line_def dot_stuff_def)

lemma unstuff: "(if has_prefix (dot_stuff l) ''..'' then tl (dot_stuff l) else dot_stuff l) = l"
  by (cases l) (auto simp: dot_stuff_def)

lemma dot_stuff_not_dot: "dot_stuff l \<noteq> ''.''"
  by (cases l) (auto simp: dot_stuff_def)

lemma readDot_step:
  assumes "text_line l" and "int (length buf) + int (length l) + 1 \<le> limit"
  shows "readDot_loop keep limit buf (c\<lparr>inp := dot_stuff l @ CRLF @ rest\<rparr>) =
         readDot_loop keep limit (buf @ l @ (if keep then [LF] else [])) (c\<lparr>inp := rest\<rparr>)"
proof -
  have nl: "LF \<notin> set (dot_stuff l @ [CR])"
    using dot_stuff_line[OF assms(1)] by (simp add: text_line_def)
  have r: "read_string (c\<lparr>inp := dot_stuff l @ CR # LF # rest\<rparr>)
             = (dot_stuff l @ CRLF, None, c\<lparr>inp := rest\<rparr>)"
    using read_string_line[OF nl, where c = c and rest = rest] by simp
  show ?thesis
    using assms(2)
    by (subst readDot_loop.simps)
      (simp add: r chomp_line[OF dot_stuff_line[OF assms(1)]] dot_stuff_not_dot unstuff Let_def)
qed

lemma readDot_lines:
  assumes "list_all text_line ls"
    and "int (length buf) + int (length (body_of True ls)) \<le> limit"
  shows "readDot_loop keep limit buf (c\<lparr>inp := dot_lines ls @ rest\<rparr>) =
         readDot_loop keep limit (buf @ body_of keep ls) (c\<lparr>inp := rest\<rparr>)"
  using assms
proof (induction ls arbitrary: buf)
  case Nil
  then show ?case by (simp add: dot_lines_def body_of_def)
next
  case (Cons l ls)
  let ?buf = "buf @ l @ (if keep then [LF] else [])"
  have b: "int (length buf) + int (length l) + 1 \<le> limit"
    using Cons.prems(2) by (simp add: body_of_def)
  have "readDot_loop keep limit buf (c\<lparr>inp := dot_lines (l # ls) @ rest\<rparr>)
      = readDot_loop keep limit ?buf (c\<lparr>inp := dot_lines ls @ rest\<rparr>)"
    using readDot_step[where c = c and rest = "dot_lines ls @ rest"] Cons.prems(1) b
    by (simp add: dot_lines_def)
  also have "\<dots> = readDot_loop keep limit (?buf @ body_of keep ls) (c\<lparr>inp := rest\<rparr>)"
    using Cons.prems by (intro Cons.IH) (auto simp: body_of_def)
  finally show ?case by (simp add: body_of_def)
qed

lemma readDot_loop_bound:
  "readDot_loop keep limit buf c = (Inr b, c') \<Longrightarrow> int (length buf) \<le> limit \<Longrightarrow> int (length b) \<le> limit"
proof (induction keep limit buf c rule: readDot_loop.induct)
  case (1 keep limit buf c)
  obtain line err c1 where r: "read_string c = (line, err, c1)" by (cases "read_string c") auto
  let ?body = "if has_prefix (chomp line) ''..'' then tl (chomp line) else chomp line"
  let ?buf = "buf @ ?body @ (if keep then [LF] else [])"
  show ?case
  proof (cases "(err = None \<or> err = Some EOF) \<and> chomp line \<noteq> ''.''
               \<and> int (length buf) + int (length ?body) + 1 \<le> limit")
    case True
    then have "int (length ?buf) \<le> limit" by simp
    with True show ?thesis
      using "1.IH"[OF r[symmetric]] "1.prems"
      by (subst (asm) readDot_loop.simps) (auto simp: r Let_def split: if_splits)
  next
    case False
    with "1.prems" show ?thesis
      by (subst (asm) readDot_loop.simps) (auto simp: r Let_def split: if_splits)
  qed
qed

lemma readDot_loop_out: "out (snd (readDot_loop keep limit buf c)) = out c"
proof (induction keep limit buf c rule: readDot_loop.induct)
  case (1 keep limit buf c)
  obtain line err c1 where r: "read_string c = (line, err, c1)" by (cases "read_string c") auto
  show ?case
    using "1.IH"[OF r[symmetric]] read_string_out[OF r]
    by (subst readDot_loop.simps) (auto simp: r Let_def)
qed

lemma head_loop_out: "out (snd (head_loop limit n h k v c)) = out c"
proof (induction limit n h k v c rule: head_loop.induct)
  case (1 limit n h k v c)
  obtain line err c1 where r: "read_string c = (line, err, c1)" by (cases "read_string c") auto
  show ?case
    using "1.IH"[OF r[symmetric]] read_string_out[OF r]
    by (subst head_loop.simps) (auto simp: r Let_def split: option.split)
qed

definition one_command :: "string \<Rightarrow> string \<Rightarrow> string \<Rightarrow> bool" where
  "one_command verb before after \<longleftrightarrow>
     after = before \<or>
     (\<exists>r. safe_msgid r \<and> after = before @ verb @ '' '' @ r @ CRLF \<and>
          wire_lines (verb @ '' '' @ r @ CRLF) = [verb @ '' '' @ r @ [CR], []])"

lemma one_commandI:
  assumes "safe_msgid r" and "LF \<notin> set verb" and "after = before \<or> after = before @ verb @ '' '' @ r @ CRLF"
  shows "one_command verb before after"
proof -
  have "LF \<notin> set (verb @ '' '' @ r)"
    using assms(2) safe_msgid_no_newline[OF assms(1), of LF] by simp
  from wire_lines_cmd[OF this] assms show ?thesis
    by (auto simp: one_command_def)
qed

lemma Body_out: "out (snd (Body m c)) = out c \<or>
    (\<exists>r. safe_msgid r \<and> out (snd (Body m c)) = out c @ ''BODY '' @ r @ CRLF)"
proof (cases "NormalizeMessageID m")
  case (Inr r)
  then show ?thesis
    using sendCmd_out[of "''BODY '' @ r" c] normalized_safe[OF Inr] readDot_loop_out
    by (auto simp: Body_def readDotBody_def readDot_def split: prod.split sum.split option.split if_splits)
qed (simp add: Body_def)

lemma BinaryBody_out: "out (snd (BinaryBody m c)) = out c \<or>
    (\<exists>r. safe_msgid r \<and> out (snd (BinaryBody m c)) = out c @ ''BODY '' @ r @ CRLF)"
proof (cases "NormalizeMessageID m")
  case (Inr r)
  then show ?thesis
    using sendCmd_out[of "''BODY '' @ r" c] normalized_safe[OF Inr] readDot_loop_out
    by (auto simp: BinaryBody_def readDotBinaryBody_def readDot_def
        split: prod.split sum.split option.split if_splits)
qed (simp add: BinaryBody_def)

lemma Head_out: "out (snd (Head m c)) = out c \<or>
    (\<exists>r. safe_msgid r \<and> out (snd (Head m c)) = out c @ ''HEAD '' @ r @ CRLF)"
proof (cases "NormalizeMessageID m")
  case (Inr r)
  then show ?thesis
    using sendCmd_out[of "''HEAD '' @ r" c] normalized_safe[OF Inr] head_loop_out
    by (auto simp: Head_def split: prod.split sum.split option.split if_splits)
qed (simp add: Head_def)

text \<open>C24: No message-id, however hostile, can add a command to the stream: \<open>Body\<close>, \<open>BinaryBody\<close> and
  \<open>Head\<close> write nothing, or exactly one line, which names a bracketed printable-ASCII id of at most
  250 bytes.\<close>

theorem fetch_sends_at_most_one_command:
  "one_command ''BODY'' (out c) (out (snd (Body m c))) \<and>
   one_command ''BODY'' (out c) (out (snd (BinaryBody m c))) \<and>
   one_command ''HEAD'' (out c) (out (snd (Head m c)))"
proof (intro conjI)
  show "one_command ''BODY'' (out c) (out (snd (Body m c)))"
    using Body_out[of m c] by (auto intro: one_commandI simp: one_command_def[of _ x x for x])
  show "one_command ''BODY'' (out c) (out (snd (BinaryBody m c)))"
    using BinaryBody_out[of m c] by (auto intro: one_commandI simp: one_command_def[of _ x x for x])
  show "one_command ''HEAD'' (out c) (out (snd (Head m c)))"
    using Head_out[of m c] by (auto intro: one_commandI simp: one_command_def[of _ x x for x])
qed

text \<open>What \<open>NormalizeMessageID\<close> accepts is safe to send, and normalising it again changes nothing.\<close>

theorem normalize_message_id_idempotent:
  assumes "NormalizeMessageID raw = Inr r"
  shows "safe_msgid r \<and> NormalizeMessageID r = Inr r"
  using normalized_safe[OF assms] normalize_safe_id by blast

lemma normalize_message_id_idempotent_witness:
  "NormalizeMessageID ''  <a@b.c> '' = Inr ''<a@b.c>'' \<and> safe_msgid ''<a@b.c>''"
proof -
  have "NormalizeMessageID ''  <a@b.c> '' = Inr ''<a@b.c>''" by code_simp
  with normalize_message_id_idempotent[OF this] show ?thesis by simp
qed

text \<open>Reading an article undoes dot-stuffing: a body of text lines sent dot-stuffed and terminated
  by a dot is returned line by line, within the size limit, and the connection stands exactly after
  the terminator, ready for the next reply.\<close>

lemma readDot_article:
  assumes "list_all text_line ls" and "int (length (body_of True ls)) \<le> read_limit c"
  shows "readDot keep (c\<lparr>inp := dot_lines ls @ ''.'' @ CRLF @ rest\<rparr>) = (Inr (body_of keep ls), c\<lparr>inp := rest\<rparr>)"
proof -
  let ?c = "c\<lparr>inp := ''.'' @ CRLF @ rest\<rparr>"
  have r: "read_string ?c = (''.'' @ CRLF, None, c\<lparr>inp := rest\<rparr>)"
    using read_string_line[of "''.'' @ [CR]", where c = c and rest = rest] by simp
  have "chomp (''.'' @ CRLF) = ''.''" by (rule chomp_line) (simp add: text_line_def)
  then have "readDot_loop keep (read_limit c) (body_of keep ls) ?c = (Inr (body_of keep ls), c\<lparr>inp := rest\<rparr>)"
    by (subst readDot_loop.simps) (use r in \<open>simp add: Let_def\<close>)
  then show ?thesis
    using readDot_lines[OF assms(1), where buf = "[]" and limit = "read_limit c" and keep = keep
        and c = c and rest = "''.'' @ CRLF @ rest"] assms(2)
    by (simp add: readDot_def)
qed

lemma readDot_article_example:
  "fst (readDot True \<lparr>inp = ''..hi'' @ CRLF @ ''x'' @ CRLF @ ''.'' @ CRLF @ ''205 bye'' @ CRLF,
      eof_err = EOF, out = [], werr = None, maxArticleBytes = 100\<rparr>) = Inr (''.hi'' @ [LF] @ ''x'' @ [LF])"
  using readDot_article[of "[''.hi'', ''x'']"
      "\<lparr>inp = [], eof_err = EOF, out = [], werr = None, maxArticleBytes = 100\<rparr>"
      True "''205 bye'' @ CRLF"]
  by (simp add: text_line_def body_of_def dot_lines_def dot_stuff_def read_limit_def)

text \<open>A connection that is closed in the middle of an article is not an error: with the peer gone
  before the terminating dot, \<open>readDot\<close> returns what it has, the unfinished last line included, as a
  complete body, so a truncated NZB or image is handed to the decoder and to the cache.\<close>

theorem readDot_accepts_truncated_article:
  assumes "list_all text_line ls" and "text_line l" and "eof_err c = EOF"
    and "int (length (body_of True (ls @ [l]))) \<le> read_limit c"
  shows "readDot keep (c\<lparr>inp := dot_lines ls @ dot_stuff l\<rparr>) =
         (Inr (body_of keep (ls @ [l])), c\<lparr>inp := []\<rparr>)"
proof -
  let ?c = "c\<lparr>inp := dot_stuff l\<rparr>"
  have nl: "LF \<notin> set (dot_stuff l)" and ch: "chomp (dot_stuff l) = dot_stuff l"
    using dot_stuff_line[OF assms(2)] chomp_text by (auto simp: text_line_def)
  have r: "read_string ?c = (dot_stuff l, Some EOF, c\<lparr>inp := []\<rparr>)"
    using read_string_end[OF nl, of c] assms(3) by simp
  have len: "int (length (body_of keep ls)) + int (length l) + 1 \<le> read_limit c"
  proof -
    have "length (body_of keep ls) \<le> length (body_of True ls)"
      by (induction ls) (auto simp: body_of_def)
    with assms(4) show ?thesis by (simp add: body_of_def)
  qed
  have "readDot_loop keep (read_limit c) (body_of keep ls) ?c
      = (Inr (body_of keep (ls @ [l])), c\<lparr>inp := []\<rparr>)"
    using len by (subst readDot_loop.simps)
      (simp add: r ch dot_stuff_not_dot unstuff Let_def body_of_snoc)
  then show ?thesis
    using readDot_lines[OF assms(1), where buf = "[]" and limit = "read_limit c" and keep = keep
        and c = c and rest = "dot_stuff l"] assms(4)
    by (simp add: readDot_def body_of_snoc)
qed

lemma readDot_accepts_truncated_article_witness:
  "fst (readDot True \<lparr>inp = ''one'' @ CRLF @ ''tw'', eof_err = EOF, out = [], werr = None,
      maxArticleBytes = 100\<rparr>) = Inr (''one'' @ [LF] @ ''tw'' @ [LF])"
  using readDot_accepts_truncated_article[of "[''one'']" "''tw''"
      "\<lparr>inp = [], eof_err = EOF, out = [], werr = None, maxArticleBytes = 100\<rparr>" True]
  by (simp add: text_line_def body_of_def dot_lines_def dot_stuff_def read_limit_def)

section \<open>Size limits\<close>

text \<open>The bytes of a header block, counted as \<open>Head\<close> counts them: names and values together stay below it.\<close>

lemma readDot_bounded: "readDot keep c = (Inr b, c') \<Longrightarrow> int (length b) \<le> read_limit c"
  unfolding readDot_def
  by (erule readDot_loop_bound) (simp add: read_limit_def defaultMaxArticleBytes_def)

section \<open>Overview lines\<close>

definition overview_line :: "ArticleInfo \<Rightarrow> string \<Rightarrow> string" where
  "overview_line ai date = go_join [show_int (ai_ArticleNum ai), ai_Subject ai, ai_From ai, date,
     ai_MessageID ai, ai_References ai, show_int (ai_Bytes ai), show_int (ai_Lines ai)] [TAB]"

definition is_int64 :: "int \<Rightarrow> bool" where "is_int64 n \<longleftrightarrow> min_int64 \<le> n \<and> n \<le> max_int64"

definition overview_ok :: "ArticleInfo \<Rightarrow> bool" where
  "overview_ok ai \<longleftrightarrow>
     list_all (\<lambda>f. TAB \<notin> set f) [ai_Subject ai, ai_From ai, ai_MessageID ai, ai_References ai] \<and>
     list_all is_int64 [ai_ArticleNum ai, ai_Bytes ai, ai_Lines ai]"

lemma show_int_no_tab: "TAB \<notin> set (show_int n)"
  using show_int_set[of TAB n] by (auto simp: is_digit_def)

text \<open>A well-formed overview line is read back field by field; the date is the one the layouts give.\<close>

lemma parse_overview_line_overview_line:
  assumes "overview_ok ai" and "TAB \<notin> set date"
  shows "parse_overview_line tp (overview_line ai date) =
         Some (ai\<lparr>ai_Date := fst (parseNNTPDate tp date)\<rparr>)"
proof -
  let ?ps = "[show_int (ai_ArticleNum ai), ai_Subject ai, ai_From ai, date,
     ai_MessageID ai, ai_References ai, show_int (ai_Bytes ai), show_int (ai_Lines ai)]"
  have "split_on TAB (overview_line ai date) = ?ps"
    unfolding overview_line_def using assms show_int_no_tab
    by (intro split_on_join) (auto simp: overview_ok_def)
  then have "split_n TAB 9 (overview_line ai date) = ?ps" by (simp add: split_n_def)
  moreover have "parse_int (show_int n) = (n, None)" if "is_int64 n" for n
    using int64.dec_enc that by (simp add: is_int64_def)
  ultimately show ?thesis
    using assms by (simp add: parse_overview_line_def overview_ok_def)
qed

interpretation overview: codec "\<lambda>(ai, date). overview_line ai date" "parse_overview_line tp"
    "\<lambda>(ai, date). Some (ai\<lparr>ai_Date := fst (parseNNTPDate tp date)\<rparr>)"
    "\<lambda>(ai, date). overview_ok ai \<and> TAB \<notin> set date" for tp
  by unfold_locales (auto simp: parse_overview_line_overview_line)

end
