(* ===== verification/Kind.thy ===== *)
theory Kind
  imports Prelude
begin

text \<open>
  \<open>internal/db/kind.go\<close>: the kind of a spot (film, series, book, comic, erotic), derived from its
  main category and subcategory codes, once as Go code (\<open>KindOf\<close>, at parse and insert time) and once
  as the SQL expression the migrations run (\<open>kindCaseSQL\<close>). The two agree on every column the
  parser can write; \<open>col_ok\<close> says what such a column looks like.
\<close>

definition KindNone :: int where "KindNone = 0"
definition KindMovie :: int where "KindMovie = 1"
definition KindSeries :: int where "KindSeries = 2"
definition KindBook :: int where "KindBook = 3"
definition KindComic :: int where "KindComic = 4"
definition KindErotic :: int where "KindErotic = 5"

lemmas kind_defs = KindNone_def KindMovie_def KindSeries_def KindBook_def KindComic_def KindErotic_def

definition KindNames :: "string \<rightharpoonup> int" where
  "KindNames = map_of [(''movie'', KindMovie), (''series'', KindSeries), (''book'', KindBook),
     (''comic'', KindComic), (''erotic'', KindErotic)]"

text \<open>The codes of one letter over pairs of bounds.\<close>

fun codeRange :: "char \<Rightarrow> nat list \<Rightarrow> string list" where
  "codeRange letter (lo # hi # bounds) =
     map (\<lambda>n. letter # show_nat n) [lo..<Suc hi] @ codeRange letter bounds"
| "codeRange letter _ = []"

definition eroticGenres :: "string list" where "eroticGenres = codeRange (CHR ''d'') [23, 26, 72, 89]"
definition seriesCodes :: "string list" where "seriesCodes = [''b4'', ''d11'']"
definition bookCodes :: "string list" where "bookCodes = [''a5'', ''a11'']"
definition pictureCodes :: "string list" where "pictureCodes = [''a12'', ''a13'']"

section \<open>The Go function\<close>

definition codes_of :: "string \<Rightarrow> string \<Rightarrow> string \<Rightarrow> string list" where
  "codes_of subCatA subCatB subCatD =
     filter (\<lambda>c. c \<noteq> []) (concat (map (split_on (CHR ''|'')) [subCatA, subCatB, subCatD]))"

definition KindOf :: "int \<Rightarrow> string \<Rightarrow> string \<Rightarrow> string \<Rightarrow> int" where
  "KindOf category subCatA subCatB subCatD =
     (if category \<noteq> 0 then KindNone
      else let codes = codes_of subCatA subCatB subCatD;
               has = (\<lambda>c. c \<in> set codes);
               any = (\<lambda>l. list_ex has l)
           in if has ''z3'' then KindErotic
              else if has ''z2'' \<and> has ''d31'' then KindComic
              else if has ''z2'' then KindBook
              else if has ''z1'' then KindSeries
              else if has ''z0'' then KindMovie
              else if has ''z4'' then KindNone
              else if any eroticGenres then KindErotic
              else if any seriesCodes then KindSeries
              else if any bookCodes then (if has ''d31'' then KindComic else KindBook)
              else if any pictureCodes then KindNone
              else KindMovie)"

section \<open>The SQL expression\<close>

text \<open>\<open>instr('|' || col, '|code|') > 0\<close>, and the disjunctions the expression is built from.\<close>

definition sql_has :: "string \<Rightarrow> string \<Rightarrow> bool" where
  "sql_has col code = go_contains (''|'' @ col) (''|'' @ code @ ''|'')"

definition sql_anyOf :: "string \<Rightarrow> string list \<Rightarrow> bool" where
  "sql_anyOf col l = list_ex (sql_has col) l"

definition kindCaseSQL :: "int \<Rightarrow> string \<Rightarrow> string \<Rightarrow> string \<Rightarrow> int" where
  "kindCaseSQL category sub_cat_a sub_cat_b sub_cat_d =
     (let books = sql_anyOf sub_cat_a bookCodes;
          series = sql_has sub_cat_b ''b4'' \<or> sql_has sub_cat_d ''d11''
      in if category \<noteq> 0 then 0
         else if sql_has sub_cat_d ''z3'' then 5
         else if sql_has sub_cat_d ''z2'' \<and> sql_has sub_cat_d ''d31'' then 4
         else if sql_has sub_cat_d ''z2'' then 3
         else if sql_has sub_cat_d ''z1'' then 2
         else if sql_has sub_cat_d ''z0'' then 1
         else if sql_has sub_cat_d ''z4'' then 0
         else if sql_anyOf sub_cat_d eroticGenres then 5
         else if series then 2
         else if books \<and> sql_has sub_cat_d ''d31'' then 4
         else if books then 3
         else if sql_anyOf sub_cat_a pictureCodes then 0
         else 1)"

section \<open>Columns as the parser writes them\<close>

definition render_col :: "string list \<Rightarrow> string" where
  "render_col ps = concat (map (\<lambda>p. p @ ''|'') ps)"

definition code_ok :: "char set \<Rightarrow> string \<Rightarrow> bool" where
  "code_ok L p \<longleftrightarrow> p \<noteq> [] \<and> hd p \<in> L \<and> CHR ''|'' \<notin> set p"

definition col_ok :: "char set \<Rightarrow> string \<Rightarrow> bool" where
  "col_ok L s \<longleftrightarrow> (\<exists>ps. s = render_col ps \<and> list_all (code_ok L) ps)"

lemma col_ok_Nil [simp]: "col_ok L []"
  unfolding col_ok_def by (rule exI[of _ "[]"]) (simp add: render_col_def)

lemma col_ok_snoc: "col_ok L s \<Longrightarrow> code_ok L p \<Longrightarrow> col_ok L (s @ p @ ''|'')"
proof -
  assume "col_ok L s" and p: "code_ok L p"
  then obtain ps where "s = render_col ps" and "list_all (code_ok L) ps"
    by (auto simp: col_ok_def)
  with p show ?thesis
    unfolding col_ok_def by (intro exI[of _ "ps @ [p]"]) (simp add: render_col_def)
qed

lemma split_render_col:
  "list_all (\<lambda>p. CHR ''|'' \<notin> set p) ps \<Longrightarrow> split_on (CHR ''|'') (render_col ps) = ps @ [[]]"
  by (induction ps) (auto simp: render_col_def split_on_append_sep)

lemma go_contains_Nil: "go_contains [] p \<longleftrightarrow> p = []"
  by (simp add: go_contains_def)

lemma go_contains_Cons: "go_contains (x # xs) p \<longleftrightarrow> has_prefix (x # xs) p \<or> go_contains xs p"
  by (simp add: go_contains_def)

lemma go_contains_skip:
  "y \<notin> set xs \<Longrightarrow> go_contains (xs @ s) (y # p) \<longleftrightarrow> go_contains s (y # p)"
  by (induction xs) (auto simp: go_contains_Cons)

lemma has_prefix_sep:
  "y \<notin> set p \<Longrightarrow> y \<notin> set q \<Longrightarrow> has_prefix (p @ y # r) (q @ [y]) \<longleftrightarrow> p = q"
proof (induction p arbitrary: q)
  case Nil
  then show ?case by (cases q) auto
next
  case (Cons x p)
  then show ?case by (cases q) auto
qed

lemma sql_has_render_col:
  assumes "list_all (\<lambda>p. CHR ''|'' \<notin> set p) ps" and "CHR ''|'' \<notin> set code"
  shows "sql_has (render_col ps) code \<longleftrightarrow> code \<in> set ps"
  using assms(1)
proof (induction ps)
  case Nil
  then show ?case by (cases code) (simp_all add: sql_has_def render_col_def go_contains_Cons go_contains_Nil)
next
  case (Cons p ps)
  let ?rest = "''|'' @ render_col ps"
  have "sql_has (render_col (p # ps)) code
      \<longleftrightarrow> has_prefix (p @ ?rest) (code @ ''|'') \<or> go_contains (p @ ?rest) (''|'' @ code @ ''|'')"
    by (simp add: sql_has_def render_col_def go_contains_Cons)
  also have "has_prefix (p @ ?rest) (code @ ''|'') \<longleftrightarrow> p = code"
    using Cons.prems assms(2) has_prefix_sep[of "CHR ''|''" p code "render_col ps"] by simp
  also have "go_contains (p @ ?rest) (''|'' @ code @ ''|'') \<longleftrightarrow> sql_has (render_col ps) code"
    using Cons.prems go_contains_skip[of "CHR ''|''" p "?rest" "code @ ''|''"]
    by (simp add: sql_has_def)
  finally show ?case using Cons by auto
qed

text \<open>A code of one letter is in the Go set exactly if it is in the column for that letter.\<close>

lemma codes_of_cols:
  assumes "list_all (code_ok LA) as" "list_all (code_ok LB) bs" "list_all (code_ok LD) ds"
  shows "set (codes_of (render_col as) (render_col bs) (render_col ds)) = set as \<union> set bs \<union> set ds"
proof -
  have s: "split_on (CHR ''|'') (render_col ps) = ps @ [[]]" if "list_all (code_ok L) ps" for L ps
    using that by (intro split_render_col) (auto simp: code_ok_def list_all_iff)
  have ne: "p \<noteq> []" if "list_all (code_ok L) ps" "p \<in> set ps" for L ps p
    using that by (auto simp: code_ok_def list_all_iff)
  have "set (codes_of (render_col as) (render_col bs) (render_col ds))
      = {c \<in> set as \<union> set bs \<union> set ds. c \<noteq> []}"
    by (simp add: codes_of_def s[OF assms(1)] s[OF assms(2)] s[OF assms(3)]) blast
  with ne[OF assms(1)] ne[OF assms(2)] ne[OF assms(3)] show ?thesis by blast
qed

lemma sql_has_col:
  assumes "list_all (code_ok L) ps" "CHR ''|'' \<notin> set code"
  shows "sql_has (render_col ps) code \<longleftrightarrow> code \<in> set ps"
  using assms by (intro sql_has_render_col) (auto simp: code_ok_def list_all_iff)

lemma codeRange_letter: "c \<in> set (codeRange l bs) \<Longrightarrow> \<exists>n. c = l # show_nat n"
  by (induction l bs rule: codeRange.induct) auto

lemma eroticGenres_ok: "c \<in> set eroticGenres \<Longrightarrow> hd c = CHR ''d'' \<and> CHR ''|'' \<notin> set c"
  by (auto simp: eroticGenres_def is_digit_def dest!: codeRange_letter show_nat_set)

lemma sql_anyOf_eroticGenres:
  assumes "list_all (code_ok L) ds"
  shows "sql_anyOf (render_col ds) eroticGenres \<longleftrightarrow> list_ex (\<lambda>c. c \<in> set ds) eroticGenres"
  unfolding sql_anyOf_def list_ex_iff
  using sql_has_col[OF assms] eroticGenres_ok by blast

lemma KindOf_kindCaseSQL:
  assumes "col_ok {CHR ''a''} a" "col_ok {CHR ''b''} b" "col_ok {CHR ''d'', CHR ''z''} d"
  shows "KindOf category a b d = kindCaseSQL category a b d"
proof -
  obtain as bs ds where cols: "a = render_col as" "b = render_col bs" "d = render_col ds"
    and ok: "list_all (code_ok {CHR ''a''}) as" "list_all (code_ok {CHR ''b''}) bs"
      "list_all (code_ok {CHR ''d'', CHR ''z''}) ds"
    using assms by (auto simp: col_ok_def)
  have codes: "set (codes_of a b d) = set as \<union> set bs \<union> set ds"
    using codes_of_cols[OF ok] by (simp add: cols)
  have na: "c \<notin> set as" if "hd c \<noteq> CHR ''a''" for c
    using ok(1) that by (auto simp: list_all_iff code_ok_def)
  have nb: "c \<notin> set bs" if "hd c \<noteq> CHR ''b''" for c
    using ok(2) that by (auto simp: list_all_iff code_ok_def)
  have nd: "c \<notin> set ds" if "hd c \<noteq> CHR ''d''" "hd c \<noteq> CHR ''z''" for c
    using ok(3) that by (auto simp: list_all_iff code_ok_def)
  have er: "list_ex (\<lambda>c. c \<in> set as \<or> c \<in> set bs \<or> c \<in> set ds) eroticGenres
      \<longleftrightarrow> list_ex (\<lambda>c. c \<in> set ds) eroticGenres"
    unfolding list_ex_iff using eroticGenres_ok na nb by fastforce
  have sqla: "sql_has a c \<longleftrightarrow> c \<in> set as" if "CHR ''|'' \<notin> set c" for c
    using sql_has_col[OF ok(1) that] by (simp add: cols)
  have sqlb: "sql_has b c \<longleftrightarrow> c \<in> set bs" if "CHR ''|'' \<notin> set c" for c
    using sql_has_col[OF ok(2) that] by (simp add: cols)
  have sqld: "sql_has d c \<longleftrightarrow> c \<in> set ds" if "CHR ''|'' \<notin> set c" for c
    using sql_has_col[OF ok(3) that] by (simp add: cols)
  have sqle: "sql_anyOf d eroticGenres \<longleftrightarrow> list_ex (\<lambda>c. c \<in> set ds) eroticGenres"
    using sql_anyOf_eroticGenres[OF ok(3)] by (simp add: cols)
  have books: "sql_anyOf a bookCodes \<longleftrightarrow> ''a5'' \<in> set as \<or> ''a11'' \<in> set as"
    and pics: "sql_anyOf a pictureCodes \<longleftrightarrow> ''a12'' \<in> set as \<or> ''a13'' \<in> set as"
    by (simp_all add: sql_anyOf_def bookCodes_def pictureCodes_def sqla)
  have go: "list_ex (\<lambda>c. c \<in> set as \<or> c \<in> set bs \<or> c \<in> set ds) seriesCodes
        \<longleftrightarrow> ''b4'' \<in> set bs \<or> ''d11'' \<in> set ds"
    "list_ex (\<lambda>c. c \<in> set as \<or> c \<in> set bs \<or> c \<in> set ds) bookCodes
        \<longleftrightarrow> ''a5'' \<in> set as \<or> ''a11'' \<in> set as"
    "list_ex (\<lambda>c. c \<in> set as \<or> c \<in> set bs \<or> c \<in> set ds) pictureCodes
        \<longleftrightarrow> ''a12'' \<in> set as \<or> ''a13'' \<in> set as"
    by (simp_all add: seriesCodes_def bookCodes_def pictureCodes_def na nb nd)
  show ?thesis
    by (simp add: KindOf_def kindCaseSQL_def codes er go sqle books pics Let_def sqlb sqld na nb kind_defs)
qed

end
