(* ===== verification/Text.thy ===== *)
theory Text
  imports Base64
begin

text \<open>
  Text encodings: UTF-8 as \<open>unicode/utf8\<close> validates and writes it, the encoded words of RFC 2047
  as \<open>mime.WordDecoder\<close> reads them, Windows-1252 (\<open>internal/spotnet/text.go\<close>) and the copy of its
  table in \<open>internal/db/migrations.go\<close>.
\<close>

section \<open>UTF-8\<close>

abbreviation byte :: "char \<Rightarrow> nat" where "byte c \<equiv> of_char c"

definition is_cont :: "char \<Rightarrow> bool" where
  "is_cont c \<longleftrightarrow> 0x80 \<le> byte c \<and> byte c \<le> 0xBF"

text \<open>The second byte's range depends on the first: no overlong forms, no surrogates, no code
  point above U+10FFFF.\<close>

definition lead2 :: "char \<Rightarrow> char \<Rightarrow> bool" where
  "lead2 a b \<longleftrightarrow> 0xC2 \<le> byte a \<and> byte a \<le> 0xDF \<and> is_cont b"

definition lead3 :: "char \<Rightarrow> char \<Rightarrow> bool" where
  "lead3 a b \<longleftrightarrow>
     (byte a = 0xE0 \<and> 0xA0 \<le> byte b \<and> byte b \<le> 0xBF) \<or>
     (0xE1 \<le> byte a \<and> byte a \<le> 0xEC \<and> is_cont b) \<or>
     (byte a = 0xED \<and> 0x80 \<le> byte b \<and> byte b \<le> 0x9F) \<or>
     (0xEE \<le> byte a \<and> byte a \<le> 0xEF \<and> is_cont b)"

definition lead4 :: "char \<Rightarrow> char \<Rightarrow> bool" where
  "lead4 a b \<longleftrightarrow>
     (byte a = 0xF0 \<and> 0x90 \<le> byte b \<and> byte b \<le> 0xBF) \<or>
     (0xF1 \<le> byte a \<and> byte a \<le> 0xF3 \<and> is_cont b) \<or>
     (byte a = 0xF4 \<and> 0x80 \<le> byte b \<and> byte b \<le> 0x8F)"

text \<open>The length of the valid rune a string starts with; 0 when it starts with none.\<close>

definition rune_len :: "string \<Rightarrow> nat" where
  "rune_len s =
     (case s of
        [] \<Rightarrow> 0
      | a # t \<Rightarrow>
          if byte a < 0x80 then 1
          else case t of
                 [] \<Rightarrow> 0
               | b # u \<Rightarrow>
                   if lead2 a b then 2
                   else case u of
                          [] \<Rightarrow> 0
                        | c # v \<Rightarrow>
                            if lead3 a b \<and> is_cont c then 3
                            else case v of
                                   [] \<Rightarrow> 0
                                 | d # _ \<Rightarrow> if lead4 a b \<and> is_cont c \<and> is_cont d then 4 else 0)"

function utf8_valid :: "string \<Rightarrow> bool" where
  "utf8_valid s =
     (if s = [] then True
      else if rune_len s = 0 then False
      else utf8_valid (drop (rune_len s) s))"
  by pat_completeness auto
termination
  by (relation "measure length") auto

declare utf8_valid.simps [simp del]

text \<open>\<open>WriteRune\<close>: a surrogate or a code point out of range is written as U+FFFD.\<close>

definition write_rune :: "nat \<Rightarrow> string" where
  "write_rune r =
     (if r < 0x80 then [char_of r]
      else if r < 0x800 then [char_of (0xC0 + r div 64), char_of (0x80 + r mod 64)]
      else if 0x10FFFF < r \<or> 0xD800 \<le> r \<and> r \<le> 0xDFFF
           then [CHR 0xEF, CHR 0xBF, CHR 0xBD]
      else if r < 0x10000
           then [char_of (0xE0 + r div 4096), char_of (0x80 + r div 64 mod 64), char_of (0x80 + r mod 64)]
      else [char_of (0xF0 + r div 262144), char_of (0x80 + r div 4096 mod 64),
            char_of (0x80 + r div 64 mod 64), char_of (0x80 + r mod 64)])"

section \<open>Windows-1252\<close>

definition cp1252High :: "nat list" where
  "cp1252High =
    [0x20AC, 0x81, 0x201A, 0x0192, 0x201E, 0x2026, 0x2020, 0x2021,
     0x02C6, 0x2030, 0x0160, 0x2039, 0x0152, 0x8D, 0x017D, 0x8F,
     0x90, 0x2018, 0x2019, 0x201C, 0x201D, 0x2022, 0x2013, 0x2014,
     0x02DC, 0x2122, 0x0161, 0x203A, 0x0153, 0x9D, 0x017E, 0x0178]"

definition cp1252_rune :: "char \<Rightarrow> string" where
  "cp1252_rune c =
     (if byte c < 0x80 then [c]
      else if byte c < 0xA0 then write_rune (cp1252High ! (byte c - 0x80))
      else write_rune (byte c))"

definition Windows1252ToUTF8 :: "string \<Rightarrow> string" where
  "Windows1252ToUTF8 b = concat (map cp1252_rune b)"

section \<open>RFC 2047 (package mime)\<close>

definition hex_val :: "char \<Rightarrow> nat option" where
  "hex_val c =
     (if 48 \<le> byte c \<and> byte c \<le> 57 then Some (byte c - 48)
      else if 65 \<le> byte c \<and> byte c \<le> 70 then Some (byte c - 65 + 10)
      else if 97 \<le> byte c \<and> byte c \<le> 102 then Some (byte c - 97 + 10)
      else None)"

fun q_decode :: "string \<Rightarrow> string option" where
  "q_decode [] = Some []"
| "q_decode (c # s) =
     (if c = CHR ''_'' then map_option (Cons (CHR '' '')) (q_decode s)
      else if c = CHR ''=''
           then (case s of
                   a # b # t \<Rightarrow>
                     (case (hex_val a, hex_val b) of
                        (Some x, Some y) \<Rightarrow> map_option (Cons (char_of (x * 16 + y))) (q_decode t)
                      | _ \<Rightarrow> None)
                 | _ \<Rightarrow> None)
      else if 0x20 \<le> byte c \<and> byte c \<le> 0x7E \<or> c = CHR 0x0A \<or> c = CHR 0x0D \<or> c = CHR 0x09
           then map_option (Cons c) (q_decode s)
      else None)"

definition decode_word :: "char \<Rightarrow> string \<Rightarrow> string option" where
  "decode_word enc s =
     (if enc = CHR ''B'' \<or> enc = CHR ''b'' then b64_decode s
      else if enc = CHR ''Q'' \<or> enc = CHR ''q'' then q_decode s
      else None)"

text \<open>\<open>strings.EqualFold\<close> with a lower-case ASCII text: besides the ASCII letters, U+017F folds to
  \<open>s\<close> and U+212A to \<open>k\<close>.\<close>

function fold_key :: "string \<Rightarrow> string" where
  "fold_key s =
     (case s of
        [] \<Rightarrow> []
      | a # t \<Rightarrow>
          if has_prefix s [CHR 0xC5, CHR 0xBF] then CHR ''s'' # fold_key (drop 1 t)
          else if has_prefix s [CHR 0xE2, CHR 0x84, CHR 0xAA] then CHR ''k'' # fold_key (drop 2 t)
          else lower_char a # fold_key t)"
  by pat_completeness auto
termination
  by (relation "measure length") (auto simp: le_imp_less_Suc)

declare fold_key.simps [simp del]

text \<open>\<open>WordDecoder.convert\<close> with the \<open>CharsetReader\<close> of \<open>wordDecoder\<close>; \<open>None\<close> is the error.\<close>

definition convert_charset :: "string \<Rightarrow> string \<Rightarrow> string option" where
  "convert_charset charset content =
     (if fold_key charset = ''utf-8'' then Some content
      else if fold_key charset = ''iso-8859-1'' then Some (concat (map (\<lambda>c. write_rune (byte c)) content))
      else if fold_key charset = ''us-ascii''
           then Some (concat (map (\<lambda>c. if 0x80 \<le> byte c then write_rune 0xFFFD else [c]) content))
      else if to_lower charset \<in> {''windows-1252'', ''cp1252'', ''iso-8859-15'', ''latin1''}
           then Some (Windows1252ToUTF8 content)
      else None)"

definition has_non_white :: "string \<Rightarrow> bool" where
  "has_non_white s = list_ex (\<lambda>c. c \<notin> {CHR '' '', CHR 0x09, CHR 0x0A, CHR 0x0D}) s"

text \<open>
  The parts of the encoded word at the first \<open>=?\<close> of a text: where it starts, its charset,
  encoding and text, and what follows it. \<open>None\<close> where the loop of \<open>DecodeHeader\<close> breaks.
\<close>

definition scan_word :: "string \<Rightarrow> (nat \<times> string \<times> char \<times> string \<times> string) option" where
  "scan_word header =
     (case go_index header ''=?'' of
        None \<Rightarrow> None
      | Some start \<Rightarrow>
          let r = drop (start + 2) header
          in case go_index r ''?'' of
               None \<Rightarrow> None
             | Some i \<Rightarrow>
                 let charset = take i r; r2 = drop (i + 1) r
                 in if length r2 < 4 \<or> r2 ! 1 \<noteq> CHR ''?'' then None
                    else case go_index (drop 2 r2) ''?='' of
                           None \<Rightarrow> None
                         | Some j \<Rightarrow> Some (start, charset, r2 ! 0, take j (drop 2 r2), drop (j + 4) r2))"

lemma scan_word_start: "scan_word h = Some (start, cs, e, txt, rest) \<Longrightarrow> h \<noteq> [] \<and> length rest < length h"
  by (cases h) (auto simp: scan_word_def Let_def split: option.splits if_splits)

function decode_header_loop :: "string \<Rightarrow> bool \<Rightarrow> string \<Rightarrow> string option" where
  "decode_header_loop buf betweenWords header =
     (case scan_word header of
        None \<Rightarrow> Some (buf @ header)
      | Some (start, charset, encoding, txt, rest) \<Rightarrow>
          (case decode_word encoding txt of
             None \<Rightarrow> decode_header_loop (buf @ take (start + 2) header) False (drop (start + 2) header)
           | Some content \<Rightarrow>
               let pre = (if 0 < start \<and> (\<not> betweenWords \<or> has_non_white (take start header))
                          then take start header else [])
               in case convert_charset charset content of
                    None \<Rightarrow> None
                  | Some txt' \<Rightarrow> decode_header_loop (buf @ pre @ txt') True rest))"
  by pat_completeness auto
termination
  by (relation "measure (\<lambda>(buf, b, h). length h)")
    (auto dest: scan_word_start intro!: diff_less)

declare decode_header_loop.simps [simp del]

definition mime_decode_header :: "string \<Rightarrow> string option" where
  "mime_decode_header header =
     (case go_index header ''=?'' of
        None \<Rightarrow> Some header
      | Some i \<Rightarrow> decode_header_loop (take i header) False (drop i header))"

definition DecodeHeaderText :: "string \<Rightarrow> string" where
  "DecodeHeaderText s =
     (let s1 = (if go_contains s ''=?''
                then (case mime_decode_header s of Some d \<Rightarrow> d | None \<Rightarrow> s) else s)
      in if \<not> utf8_valid s1 then Windows1252ToUTF8 s1 else s1)"

section \<open>The repair of migration 6\<close>

text \<open>\<open>toUTF8\<close> of \<open>internal/db/migrations.go\<close> with its own copy of the table.\<close>

definition toUTF8_high :: "nat list" where
  "toUTF8_high =
    [0x20AC, 0x81, 0x201A, 0x0192, 0x201E, 0x2026, 0x2020, 0x2021,
     0x02C6, 0x2030, 0x0160, 0x2039, 0x0152, 0x8D, 0x017D, 0x8F,
     0x90, 0x2018, 0x2019, 0x201C, 0x201D, 0x2022, 0x2013, 0x2014,
     0x02DC, 0x2122, 0x0161, 0x203A, 0x0153, 0x9D, 0x017E, 0x0178]"

fun toUTF8_loop :: "string \<Rightarrow> string \<Rightarrow> string" where
  "toUTF8_loop sb [] = sb"
| "toUTF8_loop sb (c # cs) =
     (if byte c < 0x80 then toUTF8_loop (sb @ [c]) cs
      else if byte c < 0xA0 then toUTF8_loop (sb @ write_rune (toUTF8_high ! (byte c - 0x80))) cs
      else toUTF8_loop (sb @ write_rune (byte c)) cs)"

definition toUTF8 :: "string \<Rightarrow> string" where
  "toUTF8 b = (if utf8_valid b then b else toUTF8_loop [] b)"

section \<open>Lemmas\<close>

lemma utf8_valid_Nil [simp]: "utf8_valid []"
  by (simp add: utf8_valid.simps)

lemma utf8_valid_step:
  "rune_len s \<noteq> 0 \<Longrightarrow> utf8_valid s = utf8_valid (drop (rune_len s) s)"
  by (subst utf8_valid.simps) (auto simp: rune_len_def)

lemma rune_len_append: "rune_len r = length r \<Longrightarrow> r \<noteq> [] \<Longrightarrow> rune_len (r @ s) = length r"
  unfolding rune_len_def by (auto split: list.splits if_splits)

text \<open>A whole rune in front does not change validity.\<close>

lemma utf8_valid_rune: "rune_len r = length r \<Longrightarrow> r \<noteq> [] \<Longrightarrow> utf8_valid (r @ s) = utf8_valid s"
  using utf8_valid_step[of "r @ s"] rune_len_append[of r s] by simp

lemma utf8_valid_ascii: "byte c < 0x80 \<Longrightarrow> utf8_valid (c # s) = utf8_valid s"
  using utf8_valid_rune[of "[c]" s] by (simp add: rune_len_def)

lemma rune_len_write_rune2:
  assumes "0x80 \<le> r" "r < 0x800"
  shows "rune_len (write_rune r) = 2"
proof -
  have "r div 64 < 32" "2 \<le> r div 64" using assms by (simp_all add: less_mult_imp_div_less) 
  then show ?thesis
    using assms by (simp add: rune_len_def write_rune_def lead2_def is_cont_def of_char_of)
qed

definition one_rune :: "string \<Rightarrow> bool" where
  "one_rune r \<longleftrightarrow> r \<noteq> [] \<and> rune_len r = length r"

lemma utf8_valid_one_rune: "one_rune r \<Longrightarrow> utf8_valid (r @ s) = utf8_valid s"
  by (simp add: one_rune_def utf8_valid_rune)

lemma one_rune_latin1: "0x80 \<le> r \<Longrightarrow> r < 0x800 \<Longrightarrow> one_rune (write_rune r)"
  using rune_len_write_rune2[of r] by (simp add: one_rune_def write_rune_def)

lemma mod_64_le: "n mod 64 \<le> (63 :: nat)"
  using mod_less_divisor[of 64 n] by linarith

lemma one_rune_wide:
  assumes "0x1000 \<le> r" "r < 0xD000"
  shows "one_rune (write_rune r)"
proof -
  have "1 \<le> r div 4096" "r div 4096 < 13" using assms by (simp_all add: less_mult_imp_div_less)
  then show ?thesis
    using assms
    by (simp add: one_rune_def rune_len_def write_rune_def lead2_def lead3_def is_cont_def of_char_of
        mod_64_le)
qed

lemma one_rune_cp1252High: "list_all (\<lambda>r. one_rune (write_rune r)) cp1252High"
  unfolding cp1252High_def by (simp add: one_rune_latin1 one_rune_wide)

lemma one_rune_cp1252: "one_rune (cp1252_rune c)"
proof -
  consider "byte c < 0x80" | "0x80 \<le> byte c" "byte c < 0xA0" | "0xA0 \<le> byte c"
    by linarith
  then show ?thesis
  proof cases
    case 1
    then show ?thesis by (simp add: cp1252_rune_def one_rune_def rune_len_def)
  next
    case 2
    then have "byte c - 0x80 < length cp1252High" by (simp add: cp1252High_def)
    with one_rune_cp1252High have "one_rune (write_rune (cp1252High ! (byte c - 0x80)))"
      by (simp add: list_all_length)
    with 2 show ?thesis by (simp add: cp1252_rune_def)
  next
    case 3
    moreover have "byte c < 0x800" using of_char_lt[of c] by linarith
    ultimately show ?thesis using one_rune_latin1[of "byte c"] by (simp add: cp1252_rune_def)
  qed
qed

lemma utf8_valid_Windows1252: "utf8_valid (Windows1252ToUTF8 b)"
  unfolding Windows1252ToUTF8_def
  by (induction b) (simp_all add: utf8_valid_one_rune[OF one_rune_cp1252])

lemma Windows1252_ascii: "list_all (\<lambda>c. byte c < 0x80) b \<Longrightarrow> Windows1252ToUTF8 b = b"
  by (induction b) (auto simp: Windows1252ToUTF8_def cp1252_rune_def)

lemma toUTF8_loop_Windows1252: "toUTF8_loop sb b = sb @ Windows1252ToUTF8 b"
proof -
  have "toUTF8_high = cp1252High" by (simp add: toUTF8_high_def cp1252High_def)
  then show ?thesis
    by (induction sb b rule: toUTF8_loop.induct) (auto simp: Windows1252ToUTF8_def cp1252_rune_def)
qed

lemma utf8_valid_DecodeHeaderText: "utf8_valid (DecodeHeaderText s)"
  by (simp add: DecodeHeaderText_def Let_def utf8_valid_Windows1252)

section \<open>Properties\<close>

text \<open>C25: whatever bytes a Subject or From header carries, in whatever charset or encoding it claims
  (broken or hostile encoded words included), \<open>DecodeHeaderText\<close> returns valid UTF-8, which is what
  the JSON and RSS writers downstream need; and a header that already is valid UTF-8 without an
  encoded word is returned byte for byte.\<close>

theorem DecodeHeaderText_valid_utf8:
  "utf8_valid (DecodeHeaderText s)
   \<and> (utf8_valid t \<and> \<not> go_contains t ''=?'' \<longrightarrow> DecodeHeaderText t = t)"
  using utf8_valid_DecodeHeaderText by (simp add: DecodeHeaderText_def Let_def)

theorem DecodeHeaderText_valid_utf8_witness:
  "utf8_valid (DecodeHeaderText ''=?UTF-8?Q?a=FFb?='')
   \<and> DecodeHeaderText ''=?UTF-8?Q?a=FFb?='' = [CHR ''a'', CHR 0xC3, CHR 0xBF, CHR ''b'']
   \<and> DecodeHeaderText [CHR ''d'', CHR 0xC3, CHR 0xA9] = [CHR ''d'', CHR 0xC3, CHR 0xA9]"
proof -
  have "utf8_valid [CHR ''d'', CHR 0xC3, CHR 0xA9] \<and> \<not> go_contains [CHR ''d'', CHR 0xC3, CHR 0xA9] ''=?''"
    by code_simp
  moreover have "DecodeHeaderText ''=?UTF-8?Q?a=FFb?='' = [CHR ''a'', CHR 0xC3, CHR 0xBF, CHR ''b'']"
    by code_simp
  ultimately show ?thesis
    using DecodeHeaderText_valid_utf8[of "''=?UTF-8?Q?a=FFb?=''" "[CHR ''d'', CHR 0xC3, CHR 0xA9]"]
    by simp
qed

text \<open>The two copies of the decoder agree: what migration 6 (\<open>toUTF8\<close>) stores for a title is
  exactly what the parser stores for the same bytes today when they hold no encoded word, the result
  is valid UTF-8, and running the repair twice changes nothing.\<close>

theorem toUTF8_agrees_with_parser:
  "utf8_valid (toUTF8 b) \<and> toUTF8 (toUTF8 b) = toUTF8 b
   \<and> (go_contains b ''=?'' \<or> toUTF8 b = DecodeHeaderText b)"
  by (simp add: toUTF8_def toUTF8_loop_Windows1252 utf8_valid_Windows1252 DecodeHeaderText_def)

end
