(* ===== verification/Parser.thy ===== *)
theory Parser
  imports Nntp Kind Text Moderation
begin

text \<open>
  \<open>internal/spotnet/parser.go\<close>: from an overview line to a spot, and from an article's headers or
  body to its details. \<open>time.Now()\<close> is the argument \<open>now\<close>; \<open>xml.Unmarshal\<close> into \<open>SpotXML\<close> and the
  inflater of \<open>compress/flate\<close> are the arguments \<open>xml_spot\<close> and \<open>inflate\<close> of the functions that
  use them.
\<close>

section \<open>The spot (db.Spot)\<close>

record Spot =
  sp_ID :: int
  sp_MessageID :: string
  sp_ArticleNum :: int
  sp_Title :: string
  sp_Description :: string
  sp_Poster :: string
  sp_PostedAt :: gotime
  sp_Tag :: string
  sp_NzbID :: string
  sp_Category :: int
  sp_SubCatA :: string
  sp_SubCatB :: string
  sp_SubCatC :: string
  sp_SubCatD :: string
  sp_Size :: int
  sp_ImageURL :: string
  sp_Verified :: bool
  sp_Moderated :: bool
  sp_IsAdult :: bool
  sp_SpotterID :: string
  sp_Kind :: int
  sp_KeyID :: int
  sp_HeaderPart :: string
  sp_HeaderSig :: string
  sp_SelfSignedKey :: string

datatype parse_error =
    NoAngleBrackets string
  | NoAtSign string
  | TooFewFields nat
  | ShortCategory string
  | InvalidCategory int
  | NoPostDate

section \<open>Subcategories\<close>

definition isDigit :: "char \<Rightarrow> bool" where
  "isDigit c \<longleftrightarrow> is_digit c"

definition subcat_letters :: "char set" where
  "subcat_letters = {CHR ''a'', CHR ''b'', CHR ''c'', CHR ''d'', CHR ''z''}"

type_synonym subcats = "string \<times> string \<times> string \<times> string"

text \<open>The flush of \<open>tmp\<close>: its first byte is the key, the rest the number (\<open>Atoi\<close>'s value, whatever
  its error).\<close>

definition flush_subcat :: "string \<Rightarrow> subcats \<Rightarrow> subcats" where
  "flush_subcat tmp s =
     (case s of
        (a, b, c, d) \<Rightarrow>
          if hd tmp \<in> subcat_letters
          then let val = hd tmp # show_int (fst (parse_int (tl tmp))) @ ''|''
               in if hd tmp = CHR ''a'' then (a @ val, b, c, d)
                  else if hd tmp = CHR ''b'' then (a, b @ val, c, d)
                  else if hd tmp = CHR ''c'' then (a, b, c @ val, d)
                  else (a, b, c, d @ val)
          else (a, b, c, d))"

fun subcats_loop :: "string \<Rightarrow> subcats \<Rightarrow> string \<Rightarrow> subcats" where
  "subcats_loop tmp s [] = s"
| "subcats_loop tmp s (c # cs) =
     (let flush = \<not> isDigit c \<and> tmp \<noteq> [];
          s1 = (if flush then flush_subcat tmp s else s);
          tmp1 = (if flush then [] else tmp);
          tmp2 = (if c \<noteq> CHR ''!'' then tmp1 @ write_rune (byte c) else tmp1)
      in subcats_loop tmp2 s1 cs)"

definition parseSubCats :: "string \<Rightarrow> subcats" where
  "parseSubCats s = subcats_loop [] ([], [], [], []) s"

section \<open>Subjects\<close>

definition unescapePipe :: "string \<Rightarrow> string" where
  "unescapePipe s = replace_all s ''&#124;'' ''|''"

lemma go_index_length: "go_index s p = Some i \<Longrightarrow> i + length p \<le> length s"
proof -
  assume "go_index s p = Some i"
  then have "i \<le> length s" and "has_prefix (drop i s) p" by (auto dest: go_index_Some)
  then obtain t where "drop i s = p @ t" by (auto simp: has_prefix_iff)
  then have "length (drop i s) = length p + length t" by simp
  with \<open>i \<le> length s\<close> show ?thesis by simp
qed

text \<open>The loop of \<open>stripRFC2047\<close>; each turn removes two bytes at least.\<close>

function strip_words :: "string \<Rightarrow> string" where
  "strip_words s =
     (case go_index s ''=?'' of
        None \<Rightarrow> s
      | Some start \<Rightarrow>
          if \<not> go_contains s ''?='' then s
          else (case go_index (drop start s) ''?='' of
                  None \<Rightarrow> s
                | Some e \<Rightarrow> strip_words (take start s @ drop (start + e + 2) s)))"
  by pat_completeness auto

termination
proof (relation "measure length")
  fix s start e
  assume "go_index s ''=?'' = Some start" and "go_index (drop start s) ''?='' = Some e"
  then have "start + 2 \<le> length s" "e + 2 \<le> length s - start"
    by (auto dest!: go_index_length)
  then show "(take start s @ drop (start + e + 2) s, s) \<in> measure length" by simp
qed simp

declare strip_words.simps [simp del]

definition stripRFC2047 :: "string \<Rightarrow> string" where
  "stripRFC2047 s = trim_space (strip_words s)"

definition parseSubject :: "string \<Rightarrow> bool \<Rightarrow> string \<times> string" where
  "parseSubject subj0 isLegacy =
     (let subj = (if go_contains subj0 ''=?'' then stripRFC2047 subj0 else subj0);
          parts = split_on (CHR ''|'') subj;
          n = length parts;
          (title, tag) =
            (if isLegacy
             then if 2 \<le> n
                  then let t = trim_space (go_join (take (n - 2) parts) ''|'')
                       in (if t = [] then trim_space (parts ! 0) else t, trim_space (parts ! (n - 1)))
                  else (trim_space subj, [])
             else (trim_space (parts ! 0), if 1 < n then trim_space (parts ! 1) else []))
      in (unescapePipe title, unescapePipe tag))"

section \<open>Post dates\<close>

definition spotnetEpoch :: gotime where "spotnetEpoch = unix_time 946684800"
definition maxClockSkew :: duration where "maxClockSkew = 48 * hour"

definition plausibleSpotTime :: "gotime \<Rightarrow> gotime \<Rightarrow> bool" where
  "plausibleSpotTime now t = (if t = zero_time then False else spotnetEpoch < t \<and> t < now + maxClockSkew)"

definition resolvePostedAt :: "gotime \<Rightarrow> string \<Rightarrow> gotime \<Rightarrow> gotime option" where
  "resolvePostedAt now stampField headerDate =
     (case parse_int (trim_space stampField) of
        (unix, err) \<Rightarrow>
          if err = None \<and> 0 < unix \<and> plausibleSpotTime now (unix_time unix) then Some (unix_time unix)
          else if plausibleSpotTime now headerDate then Some headerDate
          else None)"

section \<open>Overview to spot\<close>

text \<open>\<open>int(b-'0')\<close> on a byte: the subtraction wraps around at 256.\<close>

definition byte_digit :: "char \<Rightarrow> int" where
  "byte_digit c = (int (byte c) - 48) mod 256"

text \<open>The angle brackets and the at sign: the display name, what stands before the at sign, and the
  dot-separated part after it.\<close>

definition split_from :: "string \<Rightarrow> parse_error + (string \<times> string \<times> string)" where
  "split_from from =
     (case (last_index from ''<'', last_index from ''>'') of
        (Some ltIdx, Some gtIdx) \<Rightarrow>
          if gtIdx \<le> ltIdx then Inl (NoAngleBrackets from)
          else let addr = take (gtIdx - (ltIdx + 1)) (drop (ltIdx + 1) from)
               in (case last_index addr ''@'' of
                     None \<Rightarrow> Inl (NoAtSign addr)
                   | Some atIdx \<Rightarrow> Inr (take ltIdx from, take atIdx addr, drop (atIdx + 1) addr))
      | _ \<Rightarrow> Inl (NoAngleBrackets from))"

text \<open>The spot built from the checked parts.\<close>

definition build_spot ::
  "ArticleInfo \<Rightarrow> string list \<Rightarrow> string \<Rightarrow> string \<Rightarrow> string \<Rightarrow> int \<Rightarrow> int \<Rightarrow> gotime \<Rightarrow> Spot" where
  "build_spot ai fs headerPart selfSigned posterName category keyID postedAt =
     (let isLegacy = (keyID = 1);
          (subA, subB, subC, subD) = parseSubCats (to_lower (drop 2 (fs ! 0)) @ ''!!!'');
          (shownTitle, shownTag) = parseSubject (DecodeHeaderText (ai_Subject ai)) isLegacy;
          kind = KindOf category subA subB subD
      in \<lparr>sp_ID = 0, sp_MessageID = ai_MessageID ai, sp_ArticleNum = ai_ArticleNum ai,
          sp_Title = shownTitle, sp_Description = [], sp_Poster = DecodeHeaderText posterName,
          sp_PostedAt = postedAt, sp_Tag = shownTag, sp_NzbID = [], sp_Category = category,
          sp_SubCatA = subA, sp_SubCatB = subB, sp_SubCatC = subC, sp_SubCatD = subD,
          sp_Size = fst (parse_int (fs ! 1)), sp_ImageURL = [], sp_Verified = False,
          sp_Moderated = False, sp_IsAdult = (kind = KindErotic), sp_SpotterID = [], sp_Kind = kind,
          sp_KeyID = keyID, sp_HeaderPart = headerPart, sp_HeaderSig = fs ! (length fs - 1),
          sp_SelfSignedKey = selfSigned\<rparr>)"

definition ParseFromOverview :: "gotime \<Rightarrow> ArticleInfo \<Rightarrow> parse_error + (Spot \<times> bool)" where
  "ParseFromOverview now ai =
     (case split_from (ai_From ai) of
        Inl e \<Rightarrow> Inl e
      | Inr (display, before, headerPart) \<Rightarrow>
          let fs = split_on (CHR ''.'') headerPart
          in if length fs < 6 then Inl (TooFewFields (length fs))
             else let selfSigned = (if before \<noteq> [] then UnprepareBase64 (split_on (CHR ''.'') before ! 0) else [])
                  in if length (fs ! 0) < 2 then Inl (ShortCategory (fs ! 0))
                     else let category = byte_digit (fs ! 0 ! 0) - 1
                          in if category < 0 \<or> 3 < category then Inl (InvalidCategory (category + 1))
                             else let keyID = byte_digit (fs ! 0 ! 1);
                                      posterName = trim_space display;
                                      (title, _) = parseSubject (ai_Subject ai) (keyID = 1)
                                  in (case resolvePostedAt now (fs ! 3) (ai_Date ai) of
                                        None \<Rightarrow> Inl NoPostDate
                                      | Some postedAt \<Rightarrow>
                                          Inr (build_spot ai fs headerPart selfSigned posterName category keyID postedAt,
                                               VerifyHeader title headerPart posterName
                                                 (fs ! (length fs - 1)) keyID)))"

section \<open>Article bodies\<close>

definition sanitizeXML :: "string \<Rightarrow> string" where
  "sanitizeXML b0 =
     (let b = (if \<not> utf8_valid b0 then Windows1252ToUTF8 b0 else b0)
      in case go_index b ''?>'' of
           Some idx \<Rightarrow> if has_prefix b ''<?xml'' then trim_space (drop (idx + 2) b) else b
         | None \<Rightarrow> b)"

definition unspecialZipStr :: "string \<Rightarrow> string" where
  "unspecialZipStr s =
     (let s1 = replace_all s ''=C'' [CHR 0x0A];
          s2 = replace_all s1 ''=B'' [CHR 0x0D];
          s3 = replace_all s2 ''=A'' [CHR 0x00]
      in replace_all s3 ''=D'' ''='')"

definition DecodeImageBody :: "string \<Rightarrow> string" where
  "DecodeImageBody body = unspecialZipStr body"

definition DefaultMaxNZBBytes :: int where "DefaultMaxNZBBytes = 64 * 1048576"

datatype nzb_error = NZBTooLarge | InflateFailed

text \<open>
  \<open>inflate\<close> is the raw inflater: what it produces from a compressed text, and whether it then stops
  with an error. \<open>io.ReadAll(io.LimitReader(r, n))\<close> reads at most \<open>n\<close> bytes of it and meets the error
  only when it comes before the limit.
\<close>

definition read_limited :: "string \<times> bool \<Rightarrow> int \<Rightarrow> string \<times> bool" where
  "read_limited stream n =
     (case stream of (dat, fails) \<Rightarrow>
        (take (nat n) dat, fails \<and> int (length dat) < n))"

definition DecodeNZBBodyLimit ::
  "(string \<Rightarrow> string \<times> bool) \<Rightarrow> string \<Rightarrow> int \<Rightarrow> nzb_error + string" where
  "DecodeNZBBodyLimit inflate body maxBytes0 =
     (let maxBytes = (if maxBytes0 \<le> 0 then DefaultMaxNZBBytes else maxBytes0);
          compressed = unspecialZipStr body
      in case read_limited (inflate compressed) (wrap64 (maxBytes + 1)) of
           (res, err) \<Rightarrow>
             if maxBytes < int (length res) then Inl NZBTooLarge
             else if err
             then if has_prefix (trim_space compressed) ''<'' then Inr compressed else Inl InflateFailed
             else Inr res)"

definition DecodeNZBBody :: "(string \<Rightarrow> string \<times> bool) \<Rightarrow> string \<Rightarrow> nzb_error + string" where
  "DecodeNZBBody inflate body = DecodeNZBBodyLimit inflate body DefaultMaxNZBBytes"

text \<open>
  \<open>DecodeBody\<close>: the payload between the markers. Go panics on a slice whose start is after its end;
  that is the outcome \<open>Panic\<close>.
\<close>

datatype decode_error = NoMarkers | NoNewline | BadBase64
datatype body_result = Decoded string | DecodeFailed decode_error | Panic

definition DecodeBody :: "string \<Rightarrow> body_result" where
  "DecodeBody s =
     (case (go_index s ''=ybegin'', go_index s ''=yend'') of
        (Some b, Some e) \<Rightarrow>
          (case go_index (drop b s) [CHR 0x0A] of
             None \<Rightarrow> DecodeFailed NoNewline
           | Some nl \<Rightarrow>
               let startData = nl + b + 1
               in if e < startData then Panic
                  else let payload = trim_space (take (e - startData) (drop startData s))
                       in case b64_decode (replace_all payload [CHR 0x0A] []) of
                            Some d \<Rightarrow> Decoded d
                          | None \<Rightarrow> DecodeFailed BadBase64)
      | _ \<Rightarrow> DecodeFailed NoMarkers)"

section \<open>Enrichment\<close>

record Posting =
  po_Description :: string
  po_ImageSegment :: "string list"
  po_ImageURL :: string
  po_Size :: string
  po_Segments :: "string list"

datatype enrich_error = EmptyXML | XMLUnmarshal | NoXMLHeader | EnrichPanic

definition apply_posting :: "Posting \<Rightarrow> Spot \<Rightarrow> Spot" where
  "apply_posting p spot =
     (let s1 = (if po_Description p \<noteq> [] then spot\<lparr>sp_Description := po_Description p\<rparr> else spot);
          s2 = (if po_ImageSegment p \<noteq> []
                then s1\<lparr>sp_ImageURL := ''<nntp:'' @ go_join (po_ImageSegment p) ''|'' @ ''>''\<rparr>
                else if po_ImageURL p \<noteq> [] then s1\<lparr>sp_ImageURL := po_ImageURL p\<rparr> else s1);
          s3 = (case po_Segments p of [] \<Rightarrow> s2 | seg # _ \<Rightarrow> s2\<lparr>sp_NzbID := seg\<rparr>)
      in if po_Size p \<noteq> [] \<and> sp_Size s3 = 0
         then s3\<lparr>sp_Size := fst (parse_int (po_Size p))\<rparr> else s3)"

definition EnrichFromXML ::
  "(string \<Rightarrow> Posting option) \<Rightarrow> Spot \<Rightarrow> string \<Rightarrow> enrich_error option \<times> Spot" where
  "EnrichFromXML xml_spot spot rawXML =
     (let trimmed = trim_space (sanitizeXML rawXML)
      in if trimmed = [] then (Some EmptyXML, spot)
         else (case xml_spot trimmed of
                 None \<Rightarrow> (Some XMLUnmarshal, spot)
               | Some p \<Rightarrow> (None, apply_posting p spot)))"

definition EnrichFromHeaders ::
  "(string \<Rightarrow> (string \<times> string) option) \<Rightarrow> (string \<Rightarrow> Posting option) \<Rightarrow> Spot \<Rightarrow> headers
     \<Rightarrow> enrich_error option \<times> Spot" where
  "EnrichFromHeaders xml_user_key xml_spot spot hdrs =
     (let userKeyHdr = header_get hdrs ''x-user-key'';
          spot1 = (if userKeyHdr \<noteq> []
                   then (case ParseUserKey xml_user_key userKeyHdr of
                           None \<Rightarrow> spot
                         | Some key \<Rightarrow>
                             spot\<lparr>sp_SpotterID := SpotterID (Modulus key),
                                  sp_Verified := VerifyFullSpot (sp_MessageID spot) key
                                    (header_get hdrs ''x-user-signature'') (header_get hdrs ''x-xml-signature'')\<rparr>)
                   else spot)
      in case hdrs ''x-xml'' of
           None \<Rightarrow> (Some NoXMLHeader, spot1)
         | Some rawXML \<Rightarrow>
             if trim_space rawXML = [] then (Some NoXMLHeader, spot1)
             else EnrichFromXML xml_spot spot1 rawXML)"

text \<open>The plain-text branch: the lines after the first line (not the very first) that is all
  separators.\<close>

definition separator_line :: "string \<Rightarrow> bool" where
  "separator_line l \<longleftrightarrow> trim_set l [CHR ''_'', CHR '' '', CHR 0x09, CHR 0x0D, CHR ''-'', CHR ''=''] = []"

fun find_separator :: "nat \<Rightarrow> string list \<Rightarrow> nat option" where
  "find_separator i [] = None"
| "find_separator i (l # ls) = (if separator_line l \<and> 0 < i then Some (i + 1) else find_separator (i + 1) ls)"

definition EnrichFromBody ::
  "(string \<Rightarrow> Posting option) \<Rightarrow> Spot \<Rightarrow> string \<Rightarrow> enrich_error option \<times> Spot" where
  "EnrichFromBody xml_spot spot body =
     (case DecodeBody body of
        Panic \<Rightarrow> (Some EnrichPanic, spot)
      | d \<Rightarrow>
          let xmlData = sanitizeXML (case d of Decoded x \<Rightarrow> x | _ \<Rightarrow> body);
              trimmed = trim_space xmlData
          in if has_prefix trimmed ''<''
             then (case xml_spot trimmed of
                     None \<Rightarrow> (Some XMLUnmarshal, spot)
                   | Some p \<Rightarrow> (None, apply_posting p spot))
             else if trimmed \<noteq> []
             then let lines = split_on (CHR 0x0A) trimmed
                  in case find_separator 0 lines of
                       Some start \<Rightarrow>
                         if start < length lines
                         then (None, spot\<lparr>sp_Description :=
                                 trim_space (go_join (drop start lines) [CHR 0x0A])\<rparr>)
                         else (None, spot\<lparr>sp_Description := trimmed\<rparr>)
                     | None \<Rightarrow> (None, spot\<lparr>sp_Description := trimmed\<rparr>)
             else (None, spot))"

section \<open>Groups and posters\<close>

definition sanitizePoster :: "string \<Rightarrow> string" where
  "sanitizePoster from =
     (case go_index from ''<'' of
        Some idx \<Rightarrow> if 0 < idx then trim_space (take idx from) else from
      | None \<Rightarrow> from)"

definition IsSpotnetGroup :: "string \<Rightarrow> bool" where
  "IsSpotnetGroup grp \<longleftrightarrow> has_prefix grp ''free.pt'' \<or> go_contains grp ''spotnet''"

definition SpotnetGroups :: "string list" where
  "SpotnetGroups = [''free.pt'']"

section \<open>Ages\<close>

definition AgeFromPostedAt :: "gotime \<Rightarrow> gotime \<Rightarrow> string" where
  "AgeFromPostedAt now t =
     (let d = time_sub now t
      in if d < hour then show_int (whole_units d minute) @ ''m ago''
         else if d < 24 * hour then show_int (whole_units d hour) @ ''h ago''
         else show_int (whole_units d (24 * hour)) @ ''d ago'')"

section \<open>Lemmas on subcategories\<close>

definition subcats_ok :: "subcats \<Rightarrow> bool" where
  "subcats_ok s \<longleftrightarrow>
     (case s of (a, b, c, d) \<Rightarrow>
        col_ok {CHR ''a''} a \<and> col_ok {CHR ''b''} b \<and> col_ok {CHR ''c''} c
        \<and> col_ok {CHR ''d'', CHR ''z''} d)"

lemma code_ok_number: "l \<in> L \<Longrightarrow> l \<noteq> CHR ''|'' \<Longrightarrow> code_ok L (l # show_int n)"
  by (auto simp: code_ok_def is_digit_def dest: show_int_set)

lemma col_ok_number:
  "col_ok L s \<Longrightarrow> l \<in> L \<Longrightarrow> l \<noteq> CHR ''|'' \<Longrightarrow> col_ok L (s @ l # show_int n @ ''|'')"
  using col_ok_snoc[OF _ code_ok_number, of L s l n] by simp

lemma flush_subcat_ok: "subcats_ok s \<Longrightarrow> subcats_ok (flush_subcat tmp s)"
  by (auto simp: subcats_ok_def flush_subcat_def subcat_letters_def Let_def intro: col_ok_number
      split: prod.split)

lemma subcats_loop_ok: "subcats_ok s \<Longrightarrow> subcats_ok (subcats_loop tmp s cs)"
  by (induction tmp s cs rule: subcats_loop.induct) (auto simp: Let_def flush_subcat_ok)

lemma parseSubCats_ok: "subcats_ok (parseSubCats s)"
  unfolding parseSubCats_def by (rule subcats_loop_ok) (simp add: subcats_ok_def)

text \<open>C29: for every subcategory text a From header can carry, the Go function that sets a new spot's
  kind and the SQL expression with which the migrations set it for old rows agree, so a migrated
  database and a freshly filled one file the same spots under the same kind and the same 18+ flag.\<close>

theorem parsed_kind_is_sql_kind:
  "case parseSubCats s of (a, b, c, d) \<Rightarrow> KindOf category a b d = kindCaseSQL category a b d"
  using parseSubCats_ok[of s]
  by (auto simp: subcats_ok_def KindOf_kindCaseSQL split: prod.split)

section \<open>What a parsed spot looks like\<close>

text \<open>The specification: everything the index relies on about a spot from an overview line.\<close>

definition parsed_ok :: "gotime \<Rightarrow> ArticleInfo \<Rightarrow> Spot \<Rightarrow> bool" where
  "parsed_ok now ai s \<longleftrightarrow>
     sp_MessageID s = ai_MessageID ai \<and> sp_ArticleNum s = ai_ArticleNum ai
     \<and> 0 \<le> sp_Category s \<and> sp_Category s \<le> 3
     \<and> sp_Kind s = KindOf (sp_Category s) (sp_SubCatA s) (sp_SubCatB s) (sp_SubCatD s)
     \<and> sp_IsAdult s = (sp_Kind s = KindErotic)
     \<and> spotnetEpoch < sp_PostedAt s \<and> sp_PostedAt s < now + maxClockSkew
     \<and> subcats_ok (sp_SubCatA s, sp_SubCatB s, sp_SubCatC s, sp_SubCatD s)
     \<and> \<not> sp_Moderated s \<and> sp_SpotterID s = [] \<and> \<not> sp_Verified s
     \<and> utf8_valid (sp_Poster s)"

lemma resolvePostedAt_plausible:
  "resolvePostedAt now st h = Some t \<Longrightarrow>
     plausibleSpotTime now t \<and> (t = h \<or> t = unix_time (fst (parse_int (trim_space st))))"
  by (auto simp: resolvePostedAt_def split: prod.splits if_splits)

lemma parseSubCats_okD: "parseSubCats x = q \<Longrightarrow> subcats_ok q"
  using parseSubCats_ok by blast

lemma build_spot_ok:
  assumes "0 \<le> category" "category \<le> 3" "plausibleSpotTime now postedAt"
  shows "parsed_ok now ai (build_spot ai fs headerPart selfSigned posterName category keyID postedAt)"
  using assms
  by (auto simp: build_spot_def parsed_ok_def utf8_valid_DecodeHeaderText plausibleSpotTime_def Let_def
      dest: parseSubCats_okD split: prod.splits if_splits)

lemma ParseFromOverview_Inr:
  assumes "ParseFromOverview now ai = Inr (s, v)"
  obtains fs headerPart selfSigned posterName category keyID postedAt
  where "s = build_spot ai fs headerPart selfSigned posterName category keyID postedAt"
    and "0 \<le> category" "category \<le> 3"
    and "resolvePostedAt now (fs ! 3) (ai_Date ai) = Some postedAt"
    and "fs = split_on (CHR ''.'') headerPart"
    and "v = VerifyHeader (fst (parseSubject (ai_Subject ai) (keyID = 1))) headerPart posterName
          (fs ! (length fs - 1)) keyID"
    and "keyID = byte_digit (fs ! 0 ! 1)"
  using assms
  by (auto simp: ParseFromOverview_def Let_def split: sum.splits option.splits if_splits prod.splits)

lemma ParseFromOverview_ok: "ParseFromOverview now ai = Inr (s, v) \<Longrightarrow> parsed_ok now ai s"
  by (auto elim!: ParseFromOverview_Inr dest: resolvePostedAt_plausible intro: build_spot_ok)

text \<open>C30: whatever an overview line holds, the spot made from it names the line's message-id and article,
  has one of the four categories, the kind its codes stand for and the 18+ flag exactly for the erotic
  kind, subcategory columns in the form the SQL reads, a poster in valid UTF-8, no owner and no
  verification yet, and a post date after 2000 and at most two days in the future: never an invented
  one. Anything else is an error.\<close>

theorem parsed_spot_well_formed:
  "case ParseFromOverview now ai of
     Inl e \<Rightarrow> True
   | Inr (s, v) \<Rightarrow> parsed_ok now ai s \<and> (sp_PostedAt s = ai_Date ai \<or> (\<exists>u > 0. sp_PostedAt s = unix_time u))"
proof (cases "ParseFromOverview now ai")
  case (Inr r)
  obtain s v where r: "r = (s, v)" by fastforce
  have "sp_PostedAt s = ai_Date ai \<or> (\<exists>u > 0. sp_PostedAt s = unix_time u)"
    using Inr[unfolded r]
    by (elim ParseFromOverview_Inr)
      (auto simp: build_spot_def Let_def resolvePostedAt_def split: prod.splits if_splits)
  with ParseFromOverview_ok[OF Inr[unfolded r]] show ?thesis by (simp add: Inr r)
qed simp

section \<open>Escaped binary articles\<close>

text \<open>The encoder of the network's clients: an escape letter for each byte that a text article cannot
  carry, and for the escape itself.\<close>

definition escape_letter :: "char \<Rightarrow> char" where
  "escape_letter c = (if c = CHR 0x0A then CHR ''C'' else if c = CHR 0x0D then CHR ''B''
                      else if c = CHR 0x00 then CHR ''A'' else CHR ''D'')"

definition escape_in :: "char list \<Rightarrow> char \<Rightarrow> string" where
  "escape_in S c = (if c \<in> set S then [CHR ''='', escape_letter c] else [c])"

definition specialZipStr :: "string \<Rightarrow> string" where
  "specialZipStr s = concat (map (escape_in [CHR 0x0A, CHR 0x0D, CHR 0x00, CHR ''='']) s)"

lemma escape_in_cases:
  "c \<in> set S \<Longrightarrow> escape_in S c = [CHR ''='', escape_letter c]"
  "c \<notin> set S \<Longrightarrow> escape_in S c = [c]"
  by (simp_all add: escape_in_def)

lemma unescape_pass:
  assumes "x \<notin> set S" "CHR ''='' \<in> set S" "x \<noteq> CHR ''=''" "\<forall>c \<in> set S. escape_letter c \<noteq> escape_letter x"
    and "\<forall>c. escape_letter c \<noteq> CHR ''=''"
  shows "replace_all (concat (map (escape_in (x # S)) t)) [CHR ''='', escape_letter x] [x]
       = concat (map (escape_in S) t)"
proof (induction t)
  case (Cons c t)
  let ?r = "concat (map (escape_in (x # S)) t)"
  consider "c = x" | "c \<noteq> x" "c \<in> set S" | "c \<noteq> x" "c \<notin> set S" by blast
  then show ?case
  proof cases
    case 1
    then show ?thesis
      using Cons assms(1) replace_all_hit[of "[CHR ''='', escape_letter x]" ?r "[x]"]
      by (simp add: escape_in_cases)
  next
    case 2
    then have "escape_letter c \<noteq> escape_letter x" "escape_letter c \<noteq> CHR ''=''" using assms by auto
    with 2 Cons show ?thesis by (simp add: escape_in_cases replace_all_miss)
  next
    case 3
    then have "c \<noteq> CHR ''=''" using assms(2) by auto
    with 3 Cons show ?thesis by (simp add: escape_in_cases replace_all_miss)
  qed
qed simp

lemma unescape_last:
  "replace_all (concat (map (escape_in [CHR ''='']) t)) ''=D'' ''='' = t"
proof (induction t)
  case (Cons c t)
  let ?r = "concat (map (escape_in [CHR ''='']) t)"
  show ?case
  proof (cases "c = CHR ''=''")
    case True
    then have "escape_in [CHR ''=''] c = ''=D''" by (simp add: escape_in_def escape_letter_def)
    with Cons show ?thesis using replace_all_hit[of "''=D''" ?r "''=''"] True by simp
  next
    case False
    then show ?thesis using Cons by (simp add: escape_in_def replace_all_miss)
  qed
qed simp

lemma escape_letters:
  "escape_letter (CHR 0x0A) = CHR ''C''" "escape_letter (CHR 0x0D) = CHR ''B''"
  "escape_letter (CHR 0x00) = CHR ''A''" "escape_letter (CHR ''='') = CHR ''D''"
  "escape_letter c \<noteq> CHR ''=''"
  by (simp_all add: escape_letter_def)

lemma unspecialZipStr_special: "unspecialZipStr (specialZipStr z) = z"
proof -
  note p = unescape_pass[where t = z]
  have "replace_all (specialZipStr z) ''=C'' [CHR 0x0A]
      = concat (map (escape_in [CHR 0x0D, CHR 0x00, CHR ''='']) z)"
    using p[of "CHR 0x0A" "[CHR 0x0D, CHR 0x00, CHR ''='']"] by (simp add: escape_letters specialZipStr_def)
  moreover have "replace_all (concat (map (escape_in [CHR 0x0D, CHR 0x00, CHR ''='']) z)) ''=B'' [CHR 0x0D]
      = concat (map (escape_in [CHR 0x00, CHR ''='']) z)"
    using p[of "CHR 0x0D" "[CHR 0x00, CHR ''='']"] by (simp add: escape_letters)
  moreover have "replace_all (concat (map (escape_in [CHR 0x00, CHR ''='']) z)) ''=A'' [CHR 0x00]
      = concat (map (escape_in [CHR ''='']) z)"
    using p[of "CHR 0x00" "[CHR ''='']"] by (simp add: escape_letters)
  ultimately show ?thesis
    by (simp add: unspecialZipStr_def Let_def unescape_last)
qed

interpretation zipstr: codec specialZipStr unspecialZipStr "\<lambda>z. z" "\<lambda>_. True"
  by unfold_locales (simp add: unspecialZipStr_special)

lemma length_replace_all: "length new \<le> length old \<Longrightarrow> length (replace_all s old new) \<le> length s"
proof (induction s old new rule: replace_all.induct)
  case (1 s old new)
  show ?case
  proof (cases "s = []")
    case False
    then show ?thesis
    proof (cases "old \<noteq> [] \<and> has_prefix s old")
      case True
      with False 1 have ih: "length (replace_all (drop (length old) s) old new) \<le> length (drop (length old) s)"
        by blast
      from True obtain t where "s = old @ t" by (auto simp: has_prefix_iff)
      with ih "1.prems" True show ?thesis by (simp add: replace_all_hit)
    next
      case F: False
      then have "length (replace_all (tl s) old new) \<le> length (tl s)" using False 1 by blast
      moreover have "replace_all s old new = hd s # replace_all (tl s) old new"
        using False F by (subst replace_all.simps) auto
      ultimately show ?thesis using False by (cases s) auto
    qed
  qed simp
qed

lemma length_unspecialZipStr: "length (unspecialZipStr s) \<le> length s"
  unfolding unspecialZipStr_def Let_def
  by (intro order.trans[OF length_replace_all] order.refl) simp_all

definition nzb_limit :: "int \<Rightarrow> int" where
  "nzb_limit mx = (if mx \<le> 0 then DefaultMaxNZBBytes else mx)"

lemma DecodeNZBBodyLimit_cases:
  assumes "mx < max_int64"
  shows "DecodeNZBBodyLimit inflate body mx =
     (let z = unspecialZipStr body
      in if nzb_limit mx < int (length (fst (inflate z))) then Inl NZBTooLarge
         else if snd (inflate z)
         then if has_prefix (trim_space z) ''<'' then Inr z else Inl InflateFailed
         else Inr (fst (inflate z)))"
proof -
  obtain dat f where i: "inflate (unspecialZipStr body) = (dat, f)" by fastforce
  have l: "0 < nzb_limit mx" "nzb_limit mx < max_int64"
    using assms by (auto simp: nzb_limit_def DefaultMaxNZBBytes_def max_int64_def)
  then have w: "wrap64 (nzb_limit mx + 1) = nzb_limit mx + 1"
    by (simp add: wrap64_def max_int64_def)
  have d: "DecodeNZBBodyLimit inflate body mx =
      (case read_limited (dat, f) (nzb_limit mx + 1) of
         (res, err) \<Rightarrow>
           if nzb_limit mx < int (length res) then Inl NZBTooLarge
           else if err
           then if has_prefix (trim_space (unspecialZipStr body)) ''<'' then Inr (unspecialZipStr body)
                else Inl InflateFailed
           else Inr res)"
    using w by (simp add: DecodeNZBBodyLimit_def Let_def i nzb_limit_def)
  show ?thesis
    unfolding d read_limited_def Let_def i using l(1)
    by (simp add: nat_add_distrib)
qed



section \<open>Bodies that crash the decoder\<close>

lemma go_index_le: "has_prefix (drop i s) p \<Longrightarrow> i \<le> length s \<Longrightarrow> \<exists>j \<le> i. go_index s p = Some j"
proof (induction s arbitrary: i)
  case Nil
  then show ?case by (simp add: has_prefix_def)
next
  case (Cons x s)
  show ?case
  proof (cases "has_prefix (x # s) p")
    case False
    with Cons.prems obtain k where i: "i = Suc k" by (cases i) auto
    with Cons obtain j where "j \<le> k" "go_index s p = Some j" by fastforce
    with False i show ?thesis by auto
  qed simp
qed

lemma go_index_found: "has_prefix (drop i s) (c # p) \<Longrightarrow> \<exists>j \<le> i. go_index s (c # p) = Some j"
  by (rule go_index_le) (cases "i \<le> length s"; simp)+

text \<open>A body in which the end marker comes first makes \<open>DecodeBody\<close> slice backwards, a run-time panic in
  Go, and with it \<open>EnrichFromBody\<close>: anyone who posts such an article makes every request for that
  spot's details fail. The decoder checks that both markers are there, not their order.\<close>

theorem DecodeBody_panics:
  "DecodeBody (''=yend'' @ x @ ''=ybegin'' @ y @ CHR 0x0A # z) = Panic
   \<and> EnrichFromBody xml_spot spot (''=yend'' @ x @ ''=ybegin'' @ y @ CHR 0x0A # z) = (Some EnrichPanic, spot)"
proof -
  let ?s = "''=yend'' @ x @ ''=ybegin'' @ y @ CHR 0x0A # z"
  have d: "drop (5 + length x) ?s = ''=ybegin'' @ y @ CHR 0x0A # z"
    by (simp add: numeral_eq_Suc)
  then have "has_prefix (drop (5 + length x) ?s) ''=ybegin''" by (simp only: has_prefix_append)
  from go_index_found[OF this] obtain b where b: "b \<le> 5 + length x" "go_index ?s ''=ybegin'' = Some b"
    by (auto simp del: go_index.simps)
  have "has_prefix (drop (length y + (12 + length x - b)) (drop b ?s)) [CHR 0x0A]"
  proof -
    have "drop (length y + (12 + length x - b)) (drop b ?s) = drop (7 + length y) (drop (5 + length x) ?s)"
      using b(1) by (simp only: drop_drop) (simp add: add.commute add.left_commute)
    then show ?thesis by (simp only: d) (simp add: numeral_eq_Suc)
  qed
  from go_index_found[OF this] obtain nl where "go_index (drop b ?s) [CHR 0x0A] = Some nl"
    by (auto simp del: go_index.simps)
  moreover have "go_index ?s ''=yend'' = Some 0" by simp
  ultimately have "DecodeBody ?s = Panic" unfolding DecodeBody_def b(2) by simp
  then show ?thesis by (simp add: EnrichFromBody_def)
qed

end
