(* ===== verification/Fts.thy ===== *)
theory Fts
  imports Text
begin

text \<open>
  \<open>internal/db/fts.go\<close>: turning free-form user input into an FTS5 MATCH expression.
\<close>

definition maxFTSTerms :: nat where "maxFTSTerms = 12"
definition maxFTSTermLen :: nat where "maxFTSTermLen = 64"
definition minPrefixLen :: nat where "minPrefixLen = 3"

definition fts_meta :: "char set" where
  "fts_meta = {CHR 0x22, CHR 0x27, CHR ''('', CHR '')'', CHR ''*'', CHR '':'', CHR ''^'', CHR ''-'',
     CHR ''+'', CHR 0x5C}"

text \<open>\<open>strings.Map\<close> with the closure that deletes the metacharacters: rune by rune, a byte that
  starts no valid rune becomes U+FFFD.\<close>

function strip_meta :: "string \<Rightarrow> string" where
  "strip_meta s =
     (if s = [] then []
      else if rune_len s = 0 then write_rune 0xFFFD @ strip_meta (tl s)
      else (if hd s \<in> fts_meta then [] else take (rune_len s) s) @ strip_meta (drop (rune_len s) s))"
  by pat_completeness auto
termination
  by (relation "measure length") auto

text \<open>\<open>len([]rune(s))\<close>.\<close>

function rune_count :: "string \<Rightarrow> nat" where
  "rune_count s = (if s = [] then 0 else Suc (rune_count (drop (max 1 (rune_len s)) s)))"
  by pat_completeness auto
termination
  by (relation "measure length") auto

declare strip_meta.simps [simp del] rune_count.simps [simp del]

text \<open>\<open>strings.ToUpper\<close>, to compare with text in which no letter is the upper case of a non-ASCII rune.\<close>

definition upper_char :: "char \<Rightarrow> char" where
  "upper_char c = (if 97 \<le> byte c \<and> byte c \<le> 122 then char_of (byte c - 32) else c)"

definition is_operator :: "string \<Rightarrow> bool" where
  "is_operator s \<longleftrightarrow> map upper_char s \<in> {''AND'', ''OR'', ''NOT'', ''NEAR''}"

text \<open>One iteration of the loop: the term of a field, \<open>None\<close> where the loop continues.\<close>

definition fts_term :: "string \<Rightarrow> string option" where
  "fts_term field =
     (let pre = has_suffix field ''*'';
          cleaned = trim_space (strip_meta field)
      in if cleaned = [] then None
         else let cut = (if maxFTSTermLen < length cleaned then take maxFTSTermLen cleaned else cleaned);
                  folded = (if is_operator cut then to_lower cut else cut);
                  term = CHR 0x22 # folded @ [CHR 0x22]
              in Some (if pre \<and> minPrefixLen \<le> rune_count folded then term @ ''*'' else term))"

fun fts_loop :: "string list \<Rightarrow> string list \<Rightarrow> string list" where
  "fts_loop terms [] = terms"
| "fts_loop terms (field # fields) =
     (if maxFTSTerms \<le> length terms then terms
      else (case fts_term field of
              None \<Rightarrow> fts_loop terms fields
            | Some t \<Rightarrow> fts_loop (terms @ [t]) fields))"

definition SanitizeFTSQuery :: "string \<Rightarrow> string" where
  "SanitizeFTSQuery raw =
     (if trim_space raw = [] then []
      else let terms = fts_loop [] (go_fields raw)
           in if terms = [] then [] else go_join terms '' AND '')"

section \<open>What a query can look like\<close>

text \<open>
  The specification, in FTS5's terms: a phrase is a quoted string without a quote or any other
  metacharacter in it, not an operator, of bounded length, with a trailing star only when its stem
  has three runes.
\<close>

definition phrase_ok :: "string \<Rightarrow> bool" where
  "phrase_ok t \<longleftrightarrow>
     (\<exists>c. c \<noteq> [] \<and> length c \<le> 64 \<and> set c \<inter> fts_meta = {} \<and> \<not> (c \<in> {''AND'', ''OR'', ''NOT'', ''NEAR''})
        \<and> (t = CHR 0x22 # c @ [CHR 0x22] \<or> t = CHR 0x22 # c @ [CHR 0x22, CHR ''*''] \<and> 3 \<le> rune_count c))"

lemma fts_meta_ascii: "c \<in> fts_meta \<Longrightarrow> byte c < 0x80"
  unfolding fts_meta_def by (elim insertE) simp_all

lemma not_meta_non_ascii: "0x80 \<le> byte c \<Longrightarrow> c \<notin> fts_meta"
  using fts_meta_ascii[of c] by linarith

lemma lead_cont:
  "lead2 a b \<Longrightarrow> 0x80 \<le> byte b" "lead3 a b \<Longrightarrow> 0x80 \<le> byte b" "lead4 a b \<Longrightarrow> 0x80 \<le> byte b"
  "is_cont b \<Longrightarrow> 0x80 \<le> byte b"
  unfolding lead2_def lead3_def lead4_def is_cont_def by linarith+

lemma rune_tail_not_ascii: "list_all (\<lambda>x. 0x80 \<le> byte x) (tl (take (rune_len s) s))"
proof (cases s)
  case (Cons a t)
  then show ?thesis
  proof (cases "byte a < 0x80 \<or> t = []")
    case False
    then obtain b u where t: "t = b # u" by (cases t) auto
    with False Cons show ?thesis
    proof (cases "lead2 a b \<or> u = []")
      case False': False
      then obtain c v where u: "u = c # v" by (cases u) auto
      with False False' Cons t show ?thesis
        by (cases v) (auto simp: rune_len_def dest: lead_cont)
    qed (auto simp: rune_len_def dest: lead_cont)
  qed (auto simp: rune_len_def)
qed simp

lemma strip_meta_no_meta: "x \<in> set (strip_meta s) \<Longrightarrow> x \<notin> fts_meta"
proof (induction s arbitrary: x rule: strip_meta.induct)
  case (1 s)
  consider "s = []" | "s \<noteq> []" "rune_len s = 0" | "s \<noteq> []" "rune_len s \<noteq> 0" by blast
  then show ?case
  proof cases
    case 1
    with "1.prems" show ?thesis by (simp add: strip_meta.simps)
  next
    case 2
    then have "x \<in> set (write_rune 0xFFFD) \<or> x \<in> set (strip_meta (tl s))"
      using "1.prems" by (subst (asm) strip_meta.simps) auto
    moreover have "list_all (\<lambda>x. 0x80 \<le> byte x) (write_rune 0xFFFD)" by (simp add: write_rune_def)
    ultimately show ?thesis using "1.IH"(1)[OF 2] not_meta_non_ascii by (auto simp: list_all_iff)
  next
    case 3
    then have "x \<in> set (if hd s \<in> fts_meta then [] else take (rune_len s) s)
        \<or> x \<in> set (strip_meta (drop (rune_len s) s))"
      using "1.prems" by (subst (asm) strip_meta.simps) auto
    moreover have "x \<notin> fts_meta" if "x \<in> set (take (rune_len s) s)" "hd s \<notin> fts_meta"
    proof -
      have "take (rune_len s) s = hd s # tl (take (rune_len s) s)"
        using 3 by (cases s; cases "rune_len s") auto
      with that(1) have "x = hd s \<or> x \<in> set (tl (take (rune_len s) s))"
        by (metis set_ConsD)
      then show ?thesis
        using that(2) rune_tail_not_ascii[of s] not_meta_non_ascii[of x] by (auto simp: list_all_iff)
    qed
    ultimately show ?thesis using "1.IH"(2) 3 by (auto split: if_splits)
  qed
qed

lemma lower_char_meta: "lower_char c \<notin> fts_meta \<longleftrightarrow> c \<notin> fts_meta"
proof (cases "65 \<le> byte c \<and> byte c \<le> 90")
  case True
  then have u: "of_char (char_of (byte c + 32) :: char) = byte c + 32" by (intro of_char_of_byte) simp
  have "d \<notin> fts_meta" if "65 \<le> byte d \<and> byte d \<le> 90 \<or> 97 \<le> byte d" for d
    using that unfolding fts_meta_def by (auto simp del: of_char_eq_iff)
  with True u show ?thesis by (simp add: lower_char_def)
qed (auto simp: lower_char_def Let_def)

lemma upper_char_byte: "97 \<le> byte c \<Longrightarrow> byte c \<le> 122 \<Longrightarrow> byte (upper_char c) = byte c - 32"
proof -
  assume c: "97 \<le> byte c" "byte c \<le> 122"
  then have "byte c - 32 < 256" by linarith
  with c show ?thesis using of_char_of_byte[of "byte c - 32"] by (simp add: upper_char_def)
qed

lemma lower_upper_char: "lower_char (upper_char c) = lower_char c"
proof (cases "97 \<le> byte c \<and> byte c \<le> 122")
  case True
  then have "byte (upper_char c) = byte c - 32" by (simp add: upper_char_byte)
  moreover have "65 \<le> byte c - 32" "byte c - 32 \<le> 90" "byte c - 32 + 32 = byte c" "\<not> byte c \<le> 90"
    using True by linarith+
  ultimately show ?thesis by (simp only: lower_char_def Let_def char_of_char simp_thms if_True if_False)
qed (auto simp: upper_char_def)

lemma is_ascii_upper_char: "is_ascii (upper_char c) \<longleftrightarrow> is_ascii c"
proof (cases "97 \<le> byte c \<and> byte c \<le> 122")
  case True
  then show ?thesis using upper_char_byte[of c] unfolding is_ascii_def by linarith
qed (auto simp: upper_char_def)

lemma is_operator_lower: "is_operator s \<Longrightarrow> to_lower s \<in> {''and'', ''or'', ''not'', ''near''}"
proof -
  assume op: "is_operator s"
  have "list_all is_ascii (map upper_char s)"
    using op unfolding is_operator_def by (elim insertE) (simp_all add: is_ascii_def)
  then have "list_all is_ascii s" by (simp add: list_all_iff is_ascii_upper_char)
  then have "to_lower s = map lower_char (map upper_char s)"
    by (simp add: to_lower_ascii lower_upper_char)
  moreover have "map lower_char (map upper_char s) \<in> map lower_char ` {''AND'', ''OR'', ''NOT'', ''NEAR''}"
    using op unfolding is_operator_def by (rule imageI)
  moreover have "map lower_char ` {''AND'', ''OR'', ''NOT'', ''NEAR''} = {''and'', ''or'', ''not'', ''near''}"
    unfolding lower_char_def by code_simp
  ultimately show ?thesis by (simp only:)
qed

lemma fts_term_ok: "fts_term f = Some t \<Longrightarrow> phrase_ok t"
proof -
  assume t: "fts_term f = Some t"
  define cleaned where "cleaned = trim_space (strip_meta f)"
  define cut where "cut = (if maxFTSTermLen < length cleaned then take maxFTSTermLen cleaned else cleaned)"
  define c where "c = (if is_operator cut then to_lower cut else cut)"
  have ne: "cleaned \<noteq> []" and t': "t = CHR 0x22 # c @ [CHR 0x22]
      \<or> t = CHR 0x22 # c @ [CHR 0x22, CHR ''*''] \<and> minPrefixLen \<le> rune_count c"
    using t by (auto simp: fts_term_def Let_def c_def cut_def cleaned_def split: if_splits)
  have cut: "cut \<noteq> []" "length cut \<le> 64" using ne by (auto simp: cut_def maxFTSTermLen_def)
  have "set cut \<subseteq> set (strip_meta f)"
    using trim_space_subset[of "strip_meta f"] by (auto simp: cut_def cleaned_def dest: in_set_takeD)
  then have meta: "set cut \<inter> fts_meta = {}" using strip_meta_no_meta by blast
  have "c \<noteq> [] \<and> length c \<le> 64 \<and> set c \<inter> fts_meta = {} \<and> c \<notin> {''AND'', ''OR'', ''NOT'', ''NEAR''}"
  proof (cases "is_operator cut")
    case True
    then have "c \<in> {''and'', ''or'', ''not'', ''near''}" using is_operator_lower by (simp add: c_def)
    then show ?thesis by (elim insertE) (simp_all add: fts_meta_def)
  next
    case False
    moreover have "is_operator w" if "w \<in> {''AND'', ''OR'', ''NOT'', ''NEAR''}" for w
      using that unfolding is_operator_def by (elim insertE) (simp_all add: upper_char_def)
    ultimately show ?thesis using cut meta by (auto simp: c_def)
  qed
  with t' show ?thesis unfolding phrase_ok_def minPrefixLen_def by blast
qed

lemma fts_loop_map_filter:
  "length ts \<le> maxFTSTerms \<Longrightarrow>
   fts_loop ts fs = take maxFTSTerms (ts @ List.map_filter fts_term fs)"
  by (induction ts fs rule: fts_loop.induct) (auto simp: map_filter_simps split: option.splits)


end
