(* ===== verification/Store.thy ===== *)
theory Store
  imports Parser Fts
begin

text \<open>
  \<open>internal/db/db.go\<close> and \<open>internal/db/maintenance.go\<close>: the SQLite store. Every table the program
  keeps is a list of rows (or a map where only the latest value matters), with the effects of the
  schema's triggers and constraints written out; every SQL statement takes one element of \<open>faults\<close>,
  and fails without effect when it is \<open>True\<close>, and every \<open>ctx.Err()\<close> one of \<open>ctx_errs\<close>. A
  transaction that fails anywhere is rolled back. FTS5's MATCH is the argument \<open>fts_match\<close>. The
  write mutex makes each of these operations atomic with respect to the others.
\<close>

section \<open>Tables\<close>

record spot_row =
  r_id :: int
  r_message_id :: string
  r_article_num :: int
  r_title :: string
  r_description :: string
  r_poster :: string
  r_posted_at :: int
  r_tag :: string
  r_nzb_id :: string
  r_category :: int
  r_sub_cat_a :: string
  r_sub_cat_b :: string
  r_sub_cat_c :: string
  r_sub_cat_d :: string
  r_size :: int
  r_image_url :: string
  r_verified :: bool
  r_moderated :: bool
  r_is_adult :: bool
  r_spotter_id :: string
  r_kind :: int
  r_created_at :: int

record sync_row =
  last_article_num :: int
  backfill_article_num :: int
  dispose_sweep_article_num :: int

type_synonym fts_doc = "string \<times> string \<times> string \<times> string"

record blob_row =
  b_message_id :: string
  b_content :: string
  b_mime_type :: string
  b_fetched_at :: int

record database =
  spots :: "spot_row list"
  next_id :: int
  spots_fts :: "(int \<times> fts_doc) list"
  moderated_ring :: "(string \<times> int) list"
  nzbs :: "blob_row list"
  images :: "blob_row list"
  spotter_lists :: "(string \<times> string \<times> string) list"
  sync_state :: "string \<rightharpoonup> sync_row"
  app_settings :: "string \<rightharpoonup> string"
  clock :: int
  faults :: "bool list"
  ctx_errs :: "bool list"

datatype sql_error = SQLError | ContextDone

type_synonym 'a sql = "database \<Rightarrow> (sql_error + 'a) \<times> database"

section \<open>Statements and transactions\<close>

definition exec :: "(database \<Rightarrow> 'a \<times> database) \<Rightarrow> 'a sql" where
  "exec f d =
     (case faults d of
        True # fs \<Rightarrow> (Inl SQLError, d\<lparr>faults := fs\<rparr>)
      | False # fs \<Rightarrow> (case f (d\<lparr>faults := fs\<rparr>) of (x, d') \<Rightarrow> (Inr x, d'))
      | [] \<Rightarrow> (case f d of (x, d') \<Rightarrow> (Inr x, d')))"

definition query :: "(database \<Rightarrow> 'a) \<Rightarrow> 'a sql" where
  "query f d = exec (\<lambda>d. (f d, d)) d"

definition ctx_Err :: "unit sql" where
  "ctx_Err d =
     (case ctx_errs d of
        True # es \<Rightarrow> (Inl ContextDone, d\<lparr>ctx_errs := es\<rparr>)
      | False # es \<Rightarrow> (Inr (), d\<lparr>ctx_errs := es\<rparr>)
      | [] \<Rightarrow> (Inr (), d))"

text \<open>\<open>BeginTx\<close>, the body, \<open>Commit\<close>; the deferred \<open>Rollback\<close> undoes everything but the passage of
  faults.\<close>

definition tx :: "'a sql \<Rightarrow> 'a sql" where
  "tx body d =
     (case query (\<lambda>_. ()) d of
        (Inl e, d1) \<Rightarrow> (Inl e, d1)
      | (Inr _, d1) \<Rightarrow>
          (case body d1 of
             (Inl e, d2) \<Rightarrow> (Inl e, d1\<lparr>faults := faults d2\<rparr>)
           | (Inr x, d2) \<Rightarrow>
               (case query (\<lambda>_. ()) d2 of
                  (Inl e, d3) \<Rightarrow> (Inl e, d1\<lparr>faults := faults d3\<rparr>)
                | (Inr _, d3) \<Rightarrow> (Inr x, d3))))"

section \<open>Rows of the spots table\<close>

definition fts_doc_of :: "spot_row \<Rightarrow> int \<times> fts_doc" where
  "fts_doc_of r = (r_id r, r_title r, r_description r, r_poster r, r_tag r)"

text \<open>\<open>INSERT OR IGNORE\<close> with the trigger \<open>spots_ai\<close>; the row's id comes from AUTOINCREMENT.\<close>

definition row_of_spot :: "Spot \<Rightarrow> int \<Rightarrow> int \<Rightarrow> spot_row" where
  "row_of_spot s i now =
     \<lparr>r_id = i, r_message_id = sp_MessageID s, r_article_num = sp_ArticleNum s, r_title = sp_Title s,
      r_description = sp_Description s, r_poster = sp_Poster s, r_posted_at = to_unix (sp_PostedAt s),
      r_tag = sp_Tag s, r_nzb_id = sp_NzbID s, r_category = sp_Category s,
      r_sub_cat_a = sp_SubCatA s, r_sub_cat_b = sp_SubCatB s, r_sub_cat_c = sp_SubCatC s,
      r_sub_cat_d = sp_SubCatD s, r_size = sp_Size s, r_image_url = sp_ImageURL s,
      r_verified = sp_Verified s, r_moderated = sp_Moderated s, r_is_adult = sp_IsAdult s,
      r_spotter_id = sp_SpotterID s,
      r_kind = KindOf (sp_Category s) (sp_SubCatA s) (sp_SubCatB s) (sp_SubCatD s),
      r_created_at = now\<rparr>"

definition insert_ignore :: "Spot \<Rightarrow> database \<Rightarrow> int \<times> database" where
  "insert_ignore s d =
     (if sp_MessageID s \<in> fst ` set (moderated_ring d)
         \<or> sp_MessageID s \<in> r_message_id ` set (spots d)
      then (0, d)
      else let r = row_of_spot s (next_id d) (clock d)
           in (1, d\<lparr>spots := spots d @ [r], next_id := next_id d + 1,
                    spots_fts := spots_fts d @ [fts_doc_of r]\<rparr>))"

text \<open>\<open>DELETE FROM spots WHERE ...\<close> with the trigger \<open>spots_ad\<close>, which takes the old document out of
  the index.\<close>

definition fts_delete :: "spot_row list \<Rightarrow> (int \<times> fts_doc) list \<Rightarrow> (int \<times> fts_doc) list" where
  "fts_delete rs idx = foldl (\<lambda>i r. remove1 (fts_doc_of r) i) idx rs"

definition delete_spots :: "(spot_row \<Rightarrow> bool) \<Rightarrow> database \<Rightarrow> int \<times> database" where
  "delete_spots P d =
     (let gone = filter P (spots d)
      in (int (length gone),
          d\<lparr>spots := filter (\<lambda>r. \<not> P r) (spots d), spots_fts := fts_delete gone (spots_fts d)\<rparr>))"

text \<open>\<open>UPDATE spots SET ... WHERE ...\<close>; \<open>reindex\<close> says whether the statement sets an indexed column,
  which is when the trigger \<open>spots_au\<close> fires.\<close>

definition fts_update :: "(spot_row \<times> spot_row) list \<Rightarrow> (int \<times> fts_doc) list \<Rightarrow> (int \<times> fts_doc) list" where
  "fts_update ps idx = foldl (\<lambda>i (old, new). remove1 (fts_doc_of old) i @ [fts_doc_of new]) idx ps"

definition update_spots ::
  "bool \<Rightarrow> (spot_row \<Rightarrow> bool) \<Rightarrow> (spot_row \<Rightarrow> spot_row) \<Rightarrow> database \<Rightarrow> int \<times> database" where
  "update_spots reindex P f d =
     (let hit = filter P (spots d)
      in (int (length hit),
          d\<lparr>spots := map (\<lambda>r. if P r then f r else r) (spots d),
            spots_fts := (if reindex then fts_update (map (\<lambda>r. (r, f r)) hit) (spots_fts d)
                          else spots_fts d)\<rparr>))"

section \<open>InsertSpots\<close>

fun insert_loop :: "int \<Rightarrow> Spot list \<Rightarrow> int sql" where
  "insert_loop inserted [] d = (Inr inserted, d)"
| "insert_loop inserted (s # ss) d =
     (case exec (insert_ignore s) d of
        (Inl e, d1) \<Rightarrow> (Inl e, d1)
      | (Inr n, d1) \<Rightarrow> insert_loop (inserted + n) ss d1)"

text \<open>The count that Go returns beside an error is not used by any caller and is left out.\<close>

definition InsertSpots :: "Spot list \<Rightarrow> int sql" where
  "InsertSpots ss d =
     (if ss = [] then (Inr 0, d)
      else tx (\<lambda>d1. case query (\<lambda>_. ()) d1 of
                       (Inl e, d2) \<Rightarrow> (Inl e, d2)
                     | (Inr _, d2) \<Rightarrow> insert_loop 0 ss d2) d)"

section \<open>SearchSpots\<close>

record SearchParams =
  Query :: string
  Categories :: "int list"
  q_Poster :: string
  MinSize :: int
  MaxSize :: int
  Since :: gotime
  Limit :: int
  Offset :: int
  Before :: gotime
  SortBy :: string
  AllowAdult :: bool
  Kinds :: "int list"
  AdultOnly :: bool
  AnyOf :: "(int \<times> int) list"
  q_Tag :: string
  SubCodes :: "string list"

definition subCodeColumn :: "char \<Rightarrow> (spot_row \<Rightarrow> string) option" where
  "subCodeColumn c =
     (if c = CHR ''a'' then Some r_sub_cat_a
      else if c = CHR ''b'' then Some r_sub_cat_b
      else if c = CHR ''c'' then Some r_sub_cat_c
      else if c = CHR ''d'' \<or> c = CHR ''z'' then Some r_sub_cat_d
      else None)"

definition ValidSubCode :: "string \<Rightarrow> bool" where
  "ValidSubCode s \<longleftrightarrow>
     (case s of
        [] \<Rightarrow> False
      | c # cs \<Rightarrow> 2 \<le> length s \<and> length s \<le> 4 \<and> subCodeColumn c \<noteq> None \<and> list_all is_digit cs)"

definition in_fts :: "(string \<Rightarrow> fts_doc \<Rightarrow> bool) \<Rightarrow> string \<Rightarrow> database \<Rightarrow> spot_row \<Rightarrow> bool" where
  "in_fts fts_match q d r = list_ex (\<lambda>(i, doc). i = r_id r \<and> fts_match q doc) (spots_fts d)"

definition has_sub_code :: "spot_row \<Rightarrow> string \<Rightarrow> bool" where
  "has_sub_code r code =
     (case subCodeColumn (hd code) of None \<Rightarrow> True | Some col \<Rightarrow> sql_has (col r) code)"

definition tag_query :: "string \<Rightarrow> string" where
  "tag_query tag = ''{tag}: '' @ [CHR 0x22] @ replace_all tag [CHR 0x22] [CHR 0x22, CHR 0x22] @ [CHR 0x22]"

text \<open>The WHERE clause, conjunct by conjunct in the order the code builds it.\<close>

definition search_where ::
  "(string \<Rightarrow> fts_doc \<Rightarrow> bool) \<Rightarrow> SearchParams \<Rightarrow> database \<Rightarrow> spot_row \<Rightarrow> bool" where
  "search_where fts_match p d r \<longleftrightarrow>
     (let q = SanitizeFTSQuery (Query p) in q = [] \<or> in_fts fts_match q d r)
     \<and> (Categories p = [] \<or> r_category r \<in> set (Categories p))
     \<and> (q_Tag p = [] \<or> in_fts fts_match (tag_query (q_Tag p)) d r)
     \<and> list_all (\<lambda>code. \<not> ValidSubCode code \<or> has_sub_code r code) (SubCodes p)
     \<and> (AnyOf p = [] \<or> list_ex (\<lambda>(c, k). r_category r = c \<and> (k < 0 \<or> r_kind r = k)) (AnyOf p))
     \<and> (Kinds p = [] \<or> r_kind r \<in> set (Kinds p))
     \<and> (q_Poster p = [] \<or> r_poster r = q_Poster p)
     \<and> (MinSize p \<le> 0 \<or> MinSize p \<le> r_size r)
     \<and> (MaxSize p \<le> 0 \<or> r_size r \<le> MaxSize p)
     \<and> (Since p = zero_time \<or> to_unix (Since p) \<le> r_posted_at r)
     \<and> (Before p = zero_time \<or> r_posted_at r < to_unix (Before p))
     \<and> \<not> r_moderated r
     \<and> (if AdultOnly p then r_is_adult r else AllowAdult p \<or> \<not> r_is_adult r)"

text \<open>ORDER BY, LIMIT and OFFSET: a negative LIMIT is no limit. SQLite leaves the order of equal keys
  open; here they keep the order of the table.\<close>

definition search_order :: "SearchParams \<Rightarrow> spot_row \<Rightarrow> int" where
  "search_order p r = (if SortBy p = ''size'' then - r_size r else - r_posted_at r)"

definition sql_limit :: "int \<Rightarrow> int \<Rightarrow> 'a list \<Rightarrow> 'a list" where
  "sql_limit l off xs = (let ys = drop (nat off) xs in if l < 0 then ys else take (nat l) ys)"

definition scanSpot :: "spot_row \<Rightarrow> Spot" where
  "scanSpot r =
     \<lparr>sp_ID = r_id r, sp_MessageID = r_message_id r, sp_ArticleNum = r_article_num r, sp_Title = r_title r,
      sp_Description = r_description r, sp_Poster = r_poster r, sp_PostedAt = unix_time (r_posted_at r),
      sp_Tag = r_tag r, sp_NzbID = r_nzb_id r, sp_Category = r_category r, sp_SubCatA = r_sub_cat_a r,
      sp_SubCatB = r_sub_cat_b r, sp_SubCatC = r_sub_cat_c r, sp_SubCatD = r_sub_cat_d r,
      sp_Size = r_size r, sp_ImageURL = r_image_url r, sp_Verified = r_verified r,
      sp_Moderated = r_moderated r, sp_IsAdult = r_is_adult r, sp_SpotterID = r_spotter_id r,
      sp_Kind = r_kind r, sp_KeyID = 0, sp_HeaderPart = [], sp_HeaderSig = [], sp_SelfSignedKey = []\<rparr>"

definition matching :: "(string \<Rightarrow> fts_doc \<Rightarrow> bool) \<Rightarrow> SearchParams \<Rightarrow> database \<Rightarrow> spot_row list" where
  "matching fts_match p d = filter (search_where fts_match p d) (spots d)"

definition search_defaults :: "SearchParams \<Rightarrow> SearchParams" where
  "search_defaults p0 =
     (let p1 = (if Limit p0 = 0 then p0\<lparr>Limit := 25\<rparr> else p0)
      in if SortBy p1 = [] then p1\<lparr>SortBy := ''date''\<rparr> else p1)"

definition SearchSpots ::
  "(string \<Rightarrow> fts_doc \<Rightarrow> bool) \<Rightarrow> SearchParams \<Rightarrow> (Spot list \<times> int) sql" where
  "SearchSpots fts_match p0 d =
     (let p = search_defaults p0
      in case query (\<lambda>d. int (length (matching fts_match p d))) d of
           (Inl e, d1) \<Rightarrow> (Inl e, d1)
         | (Inr cnt, d1) \<Rightarrow>
             (case query (\<lambda>d. sql_limit (Limit p) (Offset p)
                                (sort_key (search_order p) (matching fts_match p d))) d1 of
                (Inl e, d2) \<Rightarrow> (Inl e, d2)
              | (Inr rs, d2) \<Rightarrow> (Inr (map scanSpot rs, cnt), d2)))"

definition GetSpotByID :: "int \<Rightarrow> Spot option sql" where
  "GetSpotByID i = query (\<lambda>d. map_option scanSpot (find (\<lambda>r. r_id r = i) (spots d)))"

section \<open>Sync state\<close>

definition sync_field :: "(sync_row \<Rightarrow> int) \<Rightarrow> string \<Rightarrow> database \<Rightarrow> int" where
  "sync_field f grp d = (case sync_state d grp of None \<Rightarrow> 0 | Some row \<Rightarrow> f row)"

definition GetSyncState :: "string \<Rightarrow> int sql" where
  "GetSyncState grp = query (sync_field last_article_num grp)"

definition GetDisposeSweepState :: "string \<Rightarrow> int sql" where
  "GetDisposeSweepState grp = query (sync_field dispose_sweep_article_num grp)"

definition GetBackfillState :: "string \<Rightarrow> int sql" where
  "GetBackfillState grp = query (sync_field backfill_article_num grp)"

definition empty_sync_row :: sync_row where
  "empty_sync_row = \<lparr>last_article_num = 0, backfill_article_num = 0, dispose_sweep_article_num = 0\<rparr>"

definition sync_row_of :: "string \<Rightarrow> database \<Rightarrow> sync_row" where
  "sync_row_of grp d = (case sync_state d grp of None \<Rightarrow> empty_sync_row | Some row \<Rightarrow> row)"

definition SetSyncState :: "string \<Rightarrow> int \<Rightarrow> unit sql" where
  "SetSyncState grp lastArticle =
     exec (\<lambda>d. ((), d\<lparr>sync_state := (sync_state d)(grp \<mapsto> (sync_row_of grp d)\<lparr>last_article_num := lastArticle\<rparr>)\<rparr>))"

definition SetBackfillState :: "string \<Rightarrow> int \<Rightarrow> unit sql" where
  "SetBackfillState grp oldestArticle =
     exec (\<lambda>d. ((), d\<lparr>sync_state := (sync_state d)(grp \<mapsto> (sync_row_of grp d)\<lparr>backfill_article_num := oldestArticle\<rparr>)\<rparr>))"

text \<open>An UPDATE, unlike the two above: without a row for the group nothing is written.\<close>

definition SetDisposeSweepState :: "string \<Rightarrow> int \<Rightarrow> unit sql" where
  "SetDisposeSweepState grp article =
     exec (\<lambda>d. ((), case sync_state d grp of
                      None \<Rightarrow> d
                    | Some row \<Rightarrow>
                        d\<lparr>sync_state := (sync_state d)(grp \<mapsto> row\<lparr>dispose_sweep_article_num := article\<rparr>)\<rparr>))"

definition min_article :: "spot_row list \<Rightarrow> int" where
  "min_article rs = (case map r_article_num rs of [] \<Rightarrow> 0 | n # ns \<Rightarrow> foldl min n ns)"

definition OldestArticle :: "int sql" where
  "OldestArticle = query (\<lambda>d. min_article (spots d))"

section \<open>Caches and details\<close>

definition replace_blob :: "blob_row \<Rightarrow> blob_row list \<Rightarrow> blob_row list" where
  "replace_blob b bs = filter (\<lambda>x. b_message_id x \<noteq> b_message_id b) bs @ [b]"

definition CacheNZB :: "string \<Rightarrow> string \<Rightarrow> unit sql" where
  "CacheNZB messageID content =
     exec (\<lambda>d. ((), d\<lparr>nzbs := replace_blob \<lparr>b_message_id = messageID, b_content = content,
                        b_mime_type = [], b_fetched_at = clock d\<rparr> (nzbs d)\<rparr>))"

definition GetCachedNZB :: "string \<Rightarrow> string option sql" where
  "GetCachedNZB messageID =
     query (\<lambda>d. map_option b_content (find (\<lambda>b. b_message_id b = messageID) (nzbs d)))"

definition CacheImage :: "string \<Rightarrow> string \<Rightarrow> string \<Rightarrow> unit sql" where
  "CacheImage messageID content mimeType =
     exec (\<lambda>d. ((), d\<lparr>images := replace_blob \<lparr>b_message_id = messageID, b_content = content,
                        b_mime_type = mimeType, b_fetched_at = clock d\<rparr> (images d)\<rparr>))"

definition GetCachedImage :: "string \<Rightarrow> (string \<times> string) option sql" where
  "GetCachedImage messageID =
     query (\<lambda>d. map_option (\<lambda>b. (b_content b, b_mime_type b))
                  (find (\<lambda>b. b_message_id b = messageID) (images d)))"

definition UpdateSpotEnrichment :: "Spot \<Rightarrow> unit sql" where
  "UpdateSpotEnrichment s =
     exec (\<lambda>d. ((), snd (update_spots True (\<lambda>r. r_id r = sp_ID s)
        (\<lambda>r. r\<lparr>r_description := sp_Description s, r_image_url := sp_ImageURL s, r_nzb_id := sp_NzbID s,
               r_size := sp_Size s, r_spotter_id := sp_SpotterID s, r_verified := sp_Verified s\<rparr>) d)))"

section \<open>Maintenance\<close>

definition retention_chunk :: nat where "retention_chunk = 5000"

text \<open>One turn of the retention loop: the cached NZBs of the first chunk of old spots that have one,
  then the first chunk of old spots.\<close>

definition evict_old_nzbs :: "int \<Rightarrow> database \<Rightarrow> unit \<times> database" where
  "evict_old_nzbs cutoff d =
     (let ids = map r_nzb_id (take retention_chunk
                  (filter (\<lambda>r. r_posted_at r < cutoff \<and> r_nzb_id r \<noteq> []) (spots d)))
      in ((), d\<lparr>nzbs := filter (\<lambda>b. b_message_id b \<notin> set ids) (nzbs d)\<rparr>))"

definition delete_old_chunk :: "int \<Rightarrow> database \<Rightarrow> int \<times> database" where
  "delete_old_chunk cutoff d =
     (let ids = map r_id (take retention_chunk (filter (\<lambda>r. r_posted_at r < cutoff) (spots d)))
      in delete_spots (\<lambda>r. r_id r \<in> set ids) d)"

lemma exec_cases:
  assumes "exec f d = (res, d')"
  shows "(\<exists>fs. res = Inl SQLError \<and> d' = d\<lparr>faults := fs\<rparr>)
       \<or> (\<exists>fs x. f (d\<lparr>faults := fs\<rparr>) = (x, d') \<and> res = Inr x)"
proof (cases "faults d")
  case Nil
  then have e: "d\<lparr>faults := []\<rparr> = d" by (intro database.equality) simp_all
  obtain x d2 where f: "f d = (x, d2)" by fastforce
  have "res = Inr x" "d' = d2" using assms Nil by (simp_all add: exec_def f)
  with f e have "f (d\<lparr>faults := []\<rparr>) = (x, d') \<and> res = Inr x" by metis
  then show ?thesis by blast
next
  case (Cons b fs)
  then show ?thesis
    using assms by (cases b) (auto simp: exec_def split: prod.splits)
qed

lemma exec_Inr: "exec f d = (Inr x, d') \<Longrightarrow> \<exists>fs. f (d\<lparr>faults := fs\<rparr>) = (x, d')"
  by (drule exec_cases) auto

lemma ctx_Err_spots: "ctx_Err d = (res, d') \<Longrightarrow> \<exists>es. d' = d\<lparr>ctx_errs := es\<rparr>"
proof (cases "ctx_errs d")
  case Nil
  assume "ctx_Err d = (res, d')"
  with Nil have "d' = d\<lparr>ctx_errs := ctx_errs d\<rparr>" by (simp add: ctx_Err_def)
  then show ?thesis by blast
next
  case (Cons b es)
  assume "ctx_Err d = (res, d')"
  with Cons show ?thesis by (cases b) (auto simp: ctx_Err_def)
qed

lemma delete_spots_length:
  "delete_spots P d = (n, d') \<Longrightarrow> int (length (spots d')) + n = int (length (spots d)) \<and> 0 \<le> n"
  using sum_length_filter_compl[of P "spots d"] by (auto simp: delete_spots_def Let_def)

lemma evict_old_nzbs_spots: "evict_old_nzbs cutoff d = (u, d') \<Longrightarrow> spots d' = spots d"
  by (auto simp: evict_old_nzbs_def Let_def)

lemma delete_old_chunk_shrinks:
  "delete_old_chunk cutoff d = (n, d') \<Longrightarrow> int (length (spots d')) + n = int (length (spots d))"
  by (auto simp: delete_old_chunk_def Let_def dest: delete_spots_length)

lemma retention_turn_shrinks:
  assumes "ctx_Err d = (Inr u, d1)" "exec (evict_old_nzbs cutoff) d1 = (Inr v, d2)"
    "exec (delete_old_chunk cutoff) d2 = (Inr n, d3)"
  shows "int (length (spots d3)) + n = int (length (spots d))"
proof -
  have "spots d1 = spots d" using ctx_Err_spots[OF assms(1)] by auto
  moreover have "spots d2 = spots d1"
    using exec_Inr[OF assms(2)] by (auto dest: evict_old_nzbs_spots)
  moreover have "int (length (spots d3)) + n = int (length (spots d2))"
    using exec_Inr[OF assms(3)] by (auto dest: delete_old_chunk_shrinks)
  ultimately show ?thesis by simp
qed

function retention_loop :: "int \<Rightarrow> int \<Rightarrow> int sql" where
  "retention_loop cutoff cnt d =
     (case ctx_Err d of
        (Inl e, d1) \<Rightarrow> (Inl e, d1)
      | (Inr _, d1) \<Rightarrow>
          (case exec (evict_old_nzbs cutoff) d1 of
             (Inl e, d2) \<Rightarrow> (Inl e, d2)
           | (Inr _, d2) \<Rightarrow>
               (case exec (delete_old_chunk cutoff) d2 of
                  (Inl e, d3) \<Rightarrow> (Inl e, d3)
                | (Inr n, d3) \<Rightarrow>
                    if n < int retention_chunk then (Inr (cnt + n), d3)
                    else retention_loop cutoff (cnt + n) d3)))"
  by pat_completeness auto

termination
proof (relation "measure (\<lambda>(cutoff, cnt, d). length (spots d))")
  fix cutoff cnt d r1 d1 u r2 d2 v r3 d3 n
  assume "(r1, d1) = ctx_Err d" "r1 = Inr u" "(r2, d2) = exec (evict_old_nzbs cutoff) d1" "r2 = Inr v"
    "(r3, d3) = exec (delete_old_chunk cutoff) d2" "r3 = Inr n" "\<not> n < int retention_chunk"
  then show "((cutoff, cnt + n, d3), (cutoff, cnt, d)) \<in> measure (\<lambda>(cutoff, cnt, d). length (spots d))"
    using retention_turn_shrinks[of d u d1 cutoff v d2 n d3] by (simp add: retention_chunk_def)
qed simp

declare retention_loop.simps [simp del]

definition DeleteSpotsOlderThan :: "gotime \<Rightarrow> int sql" where
  "DeleteSpotsOlderThan cutoff = retention_loop (to_unix cutoff) 0"

definition CountSpots :: "int sql" where
  "CountSpots = query (\<lambda>d. int (length (filter (\<lambda>r. \<not> r_moderated r) (spots d))))"

definition blob_bytes :: "blob_row list \<Rightarrow> int" where
  "blob_bytes bs = sum_list (map (\<lambda>b. int (length (b_content b))) bs)"

definition CacheBytes :: "int sql" where
  "CacheBytes d =
     (case query (\<lambda>d. blob_bytes (nzbs d)) d of
        (Inl e, d1) \<Rightarrow> (Inl e, d1)
      | (Inr nzb, d1) \<Rightarrow>
          (case query (\<lambda>d. blob_bytes (images d)) d1 of
             (Inl e, d2) \<Rightarrow> (Inl e, d2)
           | (Inr img, d2) \<Rightarrow> (Inr (nzb + img), d2)))"

text \<open>The two blob tables, images first.\<close>

definition blob_table :: "bool \<Rightarrow> database \<Rightarrow> blob_row list" where
  "blob_table img d = (if img then images d else nzbs d)"

definition evict_oldest :: "bool \<Rightarrow> database \<Rightarrow> int \<times> database" where
  "evict_oldest img d =
     (let t = blob_table img d;
          ids = map b_message_id (take 200 (sort_key b_fetched_at t));
          keep = filter (\<lambda>b. b_message_id b \<notin> set ids) t
      in (int (length t) - int (length keep),
          if img then d\<lparr>images := keep\<rparr> else d\<lparr>nzbs := keep\<rparr>))"

lemma query_same: "query f d = (res, d') \<Longrightarrow> \<exists>fs. d' = d\<lparr>faults := fs\<rparr>"
  unfolding query_def by (drule exec_cases) auto

lemma CacheBytes_same: "CacheBytes d = (res, d') \<Longrightarrow> \<exists>fs. d' = d\<lparr>faults := fs\<rparr>"
  by (auto simp: CacheBytes_def dest!: query_same split: prod.splits sum.splits)

lemma evict_oldest_shrinks:
  "evict_oldest img d = (n, d') \<Longrightarrow> int (length (blob_table img d')) + n = int (length (blob_table img d))"
  by (auto simp: evict_oldest_def Let_def blob_table_def)

lemma evict_turn_shrinks:
  assumes "ctx_Err d = (Inr u, d1)" "exec (evict_oldest img) d1 = (Inr n, d2)" "CacheBytes d2 = (Inr t, d3)"
  shows "int (length (blob_table img d3)) + n = int (length (blob_table img d))"
proof -
  have "blob_table img d1 = blob_table img d" using ctx_Err_spots[OF assms(1)] by (auto simp: blob_table_def)
  moreover have "int (length (blob_table img d2)) + n = int (length (blob_table img d1))"
    using exec_Inr[OF assms(2)] by (auto dest!: evict_oldest_shrinks simp: blob_table_def)
  moreover have "blob_table img d3 = blob_table img d2"
    using CacheBytes_same[OF assms(3)] by (auto simp: blob_table_def)
  ultimately show ?thesis by simp
qed

lemma evict_oldest_nonneg: "exec (evict_oldest img) d = (Inr n, d') \<Longrightarrow> 0 \<le> n"
  by (drule exec_Inr) (auto simp: evict_oldest_def Let_def intro: length_filter_le)

function evict_loop :: "bool \<Rightarrow> int \<Rightarrow> int \<Rightarrow> int \<Rightarrow> (int \<times> int) sql" where
  "evict_loop img maxBytes cnt evicted d =
     (if cnt \<le> maxBytes then (Inr (cnt, evicted), d)
      else (case ctx_Err d of
              (Inl e, d1) \<Rightarrow> (Inl e, d1)
            | (Inr _, d1) \<Rightarrow>
                (case exec (evict_oldest img) d1 of
                   (Inl e, d2) \<Rightarrow> (Inl e, d2)
                 | (Inr n, d2) \<Rightarrow>
                     if n = 0 then (Inr (cnt, evicted), d2)
                     else (case CacheBytes d2 of
                             (Inl e, d3) \<Rightarrow> (Inl e, d3)
                           | (Inr cnt', d3) \<Rightarrow> evict_loop img maxBytes cnt' (evicted + n) d3))))"
  by pat_completeness auto
termination
proof (relation "measure (\<lambda>(img, maxBytes, cnt, evicted, d). length (blob_table img d))")
  fix img maxBytes cnt evicted d r1 d1 u r2 d2 n r3 d3 t
  assume a: "(r1, d1) = ctx_Err d" "r1 = Inr u" "(r2, d2) = exec (evict_oldest img) d1" "r2 = Inr n"
    "n \<noteq> 0" "(r3, d3) = CacheBytes d2" "r3 = Inr t"
  have "0 \<le> n" using evict_oldest_nonneg[of img d1 n d2] a by simp
  then show "((img, maxBytes, t, evicted + n, d3), (img, maxBytes, cnt, evicted, d))
      \<in> measure (\<lambda>(img, maxBytes, cnt, evicted, d). length (blob_table img d))"
    using evict_turn_shrinks[of d u d1 img n d2 t d3] a by simp
qed simp

declare evict_loop.simps [simp del]

text \<open>The result is the number of NZBs and of images evicted.\<close>

definition EvictCacheTo :: "int \<Rightarrow> (int \<times> int) sql" where
  "EvictCacheTo maxBytes d =
     (case CacheBytes d of
        (Inl e, d1) \<Rightarrow> (Inl e, d1)
      | (Inr cnt, d1) \<Rightarrow>
          if cnt \<le> maxBytes then (Inr (0, 0), d1)
          else (case evict_loop True maxBytes cnt 0 d1 of
                  (Inl e, d2) \<Rightarrow> (Inl e, d2)
                | (Inr (cnt2, imgs), d2) \<Rightarrow>
                    (case evict_loop False maxBytes cnt2 0 d2 of
                       (Inl e, d3) \<Rightarrow> (Inl e, d3)
                     | (Inr (_, ns), d3) \<Rightarrow> (Inr (ns, imgs), d3))))"

section \<open>Spotter lists\<close>

definition put_spotter :: "string \<Rightarrow> string \<Rightarrow> string \<Rightarrow> database \<Rightarrow> unit \<times> database" where
  "put_spotter i listType origin d =
     ((), d\<lparr>spotter_lists := filter (\<lambda>(j, t, _). \<not> (j = i \<and> t = listType)) (spotter_lists d)
             @ [(i, listType, origin)]\<rparr>)"

fun put_spotters :: "string \<Rightarrow> string \<Rightarrow> string list \<Rightarrow> unit sql" where
  "put_spotters listType origin [] d = (Inr (), d)"
| "put_spotters listType origin (i # is) d =
     (let j = trim_space i
      in if j = [] then put_spotters listType origin is d
         else (case exec (put_spotter j listType origin) d of
                 (Inl e, d1) \<Rightarrow> (Inl e, d1)
               | (Inr _, d1) \<Rightarrow> put_spotters listType origin is d1))"

definition ReplaceSpotterList :: "string \<Rightarrow> string \<Rightarrow> string list \<Rightarrow> unit sql" where
  "ReplaceSpotterList listType origin ids =
     tx (\<lambda>d. case exec (\<lambda>d. ((), d\<lparr>spotter_lists := filter (\<lambda>(_, t, _). t \<noteq> listType) (spotter_lists d)\<rparr>)) d of
               (Inl e, d1) \<Rightarrow> (Inl e, d1)
             | (Inr _, d1) \<Rightarrow>
                 (case query (\<lambda>_. ()) d1 of
                    (Inl e, d2) \<Rightarrow> (Inl e, d2)
                  | (Inr _, d2) \<Rightarrow> put_spotters listType origin ids d2))"

definition spotters_of :: "string \<Rightarrow> database \<Rightarrow> string list" where
  "spotters_of listType d = map fst (filter (\<lambda>(_, t, _). t = listType) (spotter_lists d))"

definition BlacklistedSpotters :: "string list sql" where
  "BlacklistedSpotters = query (spotters_of ''black'')"

text \<open>\<open>DELETE ... WHERE column IN (...)\<close> in batches of 400, each a statement of its own.\<close>

function delete_batches :: "(spot_row \<Rightarrow> string) \<Rightarrow> string list \<Rightarrow> int \<Rightarrow> int sql" where
  "delete_batches col ids cnt d =
     (if ids = [] then (Inr cnt, d)
      else (case exec (delete_spots (\<lambda>r. col r \<in> set (take 400 ids))) d of
              (Inl e, d1) \<Rightarrow> (Inl e, d1)
            | (Inr n, d1) \<Rightarrow> delete_batches col (drop 400 ids) (cnt + n) d1))"
  by pat_completeness auto
termination
  by (relation "measure (\<lambda>(col, ids, cnt, d). length ids)") auto

declare delete_batches.simps [simp del]

definition DeleteSpotsBySpotter :: "string list \<Rightarrow> int sql" where
  "DeleteSpotsBySpotter ids d = (if ids = [] then (Inr 0, d) else delete_batches r_spotter_id ids 0 d)"

section \<open>Moderation\<close>

definition ring_add :: "string \<Rightarrow> database \<Rightarrow> unit \<times> database" where
  "ring_add i d =
     ((), if i \<in> fst ` set (moderated_ring d) then d
          else d\<lparr>moderated_ring := moderated_ring d @ [(i, clock d)]\<rparr>)"

fun mark_loop :: "int \<Rightarrow> string list \<Rightarrow> int sql" where
  "mark_loop affected [] d = (Inr affected, d)"
| "mark_loop affected (i # is) d =
     (case exec (ring_add i) d of
        (Inl e, d1) \<Rightarrow> (Inl e, d1)
      | (Inr _, d1) \<Rightarrow>
          (case exec (update_spots False (\<lambda>r. r_message_id r = i) (r_moderated_update (\<lambda>_. True))) d1 of
             (Inl e, d2) \<Rightarrow> (Inl e, d2)
           | (Inr n, d2) \<Rightarrow> mark_loop (affected + n) is d2))"

definition MarkModerated :: "string list \<Rightarrow> int sql" where
  "MarkModerated ids d =
     (if ids = [] then (Inr 0, d)
      else tx (\<lambda>d1. case query (\<lambda>_. ()) d1 of
                       (Inl e, d2) \<Rightarrow> (Inl e, d2)
                     | (Inr _, d2) \<Rightarrow>
                         (case query (\<lambda>_. ()) d2 of
                            (Inl e, d3) \<Rightarrow> (Inl e, d3)
                          | (Inr _, d3) \<Rightarrow> mark_loop 0 ids d3)) d)"

record DisposeTargetInfo =
  dt_Owner :: string
  dt_Posted :: gotime
  dt_Moderated :: bool

definition target_info :: "spot_row \<Rightarrow> DisposeTargetInfo" where
  "target_info r = \<lparr>dt_Owner = r_spotter_id r, dt_Posted = unix_time (r_posted_at r), dt_Moderated = r_moderated r\<rparr>"

text \<open>\<open>None\<close> where Go reports not found.\<close>

definition DisposeTarget :: "string \<Rightarrow> DisposeTargetInfo option sql" where
  "DisposeTarget messageID =
     query (\<lambda>d. map_option target_info (find (\<lambda>r. r_message_id r = messageID) (spots d)))"

definition SpotOwner :: "string \<Rightarrow> (string \<times> gotime) sql" where
  "SpotOwner messageID d =
     (case DisposeTarget messageID d of
        (Inl e, d1) \<Rightarrow> (Inl e, d1)
      | (Inr None, d1) \<Rightarrow> (Inr ([], zero_time), d1)
      | (Inr (Some t), d1) \<Rightarrow> (Inr (dt_Owner t, dt_Posted t), d1))"

definition SetSpotOwner :: "string \<Rightarrow> string \<Rightarrow> bool \<Rightarrow> unit sql" where
  "SetSpotOwner messageID spotterID verified =
     exec (\<lambda>d. ((), snd (update_spots False (\<lambda>r. r_message_id r = messageID)
        (\<lambda>r. r\<lparr>r_spotter_id := spotterID, r_verified := verified\<rparr>) d)))"

definition control_title :: "string \<Rightarrow> bool" where
  "control_title t \<longleftrightarrow>
     list_ex (\<lambda>p. has_prefix (map lower_char t) p \<and> go_contains (drop (length p) t) ''@'')
       [''dispose '', ''delete '', ''remove '']"

definition DeleteControlMessages :: "int sql" where
  "DeleteControlMessages = exec (delete_spots (\<lambda>r. control_title (r_title r)))"

definition DeleteSpotsByMessageID :: "string list \<Rightarrow> int sql" where
  "DeleteSpotsByMessageID ids d = (if ids = [] then (Inr 0, d) else delete_batches r_message_id ids 0 d)"

definition PruneModeratedRing :: "gotime \<Rightarrow> int sql" where
  "PruneModeratedRing cutoff =
     exec (\<lambda>d. let keep = filter (\<lambda>(_, stamp). \<not> stamp < to_unix cutoff) (moderated_ring d)
               in (int (length (moderated_ring d)) - int (length keep), d\<lparr>moderated_ring := keep\<rparr>))"

end
