(* ===== verification/StoreInv.thy ===== *)
theory StoreInv
  imports Store "HOL-Library.Multiset"
begin

text \<open>
  What the store promises: the invariant of its tables, kept by every operation whether it succeeds
  or a statement fails, and the effect of each operation. The step relation \<open>db_step\<close> is one call of
  any of the operations, with any arguments and any faults.
\<close>

section \<open>The invariant\<close>

definition row_kind_ok :: "spot_row \<Rightarrow> bool" where
  "row_kind_ok r \<longleftrightarrow>
     r_kind r = KindOf (r_category r) (r_sub_cat_a r) (r_sub_cat_b r) (r_sub_cat_d r)
     \<and> r_is_adult r = (r_kind r = KindErotic)"

definition tables_ok :: "spot_row list \<Rightarrow> int \<Rightarrow> (int \<times> fts_doc) list \<Rightarrow> string set \<Rightarrow> bool" where
  "tables_ok rows nid idx withdrawn \<longleftrightarrow>
     distinct (map r_id rows) \<and> (\<forall>r\<in>set rows. r_id r < nid)
     \<and> distinct (map r_message_id rows)
     \<and> mset idx = mset (map fts_doc_of rows)
     \<and> (\<forall>r\<in>set rows. r_moderated r \<or> r_message_id r \<notin> withdrawn)
     \<and> (\<forall>r\<in>set rows. row_kind_ok r)"

text \<open>The same but for the kinds, which is all that holds of a file an older version wrote.\<close>

definition keys_ok :: "spot_row list \<Rightarrow> int \<Rightarrow> (int \<times> fts_doc) list \<Rightarrow> string set \<Rightarrow> bool" where
  "keys_ok rows nid idx withdrawn \<longleftrightarrow>
     distinct (map r_id rows) \<and> (\<forall>r\<in>set rows. r_id r < nid)
     \<and> distinct (map r_message_id rows)
     \<and> mset idx = mset (map fts_doc_of rows)
     \<and> (\<forall>r\<in>set rows. r_moderated r \<or> r_message_id r \<notin> withdrawn)"

lemma tables_ok_keys: "tables_ok rows nid idx W \<longleftrightarrow> keys_ok rows nid idx W \<and> (\<forall>r\<in>set rows. row_kind_ok r)"
  by (auto simp: tables_ok_def keys_ok_def)

definition ring_ids :: "database \<Rightarrow> string set" where
  "ring_ids d = fst ` set (moderated_ring d)"

definition store_inv :: "database \<Rightarrow> bool" where
  "store_inv d \<longleftrightarrow> tables_ok (spots d) (next_id d) (spots_fts d) (ring_ids d)"

lemma ring_ids_env [simp]:
  "ring_ids (d\<lparr>spots := rs\<rparr>) = ring_ids d" "ring_ids (d\<lparr>spots_fts := idx\<rparr>) = ring_ids d"
  "ring_ids (d\<lparr>next_id := n\<rparr>) = ring_ids d" "ring_ids (d\<lparr>faults := fs\<rparr>) = ring_ids d"
  "ring_ids (d\<lparr>ctx_errs := es\<rparr>) = ring_ids d" "ring_ids (d\<lparr>clock := t\<rparr>) = ring_ids d"
  "ring_ids (d\<lparr>sync_state := ss\<rparr>) = ring_ids d" "ring_ids (d\<lparr>nzbs := bs\<rparr>) = ring_ids d"
  "ring_ids (d\<lparr>images := bs\<rparr>) = ring_ids d" "ring_ids (d\<lparr>spotter_lists := sl\<rparr>) = ring_ids d"
  "ring_ids (d\<lparr>app_settings := st\<rparr>) = ring_ids d"
  by (simp_all add: ring_ids_def)

lemma store_inv_env [simp]:
  "store_inv (d\<lparr>faults := fs\<rparr>) = store_inv d" "store_inv (d\<lparr>ctx_errs := es\<rparr>) = store_inv d"
  "store_inv (d\<lparr>clock := t\<rparr>) = store_inv d" "store_inv (d\<lparr>sync_state := ss\<rparr>) = store_inv d"
  "store_inv (d\<lparr>nzbs := bs\<rparr>) = store_inv d" "store_inv (d\<lparr>images := bs\<rparr>) = store_inv d"
  "store_inv (d\<lparr>spotter_lists := sl\<rparr>) = store_inv d" "store_inv (d\<lparr>app_settings := st\<rparr>) = store_inv d"
  by (simp_all add: store_inv_def)

text \<open>A flag a caller sets must be the one the row's kind gives; the parser's spots are so.\<close>

definition adult_flag_ok :: "Spot \<Rightarrow> bool" where
  "adult_flag_ok s \<longleftrightarrow>
     sp_IsAdult s = (KindOf (sp_Category s) (sp_SubCatA s) (sp_SubCatB s) (sp_SubCatD s) = KindErotic)"

lemma parsed_adult_flag: "parsed_ok now ai s \<Longrightarrow> adult_flag_ok s"
  by (simp add: parsed_ok_def adult_flag_ok_def)

section \<open>Statements keep the invariant\<close>

lemma tables_ok_append:
  assumes "tables_ok rows nid idx W" "r_id r = nid" "r_message_id r \<notin> W"
    "r_message_id r \<notin> r_message_id ` set rows" "row_kind_ok r"
  shows "tables_ok (rows @ [r]) (nid + 1) (idx @ [fts_doc_of r]) W"
proof -
  have "nid \<notin> r_id ` set rows" using assms(1) by (auto simp: tables_ok_def)
  then show ?thesis using assms unfolding tables_ok_def by force
qed

lemma keys_ok_filter:
  assumes "keys_ok rows nid idx W"
  shows "keys_ok (filter (\<lambda>r. \<not> P r) rows) nid (fts_delete (filter P rows) idx) W"
proof -
  have d: "mset (fts_delete rs idx) = mset idx - mset (map fts_doc_of rs)" for rs
    unfolding fts_delete_def by (induction rs arbitrary: idx) auto
  have "mset rows = mset (filter P rows) + mset (filter (\<lambda>r. \<not> P r) rows)"
    by (simp add: multiset_partition[symmetric])
  then have "mset (map fts_doc_of rows) - mset (map fts_doc_of (filter P rows))
      = mset (map fts_doc_of (filter (\<lambda>r. \<not> P r) rows))"
    by (metis add_diff_cancel_left' image_mset_union mset_map)
  with d have "mset (fts_delete (filter P rows) idx) = mset (map fts_doc_of (filter (\<lambda>r. \<not> P r) rows))"
    using assms by (simp add: keys_ok_def)
  then show ?thesis using assms unfolding keys_ok_def by (simp add: distinct_map_filter)
qed

lemma tables_ok_filter:
  "tables_ok rows nid idx W \<Longrightarrow> tables_ok (filter (\<lambda>r. \<not> P r) rows) nid (fts_delete (filter P rows) idx) W"
  by (auto simp: tables_ok_keys intro: keys_ok_filter)

lemma mset_fts_update:
  "mset idx = mset (map (fts_doc_of \<circ> fst) ps) + M \<Longrightarrow>
   mset (fts_update ps idx) = mset (map (fts_doc_of \<circ> snd) ps) + M"
proof (induction ps arbitrary: idx M)
  case Nil
  then show ?case by (simp add: fts_update_def)
next
  case (Cons p ps)
  obtain old new where p: "p = (old, new)" by fastforce
  let ?idx = "remove1 (fts_doc_of old) idx @ [fts_doc_of new]"
  have "mset ?idx = mset (map (fts_doc_of \<circ> fst) ps) + (M + {#fts_doc_of new#})"
    using Cons.prems by (simp add: p comp_def)
  from Cons.IH[OF this] show ?case by (simp add: fts_update_def p)
qed

lemma image_mset_update:
  "{#g (f r). r \<in># filter_mset P A#} + image_mset g {#r \<in># A. \<not> P r#}
     = {#g (if P r then f r else r). r \<in># A#}"
  by (induction A) auto

lemma keys_ok_update:
  assumes "keys_ok rows nid idx W"
    and "\<And>r. r_id (f r) = r_id r \<and> r_message_id (f r) = r_message_id r"
    and "\<And>r. r_moderated r \<Longrightarrow> r_moderated (f r)"
    and doc: "reindex \<or> (\<forall>r. fts_doc_of (f r) = fts_doc_of r)"
  shows "keys_ok (map (\<lambda>r. if P r then f r else r) rows) nid
     (if reindex then fts_update (map (\<lambda>r. (r, f r)) (filter P rows)) idx else idx) W"
proof -
  let ?g = "\<lambda>r. if P r then f r else r"
  have "map (r_id \<circ> ?g) rows = map r_id rows" "map (r_message_id \<circ> ?g) rows = map r_message_id rows"
    using assms(2) by auto
  moreover have "mset (if reindex then fts_update (map (\<lambda>r. (r, f r)) (filter P rows)) idx else idx)
      = mset (map fts_doc_of (map ?g rows))"
  proof (cases reindex)
    case True
    have "mset rows = mset (filter P rows) + mset (filter (\<lambda>r. \<not> P r) rows)"
      by (simp add: multiset_partition[symmetric])
    then have "mset idx = mset (map (fts_doc_of \<circ> fst) (map (\<lambda>r. (r, f r)) (filter P rows)))
        + image_mset fts_doc_of (mset (filter (\<lambda>r. \<not> P r) rows))"
      using assms(1) by (simp add: keys_ok_def comp_def flip: image_mset_union)
    from mset_fts_update[OF this] show ?thesis
      using True image_mset_update[of fts_doc_of f P "mset rows"]
      by (simp add: comp_def multiset.map_comp)
  next
    case False
    with doc have "fts_doc_of (?g r) = fts_doc_of r" for r by simp
    then show ?thesis using assms(1) False by (simp add: keys_ok_def comp_def multiset.map_comp)
  qed
  ultimately show ?thesis
    using assms(1) assms(2-3) unfolding keys_ok_def by (auto simp: map_map[symmetric] simp del: map_map)
qed

lemma tables_ok_update:
  assumes "tables_ok rows nid idx W"
    and "\<And>r. r_id (f r) = r_id r \<and> r_message_id (f r) = r_message_id r"
    and "\<And>r. r_moderated r \<Longrightarrow> r_moderated (f r)" and "\<And>r. row_kind_ok r \<Longrightarrow> row_kind_ok (f r)"
    and "reindex \<or> (\<forall>r. fts_doc_of (f r) = fts_doc_of r)"
  shows "tables_ok (map (\<lambda>r. if P r then f r else r) rows) nid
     (if reindex then fts_update (map (\<lambda>r. (r, f r)) (filter P rows)) idx else idx) W"
  using keys_ok_update[OF _ assms(2,3,5), of rows nid idx W P] assms(1,4) by (auto simp: tables_ok_keys)

lemma insert_ignore_inv:
  "store_inv d \<Longrightarrow> adult_flag_ok s \<Longrightarrow> insert_ignore s d = (n, d') \<Longrightarrow> store_inv d'"
  by (auto simp: insert_ignore_def Let_def store_inv_def ring_ids_def[symmetric] row_of_spot_def
      adult_flag_ok_def row_kind_ok_def intro!: tables_ok_append split: if_splits)

lemma delete_spots_inv: "store_inv d \<Longrightarrow> delete_spots P d = (n, d') \<Longrightarrow> store_inv d'"
  by (auto simp: delete_spots_def Let_def store_inv_def intro: tables_ok_filter)

lemma update_spots_inv:
  assumes "store_inv d" "update_spots reindex P f d = (n, d')"
    and "\<And>r. r_id (f r) = r_id r \<and> r_message_id (f r) = r_message_id r"
    and "\<And>r. r_moderated r \<Longrightarrow> r_moderated (f r)" and "\<And>r. row_kind_ok r \<Longrightarrow> row_kind_ok (f r)"
    and "reindex \<or> (\<forall>r. fts_doc_of (f r) = fts_doc_of r)"
  shows "store_inv d'"
  using assms(1,2) tables_ok_update[OF _ assms(3-6), of "spots d" "next_id d" "spots_fts d" "ring_ids d" P]
  by (auto simp: update_spots_def Let_def store_inv_def)

end
