(* ===== verification/StoreOps.thy ===== *)
theory StoreOps
  imports StoreInv
begin

text \<open>
  From statements to operations. The locale \<open>statement_invariant\<close> is the contract between a property
  of the tables and the store's operations: a property every statement keeps is kept by every
  operation, whether it succeeds, stops at a failing statement, or rolls back. The step relation
  \<open>db_step\<close> is one call of any operation with any arguments, or a change of the environment (the
  clock, and which of the next statements fail). The contract is interpreted twice: for the table
  invariant, and for a message-id staying in the moderation ring.
\<close>

section \<open>One step of the store\<close>

text \<open>Every operation of the store but moving the backfill watermark and pruning the moderation ring;
  \<open>ok\<close> is what callers promise of the spots they insert.\<close>

inductive store_step :: "(Spot \<Rightarrow> bool) \<Rightarrow> database \<Rightarrow> database \<Rightarrow> bool" for ok where
  env: "store_step ok d (d\<lparr>clock := t, faults := fs, ctx_errs := es\<rparr>)"
| insert: "\<forall>s\<in>set ss. ok s \<Longrightarrow> InsertSpots ss d = (r, d') \<Longrightarrow> store_step ok d d'"
| sync: "SetSyncState grp n d = (u, d') \<Longrightarrow> store_step ok d d'"
| sweep: "SetDisposeSweepState grp n d = (u, d') \<Longrightarrow> store_step ok d d'"
| nzb: "CacheNZB i c d = (u, d') \<Longrightarrow> store_step ok d d'"
| image: "CacheImage i c m d = (u, d') \<Longrightarrow> store_step ok d d'"
| enrich: "UpdateSpotEnrichment s d = (u, d') \<Longrightarrow> store_step ok d d'"
| retention: "DeleteSpotsOlderThan t d = (r, d') \<Longrightarrow> store_step ok d d'"
| evict: "EvictCacheTo m d = (e, d') \<Longrightarrow> store_step ok d d'"
| lists: "ReplaceSpotterList ty origin ids d = (u, d') \<Longrightarrow> store_step ok d d'"
| blacklist: "DeleteSpotsBySpotter ids d = (r, d') \<Longrightarrow> store_step ok d d'"
| moderate: "MarkModerated ids d = (r, d') \<Longrightarrow> store_step ok d d'"
| owner: "SetSpotOwner i j v d = (u, d') \<Longrightarrow> store_step ok d d'"
| control: "DeleteControlMessages d = (r, d') \<Longrightarrow> store_step ok d d'"
| delete: "DeleteSpotsByMessageID ids d = (r, d') \<Longrightarrow> store_step ok d d'"

text \<open>With the backfill watermark, and with pruning. The spots are the parser's.\<close>

inductive keep_step :: "database \<Rightarrow> database \<Rightarrow> bool" where
  store: "store_step adult_flag_ok d d' \<Longrightarrow> keep_step d d'"
| backfill: "SetBackfillState grp n d = (u, d') \<Longrightarrow> keep_step d d'"

inductive db_step :: "database \<Rightarrow> database \<Rightarrow> bool" where
  keep: "keep_step d d' \<Longrightarrow> db_step d d'"
| prune: "PruneModeratedRing t d = (r, d') \<Longrightarrow> db_step d d'"

inductive_cases keep_stepE: "keep_step d d'"
inductive_cases db_stepE: "db_step d d'"

lemma store_step_mono: "store_step ok d d' \<Longrightarrow> (\<And>s. ok s \<Longrightarrow> ok' s) \<Longrightarrow> store_step ok' d d'"
proof (induction rule: store_step.induct)
  case (insert ss d r d')
  then have "\<forall>s\<in>set ss. ok' s" by blast
  from store_step.insert[OF this insert(2)] show ?case .
qed (auto intro: store_step.intros)

lemma store_steps_mono:
  "(store_step ok)\<^sup>*\<^sup>* d d' \<Longrightarrow> (\<And>s. ok s \<Longrightarrow> ok' s) \<Longrightarrow> (store_step ok')\<^sup>*\<^sup>* d d'"
  by (induction rule: rtranclp_induct) (auto intro: rtranclp.rtrancl_into_rtrancl store_step_mono)

lemma store_keep_steps: "(store_step adult_flag_ok)\<^sup>*\<^sup>* d d' \<Longrightarrow> keep_step\<^sup>*\<^sup>* d d'"
  by (induction rule: rtranclp_induct) (auto intro: rtranclp.rtrancl_into_rtrancl keep_step.store)

lemma keep_db_steps: "keep_step\<^sup>*\<^sup>* d d' \<Longrightarrow> db_step\<^sup>*\<^sup>* d d'"
  by (induction rule: rtranclp_induct) (auto intro: rtranclp.rtrancl_into_rtrancl db_step.keep)

text \<open>A new database: empty tables, whatever the environment.\<close>

definition fresh_db :: "database \<Rightarrow> bool" where
  "fresh_db d \<longleftrightarrow> spots d = [] \<and> spots_fts d = [] \<and> moderated_ring d = [] \<and> nzbs d = [] \<and> images d = []
     \<and> spotter_lists d = [] \<and> sync_state d = (\<lambda>_. None)"

section \<open>The contract\<close>

definition enrich_row :: "Spot \<Rightarrow> spot_row \<Rightarrow> spot_row" where
  "enrich_row s r = r\<lparr>r_description := sp_Description s, r_image_url := sp_ImageURL s, r_nzb_id := sp_NzbID s,
     r_size := sp_Size s, r_spotter_id := sp_SpotterID s, r_verified := sp_Verified s\<rparr>"

definition mark_id :: "string \<Rightarrow> database \<Rightarrow> int \<times> database" where
  "mark_id i = update_spots False (\<lambda>r. r_message_id r = i) (r_moderated_update (\<lambda>_. True))"

locale statement_invariant =
  fixes I :: "database \<Rightarrow> bool" and ok :: "Spot \<Rightarrow> bool"
  assumes env_faults: "I (d\<lparr>faults := fs\<rparr>) = I d"
    and env_ctx: "I (d\<lparr>ctx_errs := es\<rparr>) = I d"
    and env_clock: "I (d\<lparr>clock := t\<rparr>) = I d"
    and other_tables: "I (d\<lparr>nzbs := bs\<rparr>) = I d" "I (d\<lparr>images := bs\<rparr>) = I d"
      "I (d\<lparr>spotter_lists := ls\<rparr>) = I d"
    and sync_rows: "I d \<Longrightarrow> (\<And>g. sync_field backfill_article_num g (d\<lparr>sync_state := ss\<rparr>)
        = sync_field backfill_article_num g d) \<Longrightarrow> I (d\<lparr>sync_state := ss\<rparr>)"
    and insert: "I d \<Longrightarrow> ok s \<Longrightarrow> insert_ignore s d = (n, d') \<Longrightarrow> I d'"
    and delete: "I d \<Longrightarrow> delete_spots P d = (n, d') \<Longrightarrow> I d'"
    and enrich: "I d \<Longrightarrow> update_spots True P (enrich_row s) d = (n, d') \<Longrightarrow> I d'"
    and owner: "I d \<Longrightarrow> update_spots False P (\<lambda>r. r\<lparr>r_spotter_id := j, r_verified := v\<rparr>) d = (n, d') \<Longrightarrow> I d'"
    and mark: "I d \<Longrightarrow> ring_add i d = (u, d1) \<Longrightarrow> mark_id i (d1\<lparr>faults := fs\<rparr>) = (n, d') \<Longrightarrow> I d'"
begin

lemmas env = env_faults env_ctx env_clock other_tables

lemma exec_keeps:
  assumes "I d" "exec f d = (res, d')" "\<And>d x d'. I d \<Longrightarrow> f d = (x, d') \<Longrightarrow> I d'"
  shows "I d'"
proof -
  have "I d'" if "f (d\<lparr>faults := fs\<rparr>) = (x, d')" for fs x
    using assms(3)[OF _ that] assms(1) by (simp add: env)
  then show ?thesis using exec_cases[OF assms(2)] assms(1) by (auto simp: env)
qed

lemma query_keeps: "I d \<Longrightarrow> query f d = (res, d') \<Longrightarrow> I d'"
  using query_same[of f d res d'] by (auto simp: env)

lemma ctx_keeps: "I d \<Longrightarrow> ctx_Err d = (res, d') \<Longrightarrow> I d'"
  using ctx_Err_spots[of d res d'] by (auto simp: env)

lemma seq_keeps:
  assumes "(case m of (Inl e, d2) \<Rightarrow> (Inl e, d2) | (Inr u, d2) \<Rightarrow> g u d2) = (r, d')"
    and "\<And>res d2. m = (res, d2) \<Longrightarrow> I d2"
    and "\<And>u d2. I d2 \<Longrightarrow> g u d2 = (r, d') \<Longrightarrow> I d'"
  shows "I d'"
  using assms by (cases m; cases "fst m") auto

lemma tx_keeps:
  assumes "I d" "tx body d = (res, d')" "\<And>d x d'. I d \<Longrightarrow> body d = (Inr x, d') \<Longrightarrow> I d'"
  shows "I d'"
  using assms(1,2)
  by (auto simp: tx_def env split: prod.splits sum.splits dest!: query_keeps[rotated] intro: assms(3))

lemma insert_loop_keeps:
  "I d \<Longrightarrow> \<forall>s\<in>set ss. ok s \<Longrightarrow> insert_loop n ss d = (Inr r, d') \<Longrightarrow> I d'"
proof (induction ss arbitrary: n d)
  case (Cons s ss)
  then obtain m d1 where s: "exec (insert_ignore s) d = (Inr m, d1)" "insert_loop (n + m) ss d1 = (Inr r, d')"
    by (auto split: prod.splits sum.splits)
  have "ok s" using Cons.prems(2) by simp
  from exec_keeps[OF Cons.prems(1) s(1) insert[OF _ this]] have "I d1" .
  with Cons.IH[OF _ _ s(2)] Cons.prems show ?case by simp
qed simp

lemma InsertSpots_keeps:
  assumes "I d" "\<forall>s\<in>set ss. ok s" "InsertSpots ss d = (r, d')"
  shows "I d'"
proof (cases "ss = []")
  case False
  show ?thesis
    by (rule tx_keeps[OF assms(1) assms(3)[unfolded InsertSpots_def if_not_P[OF False]]])
      (erule seq_keeps, erule query_keeps, assumption, erule insert_loop_keeps[OF _ assms(2)])
qed (use assms in \<open>simp add: InsertSpots_def\<close>)

lemma retention_keeps: "I d \<Longrightarrow> retention_loop cutoff n d = (r, d') \<Longrightarrow> I d'"
proof (induction cutoff n d rule: retention_loop.induct)
  case (1 cutoff n d)
  obtain r1 d1 where c: "ctx_Err d = (r1, d1)" by fastforce
  note i1 = ctx_keeps[OF "1.prems"(1) c]
  show ?case
  proof (cases r1)
    case (Inr u)
    obtain r2 d2 where e: "exec (evict_old_nzbs cutoff) d1 = (r2, d2)" by fastforce
    have i2: "I d2" by (rule exec_keeps[OF i1 e]) (auto simp: evict_old_nzbs_def Let_def env)
    show ?thesis
    proof (cases r2)
      case r2: (Inr v)
      obtain r3 d3 where x: "exec (delete_old_chunk cutoff) d2 = (r3, d3)" by fastforce
      have i3: "I d3" by (rule exec_keeps[OF i2 x]) (auto simp: delete_old_chunk_def Let_def intro: delete)
      show ?thesis
        using "1.prems" "1.IH"[OF c[symmetric] Inr e[symmetric] r2 x[symmetric] _ _ i3] i3 Inr r2
        by (auto simp: retention_loop.simps[of cutoff n d] c e x split: sum.splits if_splits)
    qed (use "1.prems" Inr i2 in \<open>auto simp: retention_loop.simps[of cutoff n d] c e\<close>)
  qed (use "1.prems" i1 in \<open>auto simp: retention_loop.simps[of cutoff n d] c\<close>)
qed

lemma CacheBytes_keeps: "I d \<Longrightarrow> CacheBytes d = (r, d') \<Longrightarrow> I d'"
  using CacheBytes_same[of d r d'] by (auto simp: env)

lemma evict_loop_keeps: "I d \<Longrightarrow> evict_loop img m c n d = (r, d') \<Longrightarrow> I d'"
proof (induction img m c n d rule: evict_loop.induct)
  case (1 img m c n d)
  obtain r1 d1 where x: "ctx_Err d = (r1, d1)" by fastforce
  note i1 = ctx_keeps[OF "1.prems"(1) x]
  obtain r2 d2 where e: "exec (evict_oldest img) d1 = (r2, d2)" by fastforce
  have i2: "I d2" by (rule exec_keeps[OF i1 e]) (auto simp: evict_oldest_def Let_def env split: if_splits)
  obtain r3 d3 where b: "CacheBytes d2 = (r3, d3)" by fastforce
  note i3 = CacheBytes_keeps[OF i2 b]
  from "1.prems" "1.IH"[OF _ x[symmetric] _ e[symmetric] _ _ b[symmetric] _ i3] i1 i2 i3
  show ?case
    by (auto simp: evict_loop.simps[of img m c n d] x e b split: if_splits sum.splits)
qed

lemma EvictCacheTo_keeps: "I d \<Longrightarrow> EvictCacheTo m d = (r, d') \<Longrightarrow> I d'"
  by (auto simp: EvictCacheTo_def split: prod.splits sum.splits if_splits)
    (meson CacheBytes_keeps evict_loop_keeps)+

lemma put_spotters_keeps: "I d \<Longrightarrow> put_spotters ty origin ids d = (r, d') \<Longrightarrow> I d'"
proof (induction ids arbitrary: d)
  case (Cons i ids)
  have p: "I d2" if "I d1" "exec (put_spotter j ty origin) d1 = (res, d2)" for d1 j res d2
    by (rule exec_keeps[OF that]) (auto simp: put_spotter_def env)
  show ?case
    using Cons.prems Cons.IH
    by (auto simp: Let_def split: if_splits prod.splits sum.splits dest: p)
qed simp

lemma ReplaceSpotterList_keeps:
  assumes "I d" "ReplaceSpotterList ty origin ids d = (r, d')"
  shows "I d'"
proof -
  have p: "I d2" if "I d1" "exec (\<lambda>d. ((), d\<lparr>spotter_lists := filter (\<lambda>(_, t, _). t \<noteq> ty) (spotter_lists d)\<rparr>)) d1
      = (res, d2)" for d1 res d2
    by (rule exec_keeps[OF that]) (auto simp: env)
  show ?thesis
    by (rule tx_keeps[OF assms(1) assms(2)[unfolded ReplaceSpotterList_def]])
      (erule seq_keeps, erule p, assumption, erule seq_keeps, erule query_keeps, assumption,
        erule put_spotters_keeps)
qed

lemma delete_batches_keeps: "I d \<Longrightarrow> delete_batches col ids n d = (r, d') \<Longrightarrow> I d'"
proof (induction col ids n d rule: delete_batches.induct)
  case (1 col ids n d)
  obtain r1 d1 where x: "exec (delete_spots (\<lambda>r. col r \<in> set (take 400 ids))) d = (r1, d1)" by fastforce
  have i1: "I d1" by (rule exec_keeps[OF "1.prems"(1) x]) (rule delete)
  from "1.prems" "1.IH"[OF _ x[symmetric] _ i1] i1
  show ?case by (auto simp: delete_batches.simps[of col ids n d] x split: if_splits sum.splits)
qed

lemma mark_loop_keeps: "I d \<Longrightarrow> mark_loop n ids d = (Inr r, d') \<Longrightarrow> I d'"
proof (induction ids arbitrary: n d)
  case (Cons i ids)
  then obtain u d1 m d2 where s: "exec (ring_add i) d = (Inr u, d1)" "exec (mark_id i) d1 = (Inr m, d2)"
    "mark_loop (n + m) ids d2 = (Inr r, d')"
    by (auto simp: mark_id_def split: prod.splits sum.splits)
  from exec_Inr[OF s(1)] obtain fs where 1: "ring_add i (d\<lparr>faults := fs\<rparr>) = (u, d1)" by blast
  from exec_Inr[OF s(2)] obtain fs' where 2: "mark_id i (d1\<lparr>faults := fs'\<rparr>) = (m, d2)" by blast
  have "I d2" using mark[OF _ 1 2] Cons.prems(1) by (simp add: env)
  with Cons.IH[OF _ s(3)] show ?case by simp
qed simp

lemma MarkModerated_keeps:
  assumes "I d" "MarkModerated ids d = (r, d')"
  shows "I d'"
proof (cases "ids = []")
  case False
  show ?thesis
    by (rule tx_keeps[OF assms(1) assms(2)[unfolded MarkModerated_def if_not_P[OF False]]])
      (erule seq_keeps, erule query_keeps, assumption, erule seq_keeps, erule query_keeps, assumption,
        erule mark_loop_keeps)
qed (use assms in \<open>simp add: MarkModerated_def\<close>)

lemma sync_keeps: "I d \<Longrightarrow> SetSyncState grp n d = (u, d') \<Longrightarrow> I d'"
  unfolding SetSyncState_def
  by (elim exec_keeps[rotated]) (auto simp: sync_field_def sync_row_of_def empty_sync_row_def intro!: sync_rows
      split: option.splits)

lemma sweep_keeps: "I d \<Longrightarrow> SetDisposeSweepState grp n d = (u, d') \<Longrightarrow> I d'"
  unfolding SetDisposeSweepState_def
  by (elim exec_keeps[rotated]) (auto simp: sync_field_def intro!: sync_rows split: option.splits)

lemma store_step_keeps: "store_step ok d d' \<Longrightarrow> I d \<Longrightarrow> I d'"
proof (induction rule: store_step.induct)
  case (retention t d r d')
  then show ?case by (auto simp: DeleteSpotsOlderThan_def intro: retention_keeps)
next
  case (enrich s d u d')
  show ?case
    using enrich(1) unfolding UpdateSpotEnrichment_def
    by (rule exec_keeps[OF enrich(2)])
      (auto simp: enrich_row_def[symmetric] intro: statement_invariant.enrich[OF statement_invariant_axioms] prod.collapse[symmetric])
next
  case (owner i j v d u d')
  show ?case
    using owner(1) unfolding SetSpotOwner_def
    by (rule exec_keeps[OF owner(2)])
      (auto intro: statement_invariant.owner[OF statement_invariant_axioms] prod.collapse[symmetric])
next
  case (control d r d')
  show ?case using control(1) unfolding DeleteControlMessages_def
    by (rule exec_keeps[OF control(2)]) (rule statement_invariant.delete[OF statement_invariant_axioms])
qed (auto simp: env CacheNZB_def
    CacheImage_def DeleteSpotsBySpotter_def DeleteSpotsByMessageID_def
    intro: sync_keeps sweep_keeps InsertSpots_keeps EvictCacheTo_keeps ReplaceSpotterList_keeps MarkModerated_keeps
      delete_batches_keeps exec_keeps split: if_splits option.splits)

lemma store_steps_keep: "(store_step ok)\<^sup>*\<^sup>* d d' \<Longrightarrow> I d \<Longrightarrow> I d'"
  by (induction rule: rtranclp_induct) (auto intro: store_step_keeps)

end

text \<open>A property that does not look at the sync state at all is kept by the backfill as well.\<close>

locale table_invariant = statement_invariant I adult_flag_ok for I +
  assumes any_sync: "I (d\<lparr>sync_state := ss\<rparr>) = I d"
begin

lemma backfill_keeps: "I d \<Longrightarrow> SetBackfillState grp n d = (u, d') \<Longrightarrow> I d'"
  unfolding SetBackfillState_def by (elim exec_keeps[rotated]) (auto simp: any_sync)

lemma keep_step_keeps: "keep_step d d' \<Longrightarrow> I d \<Longrightarrow> I d'"
  by (auto elim!: keep_stepE intro: store_step_keeps backfill_keeps)

lemma keep_steps_keep: "keep_step\<^sup>*\<^sup>* d d' \<Longrightarrow> I d \<Longrightarrow> I d'"
  by (induction rule: rtranclp_induct) (auto intro: keep_step_keeps)

end

end
