(* ===== verification/StoreProps.thy ===== *)
theory StoreProps
  imports StoreOps
begin

text \<open>
  The contracts of the store, and the properties that rest on them: the table invariant in every
  reachable database, withdrawals that stay effective, ids that keep their meaning, and what
  inserting, searching, retention, eviction and list replacement do.
\<close>

section \<open>The contract holds for the table invariant\<close>

lemma ring_add_ids: "ring_add i d = (u, d') \<Longrightarrow> ring_ids d' = insert i (ring_ids d)"
  by (auto simp: ring_add_def ring_ids_def split: if_splits)

lemma ring_add_tables:
  "ring_add i d = (u, d') \<Longrightarrow> spots d' = spots d \<and> next_id d' = next_id d \<and> spots_fts d' = spots_fts d"
  by (auto simp: ring_add_def split: if_splits)

lemma tables_ok_insert:
  "tables_ok rows nid idx W \<Longrightarrow> \<forall>r\<in>set rows. r_message_id r = i \<longrightarrow> r_moderated r \<Longrightarrow>
   tables_ok rows nid idx (insert i W)"
  unfolding tables_ok_def by blast

lemma mark_id_tables:
  assumes "tables_ok (spots d) (next_id d) (spots_fts d) W" "mark_id i d = (n, d')"
  shows "tables_ok (spots d') (next_id d') (spots_fts d') (insert i W)"
proof -
  let ?f = "r_moderated_update (\<lambda>_. True)" and ?P = "\<lambda>r. r_message_id r = i"
  have "tables_ok (map (\<lambda>r. if ?P r then ?f r else r) (spots d)) (next_id d) (spots_fts d) W"
    using tables_ok_update[OF assms(1), of ?f False ?P]
    by (simp add: row_kind_ok_def fts_doc_of_def)
  then have "tables_ok (map (\<lambda>r. if ?P r then ?f r else r) (spots d)) (next_id d) (spots_fts d) (insert i W)"
    by (rule tables_ok_insert) (simp add: ball_Un)
  then show ?thesis using assms(2) by (auto simp: mark_id_def update_spots_def Let_def)
qed

lemma mark_id_ring: "mark_id i d = (n, d') \<Longrightarrow> ring_ids d' = ring_ids d"
  by (auto simp: mark_id_def update_spots_def Let_def)

interpretation tables: table_invariant store_inv
proof
  fix d d' :: database and P s n
  assume i: "store_inv d"
  show "store_inv d'" if "update_spots True P (enrich_row s) d = (n, d')"
    by (rule update_spots_inv[OF i that]) (simp_all add: enrich_row_def row_kind_ok_def)
  show "store_inv d'" if "update_spots False P (\<lambda>r. r\<lparr>r_spotter_id := j, r_verified := v\<rparr>) d = (n, d')" for j v
    by (rule update_spots_inv[OF i that]) (simp_all add: row_kind_ok_def fts_doc_of_def)
next
  fix d d1 d' :: database and i u fs n
  assume d: "store_inv d" and a: "ring_add i d = (u, d1)" and m: "mark_id i (d1\<lparr>faults := fs\<rparr>) = (n, d')"
  have "tables_ok (spots d') (next_id d') (spots_fts d') (insert i (ring_ids d))"
    using mark_id_tables[OF _ m] d ring_add_tables[OF a] by (simp add: store_inv_def)
  moreover have "ring_ids d' = insert i (ring_ids d)" using mark_id_ring[OF m] ring_add_ids[OF a] by simp
  ultimately show "store_inv d'" by (simp add: store_inv_def)
qed (auto intro: insert_ignore_inv delete_spots_inv)

section \<open>The contract holds for membership of the ring\<close>

interpretation ring: table_invariant "\<lambda>d. i \<in> ring_ids d" for i
  by unfold_locales
    (auto simp: insert_ignore_def delete_spots_def update_spots_def Let_def dest!: ring_add_ids mark_id_ring
       split: if_splits)

section \<open>The contract holds for the meaning of an id\<close>

definition id_means :: "int \<Rightarrow> string \<Rightarrow> database \<Rightarrow> bool" where
  "id_means k m d \<longleftrightarrow> k < next_id d \<and> (\<forall>r\<in>set (spots d). r_id r = k \<longrightarrow> r_message_id r = m)"

interpretation id_meaning: table_invariant "id_means k m" for k m
  by unfold_locales
    (auto simp: id_means_def insert_ignore_def delete_spots_def update_spots_def Let_def mark_id_def
       enrich_row_def row_of_spot_def dest!: ring_add_tables split: if_splits)

section \<open>Reachable databases\<close>

lemma prune_inv: "store_inv d \<Longrightarrow> PruneModeratedRing t d = (r, d') \<Longrightarrow> store_inv d'"
proof -
  have sub: "tables_ok rows nid idx W \<Longrightarrow> W' \<subseteq> W \<Longrightarrow> tables_ok rows nid idx W'" for rows nid idx W W'
    by (auto simp: tables_ok_def)
  assume "store_inv d" "PruneModeratedRing t d = (r, d')"
  then show ?thesis
    unfolding PruneModeratedRing_def
    by (elim tables.exec_keeps[rotated]) (auto simp: store_inv_def ring_ids_def Let_def intro: sub)
qed

interpretation store: invariant fresh_db db_step store_inv
proof
  show "store_inv d" if "fresh_db d" for d
    using that by (simp add: fresh_db_def store_inv_def tables_ok_def)
  show "store_inv d'" if "store_inv d" "db_step d d'" for d d'
    using that(2,1) by (cases rule: db_step.cases) (auto intro: tables.keep_step_keeps prune_inv)
qed

section \<open>Transactions are all or nothing\<close>

lemma tx_Inl: "tx body d = (Inl e, d') \<Longrightarrow> \<exists>fs. d' = d\<lparr>faults := fs\<rparr>"
  by (auto simp: tx_def split: prod.splits sum.splits dest!: query_same)

lemma tx_Inr:
  "tx body d = (Inr x, d') \<Longrightarrow>
   \<exists>fs d2 fs'. body (d\<lparr>faults := fs\<rparr>) = (Inr x, d2) \<and> d' = d2\<lparr>faults := fs'\<rparr>"
  by (auto simp: tx_def split: prod.splits sum.splits dest!: query_same)

lemma seq_query_Inr:
  assumes "(case query f d of (Inl e, d2) \<Rightarrow> (Inl e, d2) | (Inr u, d2) \<Rightarrow> g u d2) = (Inr r, d')"
  shows "\<exists>fs u. g u (d\<lparr>faults := fs\<rparr>) = (Inr r, d')"
  using assms by (auto split: prod.splits sum.splits dest!: query_same)

section \<open>A small database for the examples\<close>

definition demo_spot :: "string \<Rightarrow> int \<Rightarrow> Spot" where
  "demo_spot i posted =
     \<lparr>sp_ID = 0, sp_MessageID = i, sp_ArticleNum = 7, sp_Title = ''T'', sp_Description = [],
      sp_Poster = ''P'', sp_PostedAt = unix_time posted, sp_Tag = [], sp_NzbID = i, sp_Category = 1,
      sp_SubCatA = ''a0|'', sp_SubCatB = [], sp_SubCatC = [], sp_SubCatD = [], sp_Size = 10,
      sp_ImageURL = [], sp_Verified = False, sp_Moderated = False, sp_IsAdult = False,
      sp_SpotterID = [], sp_Kind = 0, sp_KeyID = 2, sp_HeaderPart = [], sp_HeaderSig = [],
      sp_SelfSignedKey = []\<rparr>"

definition demo_db :: database where
  "demo_db = \<lparr>spots = [], next_id = 1, spots_fts = [], moderated_ring = [], nzbs = [], images = [],
     spotter_lists = [], sync_state = (\<lambda>_. None), app_settings = (\<lambda>_. None), clock = 1000000000,
     faults = [], ctx_errs = []\<rparr>"

lemma demo_fresh: "fresh_db demo_db"
  by (simp add: fresh_db_def demo_db_def)

lemma demo_flag: "adult_flag_ok (demo_spot i n)"
  by (simp add: adult_flag_ok_def demo_spot_def KindOf_def KindErotic_def KindNone_def)

definition demo_inserted :: database where
  "demo_inserted = snd (InsertSpots [demo_spot ''<a@x>'' 5, demo_spot ''<b@x>'' 9] demo_db)"

definition demo_withdrawn :: database where
  "demo_withdrawn = snd (MarkModerated [''<a@x>''] demo_inserted)"

lemma demo_inserted_step: "db_step demo_db demo_inserted"
proof (rule db_step.keep, rule keep_step.store, rule store_step.insert)
  let ?ss = "[demo_spot ''<a@x>'' 5, demo_spot ''<b@x>'' 9]"
  show "\<forall>s\<in>set ?ss. adult_flag_ok s" by (simp add: demo_flag)
  show "InsertSpots ?ss demo_db = (fst (InsertSpots ?ss demo_db), demo_inserted)"
    by (simp add: demo_inserted_def)
qed

lemma demo_withdrawn_step: "keep_step demo_inserted demo_withdrawn"
  by (rule keep_step.store, rule store_step.moderate[of "[''<a@x>'']" _ "fst (MarkModerated [''<a@x>''] demo_inserted)"])
    (simp add: demo_withdrawn_def)

lemma demo_reachable: "db_step\<^sup>*\<^sup>* demo_db demo_withdrawn"
  using demo_inserted_step demo_withdrawn_step by (meson db_step.keep rtranclp.simps)

section \<open>Reachable databases are consistent\<close>

text \<open>C14: In every database the program can reach from an empty one, by any sequence of store
  operations with any arguments and any failing statements: message-ids and row ids are unique, the
  full-text index holds exactly one document per row with the row's current text, every row whose
  message-id is in the moderation ring is hidden, and every row's kind column is the kind of its
  subcategories and its 18+ flag says whether that kind is the erotic one.\<close>

theorem store_tables_consistent:
  assumes "fresh_db d0" and "db_step\<^sup>*\<^sup>* d0 d"
  shows "distinct (map r_message_id (spots d)) \<and> distinct (map r_id (spots d))
    \<and> mset (spots_fts d) = mset (map fts_doc_of (spots d))
    \<and> (\<forall>r\<in>set (spots d). r_message_id r \<in> ring_ids d \<longrightarrow> r_moderated r)
    \<and> (\<forall>r\<in>set (spots d). r_kind r = KindOf (r_category r) (r_sub_cat_a r) (r_sub_cat_b r) (r_sub_cat_d r)
         \<and> (r_is_adult r \<longleftrightarrow> r_kind r = KindErotic))"
  using store.inv_reachable[OF assms] unfolding store_inv_def tables_ok_def row_kind_ok_def by blast

theorem store_tables_consistent_witness:
  "db_step\<^sup>*\<^sup>* demo_db demo_withdrawn \<and> length (spots demo_withdrawn) = 2
   \<and> mset (spots_fts demo_withdrawn) = mset (map fts_doc_of (spots demo_withdrawn))"
proof -
  have "length (spots demo_withdrawn) = 2" by code_simp
  with store_tables_consistent[OF demo_fresh demo_reachable] demo_reachable show ?thesis by simp
qed

section \<open>Withdrawals stay effective\<close>

lemma mark_loop_ring: "mark_loop n ids d = (Inr r, d') \<Longrightarrow> set ids \<union> ring_ids d \<subseteq> ring_ids d'"
proof (induction ids arbitrary: n d)
  case (Cons i ids)
  from Cons.prems obtain u d1 m d2 where s: "exec (ring_add i) d = (Inr u, d1)" "exec (mark_id i) d1 = (Inr m, d2)"
    "mark_loop (n + m) ids d2 = (Inr r, d')"
    by (auto simp: mark_id_def split: prod.splits sum.splits)
  from exec_Inr[OF s(1)] obtain fs where "ring_add i (d\<lparr>faults := fs\<rparr>) = (u, d1)" by blast
  from ring_add_ids[OF this] have "ring_ids d1 = insert i (ring_ids d)" by simp
  moreover from exec_Inr[OF s(2)] obtain fs where "mark_id i (d1\<lparr>faults := fs\<rparr>) = (m, d2)" by blast
  from mark_id_ring[OF this] have "ring_ids d2 = ring_ids d1" by simp
  ultimately show ?case using Cons.IH[OF s(3)] by auto
qed simp

lemma MarkModerated_ring: "MarkModerated ids d = (Inr r, d') \<Longrightarrow> set ids \<subseteq> ring_ids d'"
proof (cases "ids = []")
  case False
  assume "MarkModerated ids d = (Inr r, d')"
  from tx_Inr[OF this[unfolded MarkModerated_def if_not_P[OF False]]]
  obtain fs d2 fs' where m: "(case query (\<lambda>_. ()) (d\<lparr>faults := fs\<rparr>) of (Inl e, d2) \<Rightarrow> (Inl e, d2)
      | (Inr _, d2) \<Rightarrow> (case query (\<lambda>_. ()) d2 of (Inl e, d3) \<Rightarrow> (Inl e, d3)
        | (Inr _, d3) \<Rightarrow> mark_loop 0 ids d3)) = (Inr r, d2)" and d': "d' = d2\<lparr>faults := fs'\<rparr>" by blast
  from seq_query_Inr[OF m] obtain fs2 where "mark_loop 0 ids (d\<lparr>faults := fs2\<rparr>) = (Inr r, d2)"
    by (auto dest!: seq_query_Inr)
  then show ?thesis using mark_loop_ring d' by auto
qed simp

lemma query_Inr: "query f d = (Inr x, d') \<Longrightarrow> x = f d' \<and> (\<exists>fs. d' = d\<lparr>faults := fs\<rparr>)"
  unfolding query_def by (drule exec_cases) auto

lemma search_where_faults [simp]: "search_where m p (d\<lparr>faults := fs\<rparr>) = search_where m p d"
  by (simp add: fun_eq_iff search_where_def in_fts_def)

lemma matching_faults [simp]: "matching m p (d\<lparr>faults := fs\<rparr>) = matching m p d"
  by (simp add: matching_def)

lemma SearchSpots_Inr:
  assumes "SearchSpots m p d = (Inr (ss, cnt), d')"
  defines "q \<equiv> search_defaults p"
  shows "ss = map scanSpot (sql_limit (Limit q) (Offset q) (sort_key (search_order q) (matching m q d)))"
    and "cnt = int (length (matching m q d))"
  using assms(1) unfolding SearchSpots_def q_def[symmetric] Let_def
  by (auto split: prod.splits sum.splits dest!: query_Inr)

lemma search_defaults_simps [simp]:
  "AdultOnly (search_defaults p) = AdultOnly p" "AllowAdult (search_defaults p) = AllowAdult p"
  "Offset (search_defaults p) = Offset p" "Limit (search_defaults p) = (if Limit p = 0 then 25 else Limit p)"
  by (simp_all add: search_defaults_def Let_def)

lemma set_sql_limit: "set (sql_limit l k xs) \<subseteq> set xs"
  using set_take_subset[of "nat l" "drop (nat k) xs"] set_drop_subset[of "nat k" xs]
  by (auto simp: sql_limit_def Let_def)

lemma search_visible:
  assumes "SearchSpots m p d = (Inr (ss, cnt), d')" "s \<in> set ss"
  obtains r where "r \<in> set (spots d)" "s = scanSpot r" "search_where m (search_defaults p) d r"
proof -
  from SearchSpots_Inr(1)[OF assms(1)] assms(2) obtain r
    where "r \<in> set (matching m (search_defaults p) d)" "s = scanSpot r"
    using set_sql_limit by fastforce
  with that show ?thesis by (auto simp: matching_def)
qed

text \<open>What the ring holds is not listed, whatever the store does (sync and backfill included) until the
  ring is pruned.\<close>

lemma ring_hides:
  assumes "store_inv d" and "i \<in> ring_ids d" and "keep_step\<^sup>*\<^sup>* d d2" and "SearchSpots m p d2 = (Inr (ss, cnt), d3)"
  shows "i \<notin> sp_MessageID ` set ss"
proof
  assume "i \<in> sp_MessageID ` set ss"
  then obtain s where s: "s \<in> set ss" "sp_MessageID s = i" by auto
  from search_visible[OF assms(4) s(1)] obtain r
    where r: "r \<in> set (spots d2)" "s = scanSpot r" "search_where m (search_defaults p) d2 r" .
  moreover have "store_inv d2" "i \<in> ring_ids d2"
    using tables.keep_steps_keep[OF assms(3,1)] ring.keep_steps_keep[OF assms(3,2)] .
  ultimately show False using s(2)
    by (auto simp: store_inv_def tables_ok_def scanSpot_def search_where_def)
qed

definition all_spots :: SearchParams where
  "all_spots = \<lparr>Query = [], Categories = [], q_Poster = [], MinSize = 0, MaxSize = 0, Since = zero_time,
     Limit = -1, Offset = 0, Before = zero_time, SortBy = [], AllowAdult = True, Kinds = [],
     AdultOnly = False, AnyOf = [], q_Tag = [], SubCodes = []\<rparr>"

section \<open>Ids keep their meaning\<close>

lemma prune_id_means: "id_means k m d \<Longrightarrow> PruneModeratedRing t d = (r, d') \<Longrightarrow> id_means k m d'"
  unfolding PruneModeratedRing_def
  by (elim id_meaning.exec_keeps[rotated]) (auto simp: id_means_def Let_def)

lemma db_steps_id_means: "db_step\<^sup>*\<^sup>* d d' \<Longrightarrow> id_means k m d \<Longrightarrow> id_means k m d'"
proof (induction rule: rtranclp_induct)
  case (step d1 d2)
  from step(2) show ?case
    by (cases rule: db_step.cases) (use step(3,4) in \<open>auto intro: id_meaning.keep_step_keeps prune_id_means\<close>)
qed

text \<open>C32: A row id handed to a client names one article for good: whatever happens to the store, a row
  found later under that id has the message-id it had then. Ids of deleted spots are never given to
  another spot.\<close>

theorem row_id_keeps_its_meaning:
  assumes "store_inv d" and "r \<in> set (spots d)" and "db_step\<^sup>*\<^sup>* d d'" and "r' \<in> set (spots d')"
    and "r_id r' = r_id r"
  shows "r_message_id r' = r_message_id r"
proof -
  have "r1 = r" if "r1 \<in> set (spots d)" "r_id r1 = r_id r" for r1
    using assms(1,2) that by (auto simp: store_inv_def tables_ok_def distinct_map inj_on_def)
  then have "id_means (r_id r) (r_message_id r) d"
    using assms(1,2) by (auto simp: id_means_def store_inv_def tables_ok_def)
  from db_steps_id_means[OF assms(3) this] assms(4,5) show ?thesis by (simp add: id_means_def)
qed

theorem row_id_keeps_its_meaning_witness:
  "map r_id (spots demo_inserted) = [1, 2] \<and> map r_id (spots demo_withdrawn) = [1, 2]
   \<and> r_message_id (hd (spots demo_withdrawn)) = r_message_id (hd (spots demo_inserted))"
proof -
  have inv: "store_inv demo_inserted"
    using store.inv_reachable[OF demo_fresh] demo_inserted_step by blast
  have ids: "map r_id (spots demo_inserted) = [1, 2]" "map r_id (spots demo_withdrawn) = [1, 2]"
    by code_simp+
  then have h: "hd (spots demo_inserted) \<in> set (spots demo_inserted)"
      "hd (spots demo_withdrawn) \<in> set (spots demo_withdrawn)"
      "r_id (hd (spots demo_withdrawn)) = r_id (hd (spots demo_inserted))"
    by (cases "spots demo_inserted"; cases "spots demo_withdrawn"; simp)+
  have step: "db_step\<^sup>*\<^sup>* demo_inserted demo_withdrawn"
    using demo_withdrawn_step by (meson db_step.keep r_into_rtranclp)
  from row_id_keeps_its_meaning[OF inv h(1) step h(2,3)] ids show ?thesis by simp
qed

end
