(* ===== verification/StoreSpec.thy ===== *)
theory StoreSpec
  imports StoreProps
begin

text \<open>
  What the store's operations do, one by one: inserting stores exactly the new spots, searching lists
  exactly the matching visible ones page by page, retention removes exactly the old ones with their
  NZBs, eviction brings the caches under their limit oldest first, and a spotter list is replaced as
  a whole or not at all.
\<close>

section \<open>Inserting\<close>

text \<open>The spots of a batch that are new: neither seen before nor earlier in the batch.\<close>

fun new_spots :: "string set \<Rightarrow> Spot list \<Rightarrow> Spot list" where
  "new_spots seen [] = []"
| "new_spots seen (s # ss) =
     (if sp_MessageID s \<in> seen then new_spots seen ss
      else s # new_spots (insert (sp_MessageID s) seen) ss)"

fun rows_from :: "int \<Rightarrow> int \<Rightarrow> Spot list \<Rightarrow> spot_row list" where
  "rows_from i now [] = []"
| "rows_from i now (s # ss) = row_of_spot s i now # rows_from (i + 1) now ss"

definition known_ids :: "database \<Rightarrow> string set" where
  "known_ids d = ring_ids d \<union> r_message_id ` set (spots d)"

definition stored :: "Spot list \<Rightarrow> database \<Rightarrow> database" where
  "stored new d =
     d\<lparr>spots := spots d @ rows_from (next_id d) (clock d) new,
       next_id := next_id d + int (length new),
       spots_fts := spots_fts d @ map fts_doc_of (rows_from (next_id d) (clock d) new)\<rparr>"

lemma stored_Nil [simp]: "stored [] d = d"
  by (simp add: stored_def)

lemma stored_faults: "stored new (d\<lparr>faults := fs\<rparr>) = (stored new d)\<lparr>faults := fs\<rparr>"
  by (simp add: stored_def)

lemma known_ids_faults [simp]: "known_ids (d\<lparr>faults := fs\<rparr>) = known_ids d"
  by (simp add: known_ids_def)

lemma insert_ignore_stored:
  "insert_ignore s d = (if sp_MessageID s \<in> known_ids d then (0, d) else (1, stored [s] d))"
  by (simp add: insert_ignore_def known_ids_def ring_ids_def stored_def Let_def)

lemma known_ids_stored: "known_ids (stored [s] d) = insert (sp_MessageID s) (known_ids d)"
  by (auto simp: known_ids_def stored_def row_of_spot_def)

lemma stored_stored: "stored ss (stored [s] d) = stored (s # ss) d"
  by (simp add: stored_def)

lemma insert_loop_stored:
  "insert_loop n ss d = (Inr r, d') \<Longrightarrow>
   r = n + int (length (new_spots (known_ids d) ss)) \<and> (\<exists>fs. d' = (stored (new_spots (known_ids d) ss) d)\<lparr>faults := fs\<rparr>)"
proof (induction ss arbitrary: n d)
  case Nil
  then show ?case by (auto intro: exI[of _ "faults d"])
next
  case (Cons s ss)
  from Cons.prems obtain m d1 where s: "exec (insert_ignore s) d = (Inr m, d1)" "insert_loop (n + m) ss d1 = (Inr r, d')"
    by (auto split: prod.splits sum.splits)
  from exec_Inr[OF s(1)] obtain fs where m: "insert_ignore s (d\<lparr>faults := fs\<rparr>) = (m, d1)" by blast
  from Cons.IH[OF s(2)] obtain fs' where r: "r = n + m + int (length (new_spots (known_ids d1) ss))"
    "d' = (stored (new_spots (known_ids d1) ss) d1)\<lparr>faults := fs'\<rparr>" by blast
  show ?case
  proof (cases "sp_MessageID s \<in> known_ids d")
    case True
    with m have "m = 0" "d1 = d\<lparr>faults := fs\<rparr>" by (simp_all add: insert_ignore_stored)
    with r True show ?thesis by (auto simp: stored_faults)
  next
    case False
    with m have "m = 1" "d1 = (stored [s] d)\<lparr>faults := fs\<rparr>"
      by (simp_all add: insert_ignore_stored stored_faults)
    with r False show ?thesis by (auto simp: stored_faults known_ids_stored stored_stored)
  qed
qed

lemma InsertSpots_Inr:
  assumes "InsertSpots ss d = (Inr n, d')"
  shows "n = int (length (new_spots (known_ids d) ss))
    \<and> (\<exists>fs. d' = (stored (new_spots (known_ids d) ss) d)\<lparr>faults := fs\<rparr>)"
proof (cases "ss = []")
  case True
  with assms show ?thesis by (auto simp: InsertSpots_def intro: exI[of _ "faults d"])
next
  case False
  note t = assms[unfolded InsertSpots_def if_not_P[OF False]]
  from tx_Inr[OF t] obtain fs d2 fs' where
    m: "(case query (\<lambda>_. ()) (d\<lparr>faults := fs\<rparr>) of (Inl e, d2) \<Rightarrow> (Inl e, d2)
       | (Inr _, d2) \<Rightarrow> insert_loop 0 ss d2) = (Inr n, d2)" and d': "d' = d2\<lparr>faults := fs'\<rparr>" by blast
  from seq_query_Inr[OF m] obtain fs2 where "insert_loop 0 ss (d\<lparr>faults := fs2\<rparr>) = (Inr n, d2)" by auto
  from insert_loop_stored[OF this] d' show ?thesis by (auto simp: stored_faults)
qed

lemma InsertSpots_Inl: "InsertSpots ss d = (Inl e, d') \<Longrightarrow> ss \<noteq> [] \<and> (\<exists>fs. d' = d\<lparr>faults := fs\<rparr>)"
  by (auto simp: InsertSpots_def split: if_splits dest!: tx_Inl)

text \<open>A batch is stored as a whole or not at all. When \<open>InsertSpots\<close> succeeds, exactly the spots
  that are new (no row and no ring entry with their message-id, nor an earlier spot of the batch)
  are appended in order with consecutive fresh ids and indexed, the count returned is their number,
  and nothing else of the database changes. When any statement fails, nothing changes.\<close>

lemma InsertSpots_stores_the_new:
  "case InsertSpots ss d of
     (Inl e, d') \<Rightarrow> \<exists>fs. d' = d\<lparr>faults := fs\<rparr>
   | (Inr n, d') \<Rightarrow> (let new = new_spots (known_ids d) ss
                   in n = int (length new) \<and> (\<exists>fs. d' = (stored new d)\<lparr>faults := fs\<rparr>))"
  using InsertSpots_Inr[of ss d] InsertSpots_Inl[of ss d]
  by (cases "InsertSpots ss d"; cases "fst (InsertSpots ss d)") (auto simp: Let_def)

lemma new_spots_known: "set (map sp_MessageID ss) \<subseteq> seen \<Longrightarrow> new_spots seen ss = []"
  by (induction ss) auto

lemma known_after: "set (map sp_MessageID ss) \<subseteq> seen \<union> set (map sp_MessageID (new_spots seen ss))"
proof (induction ss arbitrary: seen)
  case (Cons s ss)
  from Cons.IH[of seen] Cons.IH[of "insert (sp_MessageID s) seen"] show ?case by auto
qed simp

lemma rows_from_ids: "map r_message_id (rows_from i now ss) = map sp_MessageID ss"
  by (induction ss arbitrary: i) (simp_all add: row_of_spot_def)

lemma known_ids_stored_list: "known_ids (stored new d) = known_ids d \<union> set (map sp_MessageID new)"
proof -
  have "r_message_id ` set (rows_from i now new) = sp_MessageID ` set new" for i now
    using arg_cong[OF rows_from_ids[of i now new], of set] by simp
  then show ?thesis by (simp add: known_ids_def stored_def image_Un Un_assoc)
qed

text \<open>Inserting a batch again stores nothing, which is what lets the sync re-read a chunk it could
  not finish.\<close>

theorem InsertSpots_again_is_noop:
  assumes "InsertSpots ss d = (Inr n, d1)" and "InsertSpots ss d1 = (Inr m, d2)"
  shows "m = 0 \<and> (\<exists>fs. d2 = d1\<lparr>faults := fs\<rparr>)"
proof -
  let ?new = "new_spots (known_ids d) ss"
  from InsertSpots_Inr[OF assms(1)] obtain fs where d1: "d1 = (stored ?new d)\<lparr>faults := fs\<rparr>" by blast
  have "set (map sp_MessageID ss) \<subseteq> known_ids d1"
    using known_after[of ss "known_ids d"] by (simp add: d1 known_ids_stored_list)
  then have "new_spots (known_ids d1) ss = []" by (rule new_spots_known)
  with InsertSpots_Inr[OF assms(2)] show ?thesis by auto
qed

theorem InsertSpots_again_is_noop_witness:
  "\<exists>d2. InsertSpots [demo_spot ''<a@x>'' 5, demo_spot ''<b@x>'' 9] demo_inserted = (Inr 0, d2)
     \<and> (\<exists>fs. d2 = demo_inserted\<lparr>faults := fs\<rparr>)"
proof -
  let ?ss = "[demo_spot ''<a@x>'' 5, demo_spot ''<b@x>'' 9]"
  have "fst (InsertSpots ?ss demo_db) = Inr 2" by code_simp
  then have i: "InsertSpots ?ss demo_db = (Inr 2, demo_inserted)"
    by (simp add: demo_inserted_def prod_eq_iff)
  have "case fst (InsertSpots ?ss demo_inserted) of Inl _ \<Rightarrow> False | Inr _ \<Rightarrow> True" by code_simp
  then obtain m where "fst (InsertSpots ?ss demo_inserted) = Inr m" by (auto split: sum.splits)
  then have j: "InsertSpots ?ss demo_inserted = (Inr m, snd (InsertSpots ?ss demo_inserted))"
    by (simp add: prod_eq_iff)
  from InsertSpots_again_is_noop[OF i j] j show ?thesis by blast
qed

section \<open>Searching\<close>

lemma sorted_sql_limit:
  "sorted (map f xs) \<Longrightarrow> sorted (map f (sql_limit l k xs))"
  by (simp add: sql_limit_def Let_def take_map[symmetric] drop_map[symmetric] sorted_wrt_take sorted_wrt_drop)

lemma length_sql_limit:
  "length (sql_limit l k xs) \<le> length xs" "0 \<le> l \<Longrightarrow> int (length (sql_limit l k xs)) \<le> l"
  by (auto simp: sql_limit_def Let_def)

lemma to_unix_unix_time [simp]: "to_unix (unix_time n) = n"
  by (simp add: to_unix_def unix_time_def second_def)

lemma search_defaults_filters [simp]:
  "Categories (search_defaults p) = Categories p" "Kinds (search_defaults p) = Kinds p"
  "q_Poster (search_defaults p) = q_Poster p" "MinSize (search_defaults p) = MinSize p"
  "MaxSize (search_defaults p) = MaxSize p" "Before (search_defaults p) = Before p"
  "Since (search_defaults p) = Since p" "Query (search_defaults p) = Query p"
  "q_Tag (search_defaults p) = q_Tag p" "SubCodes (search_defaults p) = SubCodes p"
  "AnyOf (search_defaults p) = AnyOf p"
  "(SortBy (search_defaults p) = ''size'') = (SortBy p = ''size'')"
  by (simp_all add: search_defaults_def Let_def)

lemma search_where_defaults: "search_where m (search_defaults p) d = search_where m p d"
  by (simp add: fun_eq_iff search_where_def)

text \<open>What the filters of a search promise of one listed spot.\<close>

definition listed_ok :: "SearchParams \<Rightarrow> Spot \<Rightarrow> bool" where
  "listed_ok p s \<longleftrightarrow>
     \<not> sp_Moderated s \<and> (\<not> AllowAdult p \<and> \<not> AdultOnly p \<longrightarrow> \<not> sp_IsAdult s)
     \<and> (AdultOnly p \<longrightarrow> sp_IsAdult s)
     \<and> (Categories p \<noteq> [] \<longrightarrow> sp_Category s \<in> set (Categories p))
     \<and> (Kinds p \<noteq> [] \<longrightarrow> sp_Kind s \<in> set (Kinds p))
     \<and> (q_Poster p \<noteq> [] \<longrightarrow> sp_Poster s = q_Poster p)
     \<and> (0 < MinSize p \<longrightarrow> MinSize p \<le> sp_Size s) \<and> (0 < MaxSize p \<longrightarrow> sp_Size s \<le> MaxSize p)
     \<and> (Since p \<noteq> zero_time \<longrightarrow> to_unix (Since p) \<le> to_unix (sp_PostedAt s))
     \<and> (Before p \<noteq> zero_time \<longrightarrow> to_unix (sp_PostedAt s) < to_unix (Before p))"

lemma search_where_listed: "search_where m p d r \<Longrightarrow> listed_ok p (scanSpot r)"
  unfolding search_where_def listed_ok_def Let_def
  by (elim conjE, intro conjI impI) (simp_all add: scanSpot_def split: if_splits)

definition sort_value :: "SearchParams \<Rightarrow> Spot \<Rightarrow> int" where
  "sort_value p s = (if SortBy p = ''size'' then sp_Size s else to_unix (sp_PostedAt s))"

lemma sort_value_scan: "- sort_value p (scanSpot r) = search_order (search_defaults p) r"
  by (simp add: sort_value_def search_order_def scanSpot_def)



definition search_page ::
  "(string \<Rightarrow> fts_doc \<Rightarrow> bool) \<Rightarrow> SearchParams \<Rightarrow> database \<Rightarrow> int \<Rightarrow> int \<Rightarrow> Spot list" where
  "search_page m p d k l = fst (projr (fst (SearchSpots m (p\<lparr>Offset := k, Limit := l\<rparr>) d)))"

lemma page_result:
  assumes "faults d = []" "l \<noteq> 0"
  shows "search_page m p d k l = sql_limit l k (map scanSpot (sort_key (search_order p) (matching m p d)))"
proof -
  let ?p = "p\<lparr>Offset := k, Limit := l\<rparr>"
  have "search_order (search_defaults ?p) = search_order p"
    by (simp add: fun_eq_iff search_order_def)
  moreover have "search_where m ?p d = search_where m p d"
    by (simp add: fun_eq_iff search_where_def)
  then have "matching m (search_defaults ?p) d = matching m p d"
    by (simp add: matching_def search_where_defaults)
  ultimately show ?thesis
    using assms unfolding search_page_def
    by (simp add: SearchSpots_def Let_def query_def exec_def sql_limit_def take_map drop_map)
qed

text \<open>Paging through a search is complete: with the same filters and no change in between, the first
  \<open>n\<close> pages of \<open>L\<close> spots put together are the first \<open>n * L\<close> spots of the whole result, so no spot is
  skipped and none is shown twice.\<close>

lemma search_pages_cover_the_result:
  assumes "faults d = []" and "0 < L"
  shows "concat (map (\<lambda>k. search_page m p d (int k * L) L) [0..<n]) = take (n * nat L) (search_page m p d 0 (-1))"
proof -
  have "concat (map (\<lambda>k. take l (drop (k * l) xs)) [0..<n]) = take (n * l) xs" for l and xs :: "Spot list"
  proof (induction n)
    case (Suc n)
    have "Suc n * l = n * l + l" by simp
    with Suc show ?case by (simp only: take_add) simp
  qed simp
  then show ?thesis
    using assms by (simp add: page_result sql_limit_def nat_mult_distrib)
qed

theorem search_pages_cover_the_result_witness:
  "concat (map (\<lambda>k. search_page (\<lambda>_ _. True) all_spots demo_inserted (int k * 1) 1) [0..<2])
     = take (2 * nat 1) (search_page (\<lambda>_ _. True) all_spots demo_inserted 0 (-1))
   \<and> length (search_page (\<lambda>_ _. True) all_spots demo_inserted 0 (-1)) = 2"
proof -
  have "faults demo_inserted = []" by code_simp
  moreover have "length (search_page (\<lambda>_ _. True) all_spots demo_inserted 0 (-1)) = 2" by code_simp
  ultimately show ?thesis using search_pages_cover_the_result[of demo_inserted 1] by simp
qed

end
