(* ===== verification/Upkeep.thy ===== *)
theory Upkeep
  imports StoreSpec
begin

text \<open>
  The store's housekeeping: what retention, cache eviction and list replacement leave behind.
\<close>

section \<open>Retention\<close>

definition old_row :: "int \<Rightarrow> spot_row \<Rightarrow> bool" where
  "old_row c r \<longleftrightarrow> r_posted_at r < c"

definition nzb_ids :: "spot_row list \<Rightarrow> string set" where
  "nzb_ids rs = r_nzb_id ` {r \<in> set rs. r_nzb_id r \<noteq> []}"

definition keep_nzbs :: "string set \<Rightarrow> blob_row list \<Rightarrow> blob_row list" where
  "keep_nzbs gone bs = filter (\<lambda>b. b_message_id b \<notin> gone) bs"

lemma keep_nzbs_twice: "keep_nzbs A (keep_nzbs B bs) = keep_nzbs (A \<union> B) bs"
  by (simp add: keep_nzbs_def conj_commute)

lemma evict_old_nzbs_eq:
  "evict_old_nzbs c d = ((), d\<lparr>nzbs := keep_nzbs (set (map r_nzb_id (take retention_chunk
     (filter (\<lambda>r. r_nzb_id r \<noteq> []) (filter (old_row c) (spots d)))))) (nzbs d)\<rparr>)"
  by (simp add: evict_old_nzbs_def keep_nzbs_def old_row_def Let_def conj_commute)

lemma filter_front:
  assumes "distinct (ys @ zs)"
  shows "filter (\<lambda>r. r \<in> set ys) (ys @ zs) = ys" "filter (\<lambda>r. r \<notin> set ys) (ys @ zs) = zs"
proof -
  have "filter (\<lambda>r. r \<in> set ys) ys = ys" "filter (\<lambda>r. r \<notin> set ys) ys = []"
    by (simp_all add: filter_id_conv filter_empty_conv)
  moreover have "filter (\<lambda>r. r \<in> set ys) zs = []" "filter (\<lambda>r. r \<notin> set ys) zs = zs"
    using assms by (auto simp: filter_id_conv filter_empty_conv)
  ultimately show "filter (\<lambda>r. r \<in> set ys) (ys @ zs) = ys" "filter (\<lambda>r. r \<notin> set ys) (ys @ zs) = zs"
    by simp_all
qed

text \<open>With unique ids a chunk goes by id as it goes by row, and what is left of the old rows is what
  the chunk did not take.\<close>

lemma filter_chunk:
  fixes rows :: "spot_row list"
  assumes "distinct (map r_id rows)" and chunk_def: "chunk = take n (filter P rows)"
  shows "filter (\<lambda>r. r_id r \<in> r_id ` set chunk) rows = chunk"
    and "filter P (filter (\<lambda>r. r_id r \<notin> r_id ` set chunk) rows) = drop n (filter P rows)"
    and "filter (\<lambda>r. \<not> P r) (filter (\<lambda>r. r_id r \<notin> r_id ` set chunk) rows) = filter (\<lambda>r. \<not> P r) rows"
proof -
  have sub: "set chunk \<subseteq> set rows" "\<And>r. r \<in> set chunk \<Longrightarrow> P r"
    using set_take_subset[of n "filter P rows"] by (auto simp: chunk_def)
  have mem: "r_id r \<in> r_id ` set chunk \<longleftrightarrow> r \<in> set chunk" if "r \<in> set rows" for r
    using assms(1) sub(1) that by (auto simp: distinct_map inj_on_def)
  have d: "distinct (filter P rows)" using assms(1) by (auto simp: distinct_map)
  have t: "filter (\<lambda>r. r \<in> set (take n xs)) xs = take n xs"
    and u: "filter (\<lambda>r. r \<notin> set (take n xs)) xs = drop n xs" if "distinct xs" for xs :: "spot_row list"
    using filter_front[of "take n xs" "drop n xs"] that by simp_all
  have "filter (\<lambda>r. r_id r \<in> r_id ` set chunk) rows = filter (\<lambda>r. r \<in> set chunk) rows"
    by (rule filter_cong) (simp_all add: mem)
  also have "\<dots> = filter (\<lambda>r. r \<in> set chunk) (filter P rows)"
    using sub(2) by (auto intro: filter_cong)
  finally show "filter (\<lambda>r. r_id r \<in> r_id ` set chunk) rows = chunk"
    using t[OF d] by (simp add: chunk_def)
  have "filter P (filter (\<lambda>r. r_id r \<notin> r_id ` set chunk) rows) = filter (\<lambda>r. r \<notin> set chunk) (filter P rows)"
    by (simp only: filter_filter, rule filter_cong) (auto simp del: image_iff simp add: mem)
  then show "filter P (filter (\<lambda>r. r_id r \<notin> r_id ` set chunk) rows) = drop n (filter P rows)"
    using u[OF d] by (simp add: chunk_def)
  show "filter (\<lambda>r. \<not> P r) (filter (\<lambda>r. r_id r \<notin> r_id ` set chunk) rows) = filter (\<lambda>r. \<not> P r) rows"
    using sub(2) by (simp only: filter_filter, intro filter_cong) (auto simp del: image_iff simp add: mem)
qed

lemma filter_take_subset: "set (filter Q (take k xs)) \<subseteq> set (take k (filter Q xs))"
proof (induction xs arbitrary: k)
  case (Cons x xs)
  then show ?case
  proof (cases k)
    case (Suc n)
    have "set (take n (filter Q xs)) \<subseteq> set (take (Suc n) (filter Q xs))"
      by (rule set_take_subset_set_take) simp
    with Cons.IH[of n] show ?thesis by (auto simp: Suc)
  qed simp
qed simp

lemma chunk_nzb_ids:
  "r_nzb_id ` set (take k (filter (\<lambda>r. r_nzb_id r \<noteq> []) old)) \<union> nzb_ids (drop k old) = nzb_ids old"
proof
  show "r_nzb_id ` set (take k (filter (\<lambda>r. r_nzb_id r \<noteq> []) old)) \<union> nzb_ids (drop k old) \<subseteq> nzb_ids old"
    using set_take_subset[of k "filter (\<lambda>r. r_nzb_id r \<noteq> []) old"] set_drop_subset[of k old]
    by (auto simp: nzb_ids_def)
  have "set old = set (take k old) \<union> set (drop k old)"
    by (metis append_take_drop_id set_append)
  then show "nzb_ids old \<subseteq> r_nzb_id ` set (take k (filter (\<lambda>r. r_nzb_id r \<noteq> []) old)) \<union> nzb_ids (drop k old)"
    using filter_take_subset[of "\<lambda>r. r_nzb_id r \<noteq> []" k old] by (fastforce simp: nzb_ids_def)
qed

definition expired :: "int \<Rightarrow> database \<Rightarrow> spot_row list" where
  "expired c d = filter (old_row c) (spots d)"

lemma retention_turn:
  assumes "distinct (map r_id (spots d))" "ctx_Err d = (Inr u, d1)" "exec (evict_old_nzbs c) d1 = (Inr v, d2)"
    "exec (delete_old_chunk c) d2 = (Inr n, d3)"
  shows "n = int (length (take retention_chunk (expired c d)))"
    and "expired c d3 = drop retention_chunk (expired c d)"
    and "filter (\<lambda>r. \<not> old_row c r) (spots d3) = filter (\<lambda>r. \<not> old_row c r) (spots d)"
    and "nzbs d3 = keep_nzbs (r_nzb_id ` set (take retention_chunk (filter (\<lambda>r. r_nzb_id r \<noteq> []) (expired c d)))) (nzbs d)"
    and "distinct (map r_id (spots d3))"
proof -
  have 1: "spots d1 = spots d" "nzbs d1 = nzbs d" using ctx_Err_spots[OF assms(2)] by auto
  have 2: "spots d2 = spots d" "nzbs d2 = keep_nzbs (r_nzb_id ` set (take retention_chunk
      (filter (\<lambda>r. r_nzb_id r \<noteq> []) (expired c d)))) (nzbs d)"
    using exec_Inr[OF assms(3)] 1 by (auto simp: evict_old_nzbs_eq expired_def)
  let ?chunk = "take retention_chunk (filter (old_row c) (spots d))"
  have 3: "n = int (length (filter (\<lambda>r. r_id r \<in> r_id ` set ?chunk) (spots d)))" "nzbs d3 = nzbs d2"
    "spots d3 = filter (\<lambda>r. r_id r \<notin> r_id ` set ?chunk) (spots d)"
    using exec_Inr[OF assms(4)] 2(1)
    by (auto simp: delete_old_chunk_def delete_spots_def Let_def old_row_def[symmetric])
  note f = filter_chunk[OF assms(1), of _ retention_chunk "old_row c", OF refl]
  show "n = int (length (take retention_chunk (expired c d)))" using 3(1) f(1) by (simp add: expired_def)
  show "expired c d3 = drop retention_chunk (expired c d)" using 3(3) f(2) by (simp add: expired_def)
  show "filter (\<lambda>r. \<not> old_row c r) (spots d3) = filter (\<lambda>r. \<not> old_row c r) (spots d)"
    using 3(3) f(3) by simp
  show "distinct (map r_id (spots d3))" using assms(1) 3(3) by (simp add: distinct_map_filter)
  show "nzbs d3 = keep_nzbs (r_nzb_id ` set (take retention_chunk
      (filter (\<lambda>r. r_nzb_id r \<noteq> []) (expired c d)))) (nzbs d)"
    using 2(2) 3(2) by simp
qed

lemma retention_loop_result:
  "retention_loop c n d = (Inr r, d') \<Longrightarrow> distinct (map r_id (spots d)) \<Longrightarrow>
   r = n + int (length (expired c d)) \<and> spots d' = filter (\<lambda>r. \<not> old_row c r) (spots d)
   \<and> nzbs d' = keep_nzbs (nzb_ids (expired c d)) (nzbs d)"
proof (induction c n d rule: retention_loop.induct)
  case (1 c n d)
  from "1.prems"(1) obtain u d1 v d2 m d3 where s: "ctx_Err d = (Inr u, d1)"
    "exec (evict_old_nzbs c) d1 = (Inr v, d2)" "exec (delete_old_chunk c) d2 = (Inr m, d3)"
    and rest: "(if m < int retention_chunk then (Inr (n + m), d3) else retention_loop c (n + m) d3) = (Inr r, d')"
    by (subst (asm) retention_loop.simps) (auto split: prod.splits sum.splits)
  note turn = retention_turn[OF "1.prems"(2) s]
  let ?old = "expired c d" and ?k = retention_chunk
  have nz: "keep_nzbs (nzb_ids (drop ?k ?old)) (nzbs d3) = keep_nzbs (nzb_ids ?old) (nzbs d)"
    using chunk_nzb_ids[of ?k ?old] by (simp add: turn(4) keep_nzbs_twice Un_commute)
  show ?case
  proof (cases "m < int ?k")
    case True
    then have short: "length ?old < ?k" using turn(1) by simp
    then have "expired c d3 = []" using turn(2) by simp
    then have "spots d3 = filter (\<lambda>r. \<not> old_row c r) (spots d3)"
      by (simp add: expired_def filter_empty_conv filter_id_conv)
    with True short rest turn(1,3) nz show ?thesis by (simp add: nzb_ids_def keep_nzbs_def)
  next
    case False
    then have "retention_loop c (n + m) d3 = (Inr r, d')" using rest by simp
    from "1.IH"[OF s(1)[symmetric] refl s(2)[symmetric] refl s(3)[symmetric] refl False this turn(5)]
    have ih: "r = n + m + int (length (expired c d3))" "spots d' = filter (\<lambda>r. \<not> old_row c r) (spots d3)"
      "nzbs d' = keep_nzbs (nzb_ids (expired c d3)) (nzbs d3)" by auto
    moreover have "int (length (drop ?k ?old)) + m = int (length ?old)" using turn(1) by simp
    ultimately show ?thesis using turn(2,3) nz by simp
  qed
qed

text \<open>C33: When the retention sweep succeeds, exactly the spots posted before the cutoff are gone, however
  many chunks that took; the count is their number; and of the cached NZBs exactly those the removed
  spots referred to are gone, so no blob is left behind that no spot resolves to any more.\<close>

theorem retention_removes_exactly_the_old:
  assumes "store_inv d" and "DeleteSpotsOlderThan cutoff d = (Inr n, d')"
  shows "spots d' = filter (\<lambda>r. to_unix cutoff \<le> r_posted_at r) (spots d)
    \<and> n = int (length (spots d)) - int (length (spots d'))
    \<and> (\<forall>b. b \<in> set (nzbs d') \<longleftrightarrow> b \<in> set (nzbs d)
         \<and> \<not> (\<exists>r\<in>set (spots d). r_posted_at r < to_unix cutoff \<and> r_nzb_id r \<noteq> [] \<and> r_nzb_id r = b_message_id b))"
proof -
  have "distinct (map r_id (spots d))" using assms(1) by (simp add: store_inv_def tables_ok_def)
  from retention_loop_result[OF assms(2)[unfolded DeleteSpotsOlderThan_def] this]
  have r: "n = int (length (expired (to_unix cutoff) d))"
    "spots d' = filter (\<lambda>r. \<not> old_row (to_unix cutoff) r) (spots d)"
    "nzbs d' = keep_nzbs (nzb_ids (expired (to_unix cutoff) d)) (nzbs d)" by simp_all
  have "n = int (length (spots d)) - int (length (spots d'))"
    using sum_length_filter_compl[of "old_row (to_unix cutoff)" "spots d"] r(1,2)
    by (simp add: expired_def flip: of_nat_add)
  moreover have "x \<in> nzb_ids (expired (to_unix cutoff) d) \<longleftrightarrow>
      (\<exists>r\<in>set (spots d). r_posted_at r < to_unix cutoff \<and> r_nzb_id r \<noteq> [] \<and> r_nzb_id r = x)" for x
    by (auto simp: nzb_ids_def expired_def old_row_def)
  ultimately show ?thesis using r(2,3) by (simp add: old_row_def not_less keep_nzbs_def)
qed

definition demo_cached :: database where
  "demo_cached = snd (CacheImage ''<i>'' ''abcd'' ''image/png'' (snd (CacheNZB ''<b@x>'' ''yy''
     (snd (CacheNZB ''<a@x>'' ''xxx'' demo_inserted)))))"

lemma demo_cached_inv: "store_inv demo_cached"
proof -
  have "store_inv demo_inserted" using store.inv_reachable[OF demo_fresh] demo_inserted_step by blast
  then have "store_inv (snd (CacheNZB ''<a@x>'' ''xxx'' demo_inserted))"
    by (rule tables.keep_step_keeps[OF keep_step.store[OF store_step.nzb[OF prod.collapse[symmetric]]]])
  then have "store_inv (snd (CacheNZB ''<b@x>'' ''yy'' (snd (CacheNZB ''<a@x>'' ''xxx'' demo_inserted))))"
    by (rule tables.keep_step_keeps[OF keep_step.store[OF store_step.nzb[OF prod.collapse[symmetric]]]])
  then show ?thesis unfolding demo_cached_def
    by (rule tables.keep_step_keeps[OF keep_step.store[OF store_step.image[OF prod.collapse[symmetric]]]])
qed

theorem retention_removes_exactly_the_old_witness:
  "\<exists>d'. DeleteSpotsOlderThan (unix_time 7) demo_cached = (Inr 1, d')
     \<and> spots d' = filter (\<lambda>r. 7 \<le> r_posted_at r) (spots demo_cached)
     \<and> map b_message_id (nzbs d') = [''<b@x>'']"
proof -
  let ?op = "DeleteSpotsOlderThan (unix_time 7) demo_cached"
  have f: "fst ?op = Inr 1" by code_simp
  then have "?op = (Inr 1, snd ?op)" by (simp add: prod_eq_iff)
  moreover have "map b_message_id (nzbs (snd ?op)) = [''<b@x>'']" by code_simp
  ultimately show ?thesis
    using retention_removes_exactly_the_old[OF demo_cached_inv, of "unix_time 7" 1 "snd ?op"]
    by (intro exI[of _ "snd ?op"]) simp
qed

section \<open>Eviction\<close>

text \<open>Oldest first: no blob that is gone was fetched after one that is kept.\<close>

definition oldest_gone :: "blob_row list \<Rightarrow> blob_row list \<Rightarrow> bool" where
  "oldest_gone t t' \<longleftrightarrow> set t' \<subseteq> set t \<and> distinct (map b_message_id t')
     \<and> (\<forall>b\<in>set t - set t'. \<forall>c\<in>set t'. b_fetched_at b \<le> b_fetched_at c)"

lemma oldest_gone_refl: "distinct (map b_message_id t) \<Longrightarrow> oldest_gone t t"
  by (simp add: oldest_gone_def)

lemma oldest_gone_trans: "oldest_gone t1 t2 \<Longrightarrow> oldest_gone t2 t3 \<Longrightarrow> oldest_gone t1 t3"
  unfolding oldest_gone_def by blast

lemma evict_oldest_gone:
  assumes "evict_oldest img d = (n, d')" "distinct (map b_message_id (blob_table img d))"
  shows "oldest_gone (blob_table img d) (blob_table img d')"
    and "blob_table (\<not> img) d' = blob_table (\<not> img) d" and "n = 0 \<longleftrightarrow> blob_table img d = []"
proof -
  let ?t = "blob_table img d" and ?s = "sort_key b_fetched_at (blob_table img d)"
  let ?first = "take 200 ?s"
  let ?keep = "filter (\<lambda>b. b_message_id b \<notin> b_message_id ` set ?first) ?t"
  have e: "blob_table img d' = ?keep" "n = int (length ?t) - int (length ?keep)"
    "blob_table (\<not> img) d' = blob_table (\<not> img) d"
    using assms(1) by (auto simp: evict_oldest_def blob_table_def Let_def)
  have first: "set ?first \<subseteq> set ?t" using set_take_subset[of 200 ?s] by simp
  have mem: "b_message_id b \<in> b_message_id ` set ?first \<longleftrightarrow> b \<in> set ?first" if "b \<in> set ?t" for b
    using assms(2) first that by (auto simp: distinct_map inj_on_def)
  have sorted: "b_fetched_at b \<le> b_fetched_at c" if "b \<in> set ?first" "c \<in> set (drop 200 ?s)" for b c
  proof -
    have "sorted (map b_fetched_at ?first @ map b_fetched_at (drop 200 ?s))"
      by (simp flip: map_append)
    then show ?thesis using that by (simp add: sorted_append)
  qed
  have rest: "c \<in> set (drop 200 ?s)" if "c \<in> set ?t" "c \<notin> set ?first" for c
    using that by (metis Un_iff append_take_drop_id set_append set_sort)
  have keep: "c \<in> set ?keep \<longleftrightarrow> c \<in> set ?t \<and> c \<notin> set ?first" for c
    using mem[of c] unfolding set_filter mem_Collect_eq by blast
  show "oldest_gone ?t (blob_table img d')"
    unfolding oldest_gone_def e(1)
  proof (intro conjI ballI)
    show "b_fetched_at b \<le> b_fetched_at c" if "b \<in> set ?t - set ?keep" "c \<in> set ?keep" for b c
      using that sorted[of b c] rest[of c] unfolding Diff_iff keep by blast
  qed (use assms(2) in \<open>simp_all add: distinct_map_filter\<close>)
  show "blob_table (\<not> img) d' = blob_table (\<not> img) d" by (rule e(3))
  have "length ?keep < length ?t" if "?t \<noteq> []"
  proof -
    have "length ?first \<noteq> 0" using that by (simp only: length_take length_sort) simp
    then have "?first \<noteq> []" by (simp only: length_0_conv not_False_eq_True)
    then obtain b where "b \<in> set ?first" by (meson last_in_set)
    then show ?thesis using first by (intro length_filter_less[of b]) auto
  qed
  then show "n = 0 \<longleftrightarrow> ?t = []" using e(2) by (cases "?t = []") auto
qed

text \<open>The loop over one table stops below the limit, or with the table empty.\<close>

lemma evict_loop_result:
  "evict_loop img m c n d = (Inr (c', n'), d') \<Longrightarrow> c = blob_bytes (nzbs d) + blob_bytes (images d) \<Longrightarrow>
   distinct (map b_message_id (blob_table img d)) \<Longrightarrow>
   c' = blob_bytes (nzbs d') + blob_bytes (images d') \<and> (c' \<le> m \<or> blob_table img d' = [])
   \<and> blob_table (\<not> img) d' = blob_table (\<not> img) d \<and> oldest_gone (blob_table img d) (blob_table img d')
   \<and> n' = n + int (length (blob_table img d)) - int (length (blob_table img d'))"
proof (induction img m c n d rule: evict_loop.induct)
  case (1 img m c n d)
  show ?case
  proof (cases "c \<le> m")
    case True
    then have "evict_loop img m c n d = (Inr (c, n), d)" by (subst evict_loop.simps) simp
    with "1.prems" True show ?thesis by (simp add: oldest_gone_refl)
  next
    case False
    then obtain u d1 k d2 where s: "ctx_Err d = (Inr u, d1)" "exec (evict_oldest img) d1 = (Inr k, d2)"
      and rest: "(if k = 0 then (Inr (c, n), d2)
        else (case CacheBytes d2 of (Inl e, d3) \<Rightarrow> (Inl e, d3)
              | (Inr cnt', d3) \<Rightarrow> evict_loop img m cnt' (n + k) d3)) = (Inr (c', n'), d')"
      using "1.prems"(1) by (subst (asm) evict_loop.simps) (auto split: prod.splits sum.splits)
    have t1: "blob_table b d1 = blob_table b d" for b
      using ctx_Err_spots[OF s(1)] by (auto simp: blob_table_def)
    from exec_Inr[OF s(2)] obtain fs where e: "evict_oldest img (d1\<lparr>faults := fs\<rparr>) = (k, d2)" by blast
    have t1': "blob_table b (d1\<lparr>faults := fs\<rparr>) = blob_table b d" for b
      using t1[of b] by (cases b) (simp_all add: blob_table_def)
    note ev = evict_oldest_gone[OF e, unfolded t1', OF "1.prems"(3)]
    have len: "int (length (blob_table img d2)) + k = int (length (blob_table img d))"
      using evict_oldest_shrinks[OF e] by (simp add: t1')
    show ?thesis
    proof (cases "k = 0")
      case True
      then have "blob_table img d2 = []" "blob_table img d = []" using ev(3) len by auto
      moreover from this ev(2) have "nzbs d2 = nzbs d" "images d2 = images d"
        by (cases img; simp add: blob_table_def)+
      ultimately show ?thesis using rest True "1.prems"(2,3) ev(2) by (simp add: oldest_gone_refl)
    next
      case k: False
      with rest obtain t d3 where b: "CacheBytes d2 = (Inr t, d3)" "evict_loop img m t (n + k) d3 = (Inr (c', n'), d')"
        by (auto split: prod.splits sum.splits)
      have t3: "blob_table b d3 = blob_table b d2" for b
        using CacheBytes_same[OF b(1)] by (auto simp: blob_table_def)
      have "t = blob_bytes (nzbs d3) + blob_bytes (images d3)"
        using b(1) by (auto simp: CacheBytes_def split: prod.splits sum.splits dest!: query_Inr)
      note ih = "1.IH"[OF False s(1)[symmetric] refl s(2)[symmetric] refl k b(1)[symmetric] refl b(2) this,
          unfolded t3]
      have "distinct (map b_message_id (blob_table img d2))" using ev(1) by (simp add: oldest_gone_def)
      note ih = ih[OF this]
      with oldest_gone_trans[OF ev(1), of "blob_table img d'"] ev(2) len show ?thesis
        by (elim conjE, intro conjI) (assumption | simp)+
    qed
  qed
qed

text \<open>C34: When cache eviction succeeds the caches are under their limit together, NZBs are touched only
  when no image is left, and in each table no blob is dropped that was fetched after one that is
  kept. The two counts are the numbers of blobs dropped. Nothing is evicted when the limit is already
  met.\<close>

theorem eviction_meets_the_limit:
  assumes "EvictCacheTo m d = (Inr (ns, is), d')" and "0 \<le> m"
    and "distinct (map b_message_id (nzbs d))" and "distinct (map b_message_id (images d))"
  shows "blob_bytes (nzbs d') + blob_bytes (images d') \<le> m
    \<and> (nzbs d' \<noteq> nzbs d \<longrightarrow> images d' = [])
    \<and> oldest_gone (nzbs d) (nzbs d') \<and> oldest_gone (images d) (images d')
    \<and> ns = int (length (nzbs d)) - int (length (nzbs d')) \<and> is = int (length (images d)) - int (length (images d'))
    \<and> (blob_bytes (nzbs d) + blob_bytes (images d) \<le> m \<longrightarrow> ns = 0 \<and> is = 0)"
proof -
  from assms(1) obtain c d1 where c: "CacheBytes d = (Inr c, d1)"
    and rest: "(if c \<le> m then (Inr (0, 0), d1) else (case evict_loop True m c 0 d1 of (Inl e, d2) \<Rightarrow> (Inl e, d2)
      | (Inr (cnt2, imgs), d2) \<Rightarrow> (case evict_loop False m cnt2 0 d2 of (Inl e, d3) \<Rightarrow> (Inl e, d3)
          | (Inr (_, ns), d3) \<Rightarrow> (Inr (ns, imgs), d3)))) = (Inr (ns, is), d')"
    by (auto simp: EvictCacheTo_def split: prod.splits sum.splits)
  have d1: "nzbs d1 = nzbs d" "images d1 = images d" using CacheBytes_same[OF c] by auto
  have cb: "c = blob_bytes (nzbs d1) + blob_bytes (images d1)"
    using c by (auto simp: CacheBytes_def split: prod.splits sum.splits dest!: query_Inr)
  show ?thesis
  proof (cases "c \<le> m")
    case True
    with rest cb d1 assms(3,4) show ?thesis by (simp add: oldest_gone_refl)
  next
    case False
    with rest obtain c2 d2 c3 where l: "evict_loop True m c 0 d1 = (Inr (c2, is), d2)"
      "evict_loop False m c2 0 d2 = (Inr (c3, ns), d')"
      by (auto split: prod.splits sum.splits)
    have "distinct (map b_message_id (blob_table True d1))" using assms(4) d1 by (simp add: blob_table_def)
    note res = evict_loop_result[OF l(1) cb this, unfolded blob_table_def d1, simplified if_True if_False not_True_eq_False]
    have i: "c2 = blob_bytes (nzbs d2) + blob_bytes (images d2)" "c2 \<le> m \<or> images d2 = []" "nzbs d2 = nzbs d"
      "oldest_gone (images d) (images d2)" "is = int (length (images d)) - int (length (images d2))"
      using res by (blast, blast, blast, blast, linarith)
    have "distinct (map b_message_id (blob_table False d2))" using assms(3) i(3) by (simp add: blob_table_def)
    note res2 = evict_loop_result[OF l(2) i(1) this, unfolded blob_table_def i(3),
        simplified if_True if_False not_False_eq_True]
    have n: "c3 = blob_bytes (nzbs d') + blob_bytes (images d')" "c3 \<le> m \<or> nzbs d' = []" "images d' = images d2"
      "oldest_gone (nzbs d) (nzbs d')" "ns = int (length (nzbs d)) - int (length (nzbs d'))"
      using res2 by (blast, blast, blast, blast, linarith)
    have "blob_bytes (nzbs d') + blob_bytes (images d') \<le> m \<and> (nzbs d' \<noteq> nzbs d \<longrightarrow> images d' = [])"
    proof (cases "c2 \<le> m")
      case True
      then have "evict_loop False m c2 0 d2 = (Inr (c2, 0), d2)" by (subst evict_loop.simps) simp
      with l(2) have "d' = d2" by simp
      with True i(1,3) show ?thesis by simp
    next
      case False
      with i(2) n(3) have "images d' = []" by simp
      with n(1,2) assms(2) show ?thesis by (metis add_0 blob_bytes_def list.map(1) sum_list.Nil)
    qed
    then show ?thesis using i(4,5) n(3,4,5) False cb d1 by simp
  qed
qed

theorem eviction_meets_the_limit_witness:
  "\<exists>d'. EvictCacheTo 5 demo_cached = (Inr (0, 1), d')
     \<and> blob_bytes (nzbs d') + blob_bytes (images d') \<le> 5 \<and> length (nzbs d') = 2 \<and> images d' = []"
proof -
  let ?op = "EvictCacheTo 5 demo_cached"
  have "fst ?op = Inr (0, 1)" by code_simp
  then have op: "?op = (Inr (0, 1), snd ?op)" by (simp add: prod_eq_iff)
  have n: "map b_message_id (nzbs demo_cached) = [''<a@x>'', ''<b@x>'']"
      "map b_message_id (images demo_cached) = [''<i>'']" by code_simp+
  then have d: "distinct (map b_message_id (nzbs demo_cached))" "distinct (map b_message_id (images demo_cached))"
    by simp_all
  from n have "length (nzbs demo_cached) = 2" "length (images demo_cached) = 1"
    by (metis length_map list.size(3,4) One_nat_def Suc_1 add.commute plus_1_eq_Suc)+
  with eviction_meets_the_limit[OF op _ d] op show ?thesis by (intro exI[of _ "snd ?op"]) auto
qed

section \<open>Spotter lists\<close>

lemma put_spotters_result:
  "put_spotters ty origin ids d = (Inr u, d') \<Longrightarrow>
   set (spotters_of ty d') = set (spotters_of ty d) \<union> (set (map trim_space ids) - {[]})
   \<and> (distinct (spotters_of ty d) \<longrightarrow> distinct (spotters_of ty d'))
   \<and> filter (\<lambda>(_, t, _). t \<noteq> ty) (spotter_lists d') = filter (\<lambda>(_, t, _). t \<noteq> ty) (spotter_lists d)"
proof (induction ids arbitrary: d)
  case (Cons i ids)
  show ?case
  proof (cases "trim_space i = []")
    case True
    with Cons.prems Cons.IH[of d] show ?thesis by auto
  next
    case False
    with Cons.prems obtain v d1 where s: "exec (put_spotter (trim_space i) ty origin) d = (Inr v, d1)"
      "put_spotters ty origin ids d1 = (Inr u, d')"
      by (auto simp: Let_def split: prod.splits sum.splits)
    have l: "spotter_lists d1 = filter (\<lambda>(j, t, _). \<not> (j = trim_space i \<and> t = ty)) (spotter_lists d)
        @ [(trim_space i, ty, origin)]"
      using exec_Inr[OF s(1)] by (auto simp: put_spotter_def)
    have "spotters_of ty d1 = filter (\<lambda>j. j \<noteq> trim_space i) (spotters_of ty d) @ [trim_space i]"
      unfolding spotters_of_def l by (simp add: filter_map comp_def case_prod_beta) (metis (mono_tags))
    moreover have "filter (\<lambda>(_, t, _). t \<noteq> ty) (spotter_lists d1) = filter (\<lambda>(_, t, _). t \<noteq> ty) (spotter_lists d)"
      unfolding l by (auto intro: filter_cong)
    ultimately show ?thesis using Cons.IH[OF s(2)] False by auto
  qed
qed simp

text \<open>A spotter list is replaced as a whole or not at all. On success the list holds exactly the
  non-blank ids of the new one, trimmed and each once, and the entries of the other list are as
  before; when any statement fails the database is unchanged, so a bad refresh never leaves half a
  blacklist.\<close>

theorem ReplaceSpotterList_swaps:
  "case ReplaceSpotterList ty origin ids d of
     (Inl e, d') \<Rightarrow> \<exists>fs. d' = d\<lparr>faults := fs\<rparr>
   | (Inr _, d') \<Rightarrow> set (spotters_of ty d') = set (map trim_space ids) - {[]} \<and> distinct (spotters_of ty d')
       \<and> filter (\<lambda>(_, t, _). t \<noteq> ty) (spotter_lists d') = filter (\<lambda>(_, t, _). t \<noteq> ty) (spotter_lists d)"
proof -
  obtain res d' where r: "ReplaceSpotterList ty origin ids d = (res, d')" by fastforce
  note t = r[unfolded ReplaceSpotterList_def]
  show ?thesis
  proof (cases res)
    case (Inl e)
    with t tx_Inl r show ?thesis by fastforce
  next
    case (Inr u)
    let ?clear = "\<lambda>d. ((), d\<lparr>spotter_lists := filter (\<lambda>(_, t, _). t \<noteq> ty) (spotter_lists d)\<rparr>)"
    from tx_Inr[OF t[unfolded Inr]] obtain fs d2 fs' where
      m: "(case exec ?clear (d\<lparr>faults := fs\<rparr>) of (Inl e, d1) \<Rightarrow> (Inl e, d1)
         | (Inr _, d1) \<Rightarrow> (case query (\<lambda>_. ()) d1 of (Inl e, d2) \<Rightarrow> (Inl e, d2)
             | (Inr _, d2) \<Rightarrow> put_spotters ty origin ids d2)) = (Inr u, d2)"
      and d': "d' = d2\<lparr>faults := fs'\<rparr>" by blast
    from m obtain v d1 where c: "exec ?clear (d\<lparr>faults := fs\<rparr>) = (Inr v, d1)"
      and rest: "(case query (\<lambda>_. ()) d1 of (Inl e, d2) \<Rightarrow> (Inl e, d2)
             | (Inr _, d2) \<Rightarrow> put_spotters ty origin ids d2) = (Inr u, d2)"
      by (auto split: prod.splits sum.splits)
    from seq_query_Inr[OF rest] obtain fs2 where "put_spotters ty origin ids (d1\<lparr>faults := fs2\<rparr>) = (Inr u, d2)"
      by auto
    note p = put_spotters_result[OF this]
    have l: "spotter_lists d1 = filter (\<lambda>(_, t, _). t \<noteq> ty) (spotter_lists d)"
      using exec_Inr[OF c] by auto
    then have "spotters_of ty (d1\<lparr>faults := fs2\<rparr>) = []"
      by (auto simp: spotters_of_def filter_empty_conv)
    moreover have "spotters_of ty d' = spotters_of ty d2" by (simp add: d' spotters_of_def)
    ultimately show ?thesis using p l d' r Inr by simp
  qed
qed

end
