(* ===== verification/Netip.thy ===== *)
theory Netip
  imports Prelude
begin

text \<open>
  What the program uses of \<open>net\<close> and \<open>net/netip\<close>: addresses, prefixes and the split of host and port.
  The textual parsers \<open>netip.ParseAddr\<close> and \<open>netip.ParsePrefix\<close> are arguments of the functions that
  use them.
\<close>

text \<open>An IPv4 address is a 32-bit number, an IPv6 one a 128-bit number with its zone.\<close>

datatype ip_addr = IPv4 nat | IPv6 nat string

record ip_prefix =
  px_addr :: ip_addr
  px_bits :: nat

definition BitLen :: "ip_addr \<Rightarrow> nat" where
  "BitLen a = (case a of IPv4 _ \<Rightarrow> 32 | IPv6 _ _ \<Rightarrow> 128)"

text \<open>\<open>Addr.Unmap\<close>: an IPv4-mapped IPv6 address is its IPv4 address.\<close>

definition Unmap :: "ip_addr \<Rightarrow> ip_addr" where
  "Unmap a =
     (case a of
        IPv4 n \<Rightarrow> IPv4 n
      | IPv6 n z \<Rightarrow> if n div 2 ^ 32 = 2 ^ 16 - 1 then IPv4 (n mod 2 ^ 32) else IPv6 n z)"

text \<open>\<open>Prefix.Contains\<close>: same family, no zone, and the leading bits agree.\<close>

definition prefix_contains :: "ip_prefix \<Rightarrow> ip_addr \<Rightarrow> bool" where
  "prefix_contains p a \<longleftrightarrow>
     (case (px_addr p, a) of
        (IPv4 n, IPv4 m) \<Rightarrow> px_bits p \<le> 32 \<and> n div 2 ^ (32 - px_bits p) = m div 2 ^ (32 - px_bits p)
      | (IPv6 n _, IPv6 m z) \<Rightarrow>
          z = [] \<and> px_bits p \<le> 128 \<and> n div 2 ^ (128 - px_bits p) = m div 2 ^ (128 - px_bits p)
      | _ \<Rightarrow> False)"

text \<open>\<open>net.SplitHostPort\<close>, \<open>None\<close> for any of its errors.\<close>

definition SplitHostPort :: "string \<Rightarrow> (string \<times> string) option" where
  "SplitHostPort hostport =
     (case last_index hostport '':'' of
        None \<Rightarrow> None
      | Some i \<Rightarrow>
          (case (if hd hostport = CHR ''[''
                 then (case go_index hostport '']'' of
                         None \<Rightarrow> None
                       | Some e \<Rightarrow>
                           if e + 1 = length hostport then None
                           else if e + 1 = i then Some (take (e - 1) (drop 1 hostport), 1, e + 1)
                           else None)
                 else let host = take i hostport
                      in if go_contains host '':'' then None else Some (host, 0, 0)) of
             None \<Rightarrow> None
           | Some (host, j, k) \<Rightarrow>
               if go_contains (drop j hostport) ''['' then None
               else if go_contains (drop k hostport) '']'' then None
               else Some (host, drop (i + 1) hostport)))"

lemma prefix_contains_self: "px_bits p \<le> BitLen (px_addr p) \<Longrightarrow>
  (case px_addr p of IPv6 n z \<Rightarrow> z = [] | _ \<Rightarrow> True) \<Longrightarrow> prefix_contains p (px_addr p)"
  by (auto simp: prefix_contains_def BitLen_def split: ip_addr.splits)

text \<open>A full-length prefix contains one address.\<close>

lemma prefix_contains_full:
  "px_bits p = BitLen (px_addr p) \<Longrightarrow> prefix_contains p a \<Longrightarrow>
     (case (px_addr p, a) of (IPv4 n, IPv4 m) \<Rightarrow> n = m | (IPv6 n _, IPv6 m _) \<Rightarrow> n = m | _ \<Rightarrow> False)"
  by (auto simp: prefix_contains_def BitLen_def split: ip_addr.splits)

end
