(* ===== verification/Config.thy ===== *)
theory Config
  imports Netip
begin

text \<open>
  \<open>internal/config/config.go\<close>: the configuration read from the environment. The environment is a
  function from names to values (an unset variable is the empty string, as \<open>os.Getenv\<close> has it);
  \<open>strconv.ParseFloat\<close>, \<open>time.ParseDuration\<close>, \<open>netip.ParsePrefix\<close> and \<open>netip.ParseAddr\<close> are the
  fields of the argument \<open>std\<close>, and floating-point numbers are of the type parameter \<open>'f\<close>.
\<close>

record 'f stdlib =
  ParseFloat :: "string \<Rightarrow> 'f option"
  ParseDuration :: "string \<Rightarrow> duration option"
  ParsePrefix :: "string \<Rightarrow> ip_prefix option"
  ParseAddr :: "string \<Rightarrow> ip_addr option"
  float_of_int :: "int \<Rightarrow> 'f"

definition AuthModePassword :: string where "AuthModePassword = ''password''"
definition AuthModeProxy :: string where "AuthModeProxy = ''proxy''"
definition AuthModeOpen :: string where "AuthModeOpen = ''open''"

definition ModerationOff :: string where "ModerationOff = ''off''"
definition ModerationMark :: string where "ModerationMark = ''mark''"
definition ModerationDelete :: string where "ModerationDelete = ''delete''"

record 'f Config =
  ListenAddr :: string
  TrustedProxies :: "ip_prefix list"
  DBPath :: string
  NNTPHost :: string
  NNTPPort :: int
  NNTPUser :: string
  NNTPPass :: string
  NNTPTLS :: bool
  NNTPMaxConns :: int
  SyncInterval :: duration
  SyncLookback :: int
  BackfillEnabled :: bool
  SABHost :: string
  SABPort :: int
  SABAPIKey :: string
  SABTLS :: bool
  AuthMode :: string
  AppPassword :: string
  SessionDuration :: duration
  SecureCookie :: bool
  ProxyAuthHeader :: string
  cfg_AllowAdult :: bool
  cfg_APIKey :: string
  MaxPageSize :: int
  MaxOffset :: int
  MaxArticleBytes :: int
  MaxNZBBytes :: int
  RateLimitRPS :: 'f
  RateLimitBurst :: int
  RetentionDays :: int
  CacheMaxBytes :: int
  BlacklistURL :: string
  WhitelistURL :: string
  BlacklistInterval :: duration
  VerifySignatures :: bool
  ModerationMode :: string
  TZ :: string

datatype config_error =
    NNTPHostRequired
  | AppPasswordRequired
  | InvalidAuthMode string
  | InvalidModerationMode string
  | BadTrustedProxies string

section \<open>Reading one variable\<close>

type_synonym env = "string \<Rightarrow> string"

definition envOr :: "env \<Rightarrow> string \<Rightarrow> string \<Rightarrow> string" where
  "envOr e key def = (if e key \<noteq> [] then e key else def)"

definition envInt :: "env \<Rightarrow> string \<Rightarrow> int \<Rightarrow> int" where
  "envInt e key def =
     (if e key \<noteq> []
      then (case parse_int (e key) of (n, None) \<Rightarrow> n | (_, Some _) \<Rightarrow> def)
      else def)"

definition envInt64 :: "env \<Rightarrow> string \<Rightarrow> int \<Rightarrow> int" where
  "envInt64 e key def =
     (if e key \<noteq> []
      then (case parse_int (e key) of (n, None) \<Rightarrow> n | (_, Some _) \<Rightarrow> def)
      else def)"

definition envFloat :: "'f stdlib \<Rightarrow> env \<Rightarrow> string \<Rightarrow> 'f \<Rightarrow> 'f" where
  "envFloat std e key def =
     (if e key \<noteq> [] then (case ParseFloat std (e key) of Some f \<Rightarrow> f | None \<Rightarrow> def) else def)"

text \<open>\<open>strconv.ParseBool\<close>.\<close>

definition parse_bool :: "string \<Rightarrow> bool option" where
  "parse_bool s =
     (if s \<in> set [''1'', ''t'', ''T'', ''true'', ''TRUE'', ''True''] then Some True
      else if s \<in> set [''0'', ''f'', ''F'', ''false'', ''FALSE'', ''False''] then Some False
      else None)"

definition envBool :: "env \<Rightarrow> string \<Rightarrow> bool \<Rightarrow> bool" where
  "envBool e key def =
     (if e key \<noteq> [] then (case parse_bool (e key) of Some b \<Rightarrow> b | None \<Rightarrow> def) else def)"

definition envDuration :: "'f stdlib \<Rightarrow> env \<Rightarrow> string \<Rightarrow> duration \<Rightarrow> duration" where
  "envDuration std e key def =
     (if e key \<noteq> [] then (case ParseDuration std (e key) of Some d \<Rightarrow> d | None \<Rightarrow> def) else def)"

section \<open>Trusted proxies\<close>

fun parse_cidr_parts :: "'f stdlib \<Rightarrow> string list \<Rightarrow> config_error + ip_prefix list" where
  "parse_cidr_parts std [] = Inr []"
| "parse_cidr_parts std (p # ps) =
     (let part = trim_space p
      in if part = [] then parse_cidr_parts std ps
         else (case (case ParsePrefix std part of
                       Some px \<Rightarrow> Inr px
                     | None \<Rightarrow>
                         (case ParseAddr std part of
                            None \<Rightarrow> Inl (BadTrustedProxies part)
                          | Some a \<Rightarrow> Inr \<lparr>px_addr = (case a of IPv4 n \<Rightarrow> IPv4 n | IPv6 n z \<Rightarrow> IPv6 n []),
                                           px_bits = BitLen a\<rparr>)) of
                 Inl e \<Rightarrow> Inl e
               | Inr px \<Rightarrow> map_sum id (Cons px) (parse_cidr_parts std ps)))"

definition parseCIDRs :: "'f stdlib \<Rightarrow> string \<Rightarrow> config_error + ip_prefix list" where
  "parseCIDRs std s0 =
     (let s = trim_space s0
      in if s = [] then Inr [] else parse_cidr_parts std (split_on (CHR '','') s))"

section \<open>Load\<close>

definition base_config :: "'f stdlib \<Rightarrow> env \<Rightarrow> 'f Config" where
  "base_config std e =
     \<lparr>ListenAddr = envOr e ''LISTEN_ADDR'' '':8080'',
      TrustedProxies = [],
      DBPath = envOr e ''DB_PATH'' ''/data/spottr.db'',
      NNTPHost = envOr e ''NNTP_HOST'' [],
      NNTPPort = envInt e ''NNTP_PORT'' 119,
      NNTPUser = envOr e ''NNTP_USER'' [],
      NNTPPass = envOr e ''NNTP_PASS'' [],
      NNTPTLS = envBool e ''NNTP_TLS'' False,
      NNTPMaxConns = envInt e ''NNTP_MAX_CONNS'' 4,
      SyncInterval = envDuration std e ''SYNC_INTERVAL'' (15 * minute),
      SyncLookback = envInt e ''SYNC_LOOKBACK'' 500000,
      BackfillEnabled = envBool e ''BACKFILL'' False,
      SABHost = envOr e ''SAB_HOST'' [],
      SABPort = envInt e ''SAB_PORT'' 8080,
      SABAPIKey = envOr e ''SAB_API_KEY'' [],
      SABTLS = envBool e ''SAB_TLS'' False,
      AuthMode = to_lower (envOr e ''AUTH_MODE'' AuthModePassword),
      AppPassword = envOr e ''APP_PASSWORD'' [],
      SessionDuration = envDuration std e ''SESSION_DURATION'' (24 * hour),
      SecureCookie = envBool e ''SECURE_COOKIE'' False,
      ProxyAuthHeader = envOr e ''PROXY_AUTH_HEADER'' ''X-authentik-username'',
      cfg_AllowAdult = envBool e ''ALLOW_ADULT'' False,
      cfg_APIKey = envOr e ''API_KEY'' [],
      MaxPageSize = envInt e ''MAX_PAGE_SIZE'' 200,
      MaxOffset = envInt e ''MAX_OFFSET'' 100000,
      MaxArticleBytes = envInt64 e ''MAX_ARTICLE_BYTES'' (32 * 1048576),
      MaxNZBBytes = envInt64 e ''MAX_NZB_BYTES'' (64 * 1048576),
      RateLimitRPS = envFloat std e ''RATE_LIMIT_RPS'' (float_of_int std 5),
      RateLimitBurst = envInt e ''RATE_LIMIT_BURST'' 30,
      RetentionDays = envInt e ''RETENTION_DAYS'' 0,
      CacheMaxBytes = envInt64 e ''CACHE_MAX_BYTES'' (512 * 1048576),
      BlacklistURL = envOr e ''BLACKLIST_URL'' [],
      WhitelistURL = envOr e ''WHITELIST_URL'' [],
      BlacklistInterval = envDuration std e ''BLACKLIST_INTERVAL'' (12 * hour),
      VerifySignatures = envBool e ''VERIFY_SIGNATURES'' False,
      ModerationMode = to_lower (envOr e ''MODERATION_MODE'' ModerationOff),
      TZ = envOr e ''TZ'' ''UTC''\<rparr>"

definition Load :: "'f stdlib \<Rightarrow> env \<Rightarrow> config_error + 'f Config" where
  "Load std e =
     (let cfg = base_config std e
      in if NNTPHost cfg = [] then Inl NNTPHostRequired
         else if AuthMode cfg = AuthModePassword \<and> AppPassword cfg = [] then Inl AppPasswordRequired
         else if AuthMode cfg \<notin> set [AuthModePassword, AuthModeProxy, AuthModeOpen]
         then Inl (InvalidAuthMode (AuthMode cfg))
         else if ModerationMode cfg \<notin> set [ModerationOff, ModerationMark, ModerationDelete]
         then Inl (InvalidModerationMode (ModerationMode cfg))
         else (case parseCIDRs std (envOr e ''TRUSTED_PROXIES'' []) of
                 Inl err \<Rightarrow> Inl err
               | Inr proxies \<Rightarrow>
                   let cfg1 = cfg\<lparr>TrustedProxies := proxies\<rparr>;
                       cfg2 = (if NNTPMaxConns cfg1 < 1 then cfg1\<lparr>NNTPMaxConns := 1\<rparr> else cfg1)
                   in Inr (if MaxPageSize cfg2 < 1 then cfg2\<lparr>MaxPageSize := 1\<rparr> else cfg2)))"

definition AuthEnforced :: "'f Config \<Rightarrow> bool" where
  "AuthEnforced c \<longleftrightarrow> AuthMode c = AuthModePassword"

section \<open>What a started program runs with\<close>

definition proxy_listed :: "'f stdlib \<Rightarrow> string \<Rightarrow> ip_prefix \<Rightarrow> bool" where
  "proxy_listed std s px \<longleftrightarrow>
     (\<exists>p\<in>set (split_on (CHR '','') (trim_space s)).
        ParsePrefix std (trim_space p) = Some px
        \<or> (\<exists>a. ParseAddr std (trim_space p) = Some a \<and> px_bits px = BitLen a))"

lemma parse_cidr_parts_listed:
  "parse_cidr_parts std ps = Inr pxs \<Longrightarrow> px \<in> set pxs \<Longrightarrow>
   \<exists>p\<in>set ps. ParsePrefix std (trim_space p) = Some px
        \<or> (\<exists>a. ParseAddr std (trim_space p) = Some a \<and> px_bits px = BitLen a)"
proof (induction std ps arbitrary: pxs rule: parse_cidr_parts.induct)
  case (2 std p ps)
  show ?case
  proof (cases "trim_space p = []")
    case True
    with 2 show ?thesis by auto
  next
    case False
    then show ?thesis
      using "2.prems" "2.IH"(2)[OF refl False]
      by (cases "parse_cidr_parts std ps") (force simp: Let_def split: option.splits)+
  qed
qed simp

text \<open>C36: \<open>Load\<close> fails closed. A program that starts has a news server, a known authentication mode with a
  non-empty password whenever the program itself enforces authentication, a known moderation mode, at
  least one connection and a page size of at least one; and every proxy it trusts is an entry of
  \<open>TRUSTED_PROXIES\<close>, a bare address standing for itself alone.\<close>

theorem Load_fails_closed:
  assumes "Load std e = Inr cfg"
  shows "NNTPHost cfg \<noteq> [] \<and> AuthMode cfg \<in> {''password'', ''proxy'', ''open''}
    \<and> (AuthEnforced cfg \<longrightarrow> AppPassword cfg \<noteq> [])
    \<and> ModerationMode cfg \<in> {''off'', ''mark'', ''delete''}
    \<and> 1 \<le> NNTPMaxConns cfg \<and> 1 \<le> MaxPageSize cfg
    \<and> (\<forall>px\<in>set (TrustedProxies cfg). proxy_listed std (e ''TRUSTED_PROXIES'') px)"
proof -
  let ?c = "base_config std e"
  from assms obtain proxies where l: "NNTPHost ?c \<noteq> []" "\<not> (AuthMode ?c = AuthModePassword \<and> AppPassword ?c = [])"
    "AuthMode ?c \<in> set [AuthModePassword, AuthModeProxy, AuthModeOpen]"
    "ModerationMode ?c \<in> set [ModerationOff, ModerationMark, ModerationDelete]"
    and p: "parseCIDRs std (envOr e ''TRUSTED_PROXIES'' []) = Inr proxies"
    and c: "cfg = (let cfg1 = ?c\<lparr>TrustedProxies := proxies\<rparr>;
                       cfg2 = (if NNTPMaxConns cfg1 < 1 then cfg1\<lparr>NNTPMaxConns := 1\<rparr> else cfg1)
                   in if MaxPageSize cfg2 < 1 then cfg2\<lparr>MaxPageSize := 1\<rparr> else cfg2)"
    unfolding Load_def Let_def by (simp split: if_splits sum.splits)
  have e: "envOr e ''TRUSTED_PROXIES'' [] = e ''TRUSTED_PROXIES''" by (simp add: envOr_def)
  have "proxy_listed std (e ''TRUSTED_PROXIES'') px" if "px \<in> set proxies" for px
  proof (cases "trim_space (e ''TRUSTED_PROXIES'') = []")
    case True
    with p that show ?thesis by (simp add: parseCIDRs_def e)
  next
    case False
    with p have "parse_cidr_parts std (split_on (CHR '','') (trim_space (e ''TRUSTED_PROXIES''))) = Inr proxies"
      by (simp add: parseCIDRs_def e Let_def)
    from parse_cidr_parts_listed[OF this that] show ?thesis by (simp add: proxy_listed_def)
  qed
  moreover have "TrustedProxies cfg = proxies" "NNTPHost cfg = NNTPHost ?c" "AuthMode cfg = AuthMode ?c"
    "AppPassword cfg = AppPassword ?c" "ModerationMode cfg = ModerationMode ?c"
    "1 \<le> NNTPMaxConns cfg" "1 \<le> MaxPageSize cfg"
    by (simp_all add: c Let_def)
  ultimately show ?thesis
    using l by (simp add: AuthEnforced_def AuthModePassword_def AuthModeProxy_def AuthModeOpen_def
        ModerationOff_def ModerationMark_def ModerationDelete_def)
qed

definition demo_std :: "int stdlib" where
  "demo_std = \<lparr>ParseFloat = (\<lambda>_. None), ParseDuration = (\<lambda>_. None), ParsePrefix = (\<lambda>_. None),
     ParseAddr = (\<lambda>s. if s = ''10.0.0.1'' then Some (IPv4 167772161) else None), float_of_int = (\<lambda>i. i)\<rparr>"

definition demo_env :: env where
  "demo_env key = (if key = ''NNTP_HOST'' then ''news'' else if key = ''APP_PASSWORD'' then ''s''
     else if key = ''TRUSTED_PROXIES'' then ''10.0.0.1'' else if key = ''MAX_PAGE_SIZE'' then ''0'' else [])"

lemma demo_loads: "\<exists>cfg. Load demo_std demo_env = Inr cfg \<and> map px_bits (TrustedProxies cfg) = [32]"
proof -
  let ?l = "Load demo_std demo_env"
  have lower: "to_lower ''password'' = ''password''" "to_lower ''off'' = ''off''"
    by (simp_all add: to_lower_ascii is_ascii_def lower_char_def)
  have proxies: "parseCIDRs demo_std ''10.0.0.1'' = Inr [\<lparr>px_addr = IPv4 167772161, px_bits = 32\<rparr>]"
    by (simp add: parseCIDRs_def trim_space_id is_ascii_def ascii_space_def split_on_no_sep demo_std_def BitLen_def)
  have "case ?l of Inl _ \<Rightarrow> False | Inr c \<Rightarrow> map px_bits (TrustedProxies c) = [32]"
    by (simp add: Load_def base_config_def envOr_def demo_env_def Let_def AuthModePassword_def
        ModerationOff_def lower proxies)
  then show ?thesis by (cases ?l) simp_all
qed

theorem Load_fails_closed_witness:
  "\<exists>cfg. Load demo_std demo_env = Inr cfg \<and> 1 \<le> MaxPageSize cfg
     \<and> map px_bits (TrustedProxies cfg) = [32] \<and> Load demo_std (\<lambda>_. []) = Inl NNTPHostRequired"
proof -
  obtain cfg where l: "Load demo_std demo_env = Inr cfg" "map px_bits (TrustedProxies cfg) = [32]"
    using demo_loads by (elim exE conjE)
  moreover have "Load demo_std (\<lambda>_. []) = Inl NNTPHostRequired" by (simp add: Load_def base_config_def envOr_def)
  ultimately show ?thesis using Load_fails_closed[OF l(1)] by (intro exI[of _ cfg]) simp
qed

end
