(* ===== verification/Sync.thy ===== *)
theory Sync
  imports Upkeep Config
begin

text \<open>
  \<open>internal/sync/syncer.go\<close> and \<open>internal/sync/moderation.go\<close>: the forward sync of a group and the
  application of withdrawals, over the store and a leased connection. The state is the database and
  the connection with its \<open>broken\<close> mark. What \<open>pool.Get\<close> returns is the argument \<open>lease\<close>; the clock
  that each overview line is parsed at is the argument \<open>clk\<close>; \<open>time_parse\<close> and \<open>xml_user_key\<close> are the
  library parsers, as in the theories below. A result Go returns beside an error is not modelled where
  every caller drops it.
\<close>

section \<open>State and results\<close>

record sync_io =
  sdb :: database
  sconn :: conn
  sbroken :: bool

record lib =
  lib_time_parse :: "string \<Rightarrow> string \<Rightarrow> gotime option"
  lib_xml_user_key :: "string \<Rightarrow> (string \<times> string) option"
  lib_clock :: "ArticleInfo \<Rightarrow> gotime"

datatype sync_error =
    PoolError
  | NNTPError nntp_error
  | StoreError sql_error

record Stats =
  ArticlesChecked :: int
  SpotsInserted :: int
  SpotsRejected :: int
  SpotsModerated :: int
  ControlMessages :: int
  st_Group :: string

record ModerationStats =
  Applied :: int
  Rejected :: int
  NoTarget :: int
  Unverified :: int
  OwnerLookups :: int
  OwnerUnknown :: int
  ByModerator :: int

definition no_moderation :: ModerationStats where
  "no_moderation = \<lparr>Applied = 0, Rejected = 0, NoTarget = 0, Unverified = 0, OwnerLookups = 0,
     OwnerUnknown = 0, ByModerator = 0\<rparr>"

definition overviewChunkSize :: int where "overviewChunkSize = 5000"

definition on_db :: "'a sql \<Rightarrow> sync_io \<Rightarrow> (sql_error + 'a) \<times> sync_io" where
  "on_db f s = (case f (sdb s) of (r, d) \<Rightarrow> (r, s\<lparr>sdb := d\<rparr>))"

definition on_conn :: "(conn \<Rightarrow> 'a \<times> conn) \<Rightarrow> sync_io \<Rightarrow> 'a \<times> sync_io" where
  "on_conn f s = (case f (sconn s) of (r, c) \<Rightarrow> (r, s\<lparr>sconn := c\<rparr>))"

section \<open>Withdrawals\<close>

definition lookupOwner :: "lib \<Rightarrow> string \<Rightarrow> sync_io \<Rightarrow> (sync_error + string) \<times> sync_io" where
  "lookupOwner L messageID s =
     (case on_conn (Head messageID) s of
        (Inl e, s1) \<Rightarrow> (Inl (NNTPError e), s1)
      | (Inr hdrs, s1) \<Rightarrow>
          (case ParseUserKey (lib_xml_user_key L) (header_get hdrs ''x-user-key'') of
             None \<Rightarrow> (Inr [], s1)
           | Some key \<Rightarrow>
               let owner = SpotterID (Modulus key);
                   verified = VerifyFullSpot messageID key (header_get hdrs ''x-user-signature'')
                                (header_get hdrs ''x-xml-signature'')
               in (case on_db (SetSpotOwner messageID owner verified) s1 of
                     (Inl e, s2) \<Rightarrow> (Inl (StoreError e), s2)
                   | (Inr _, s2) \<Rightarrow> (Inr owner, s2))))"

text \<open>The loop over the commands. \<open>lookupErr\<close> is the first failed owner lookup: no further lookup is made
  after it. A store error ends the loop at once.\<close>

fun withdraw_loop ::
  "lib \<Rightarrow> ModerationCommand list \<Rightarrow> string list \<Rightarrow> sync_error option \<Rightarrow> ModerationStats \<Rightarrow> sync_io
     \<Rightarrow> (sql_error + string list \<times> sync_error option) \<times> ModerationStats \<times> sync_io" where
  "withdraw_loop L [] targets lookupErr st s = (Inr (targets, lookupErr), st, s)"
| "withdraw_loop L (cmd # cmds) targets lookupErr st s =
     (if \<not> mc_Verified cmd
      then withdraw_loop L cmds targets lookupErr (st\<lparr>Unverified := Unverified st + 1\<rparr>) s
      else if TargetID cmd \<in> set targets then withdraw_loop L cmds targets lookupErr st s
      else (case on_db (DisposeTarget (TargetID cmd)) s of
              (Inl e, s1) \<Rightarrow> (Inl e, st, s1)
            | (Inr None, s1) \<Rightarrow> withdraw_loop L cmds targets lookupErr (st\<lparr>NoTarget := NoTarget st + 1\<rparr>) s1
            | (Inr (Some t), s1) \<Rightarrow>
                if dt_Moderated t then withdraw_loop L cmds targets lookupErr st s1
                else if Moderator cmd
                then withdraw_loop L cmds (targets @ [TargetID cmd]) lookupErr
                       (st\<lparr>ByModerator := ByModerator st + 1\<rparr>) s1
                else if \<not> WithinDisposeWindow cmd (dt_Posted t)
                then withdraw_loop L cmds targets lookupErr (st\<lparr>Rejected := Rejected st + 1\<rparr>) s1
                else let (owner, lookupErr1, st1, s2) =
                           (if dt_Owner t = [] \<and> lookupErr = None
                            then (case lookupOwner L (TargetID cmd) s1 of
                                    (Inr o1, s2) \<Rightarrow> (o1, None, st\<lparr>OwnerLookups := OwnerLookups st + 1\<rparr>, s2)
                                  | (Inl err, s2) \<Rightarrow>
                                      ([], if err = NNTPError NoSuchArticle then None else Some err,
                                       st\<lparr>OwnerLookups := OwnerLookups st + 1\<rparr>, s2))
                            else (dt_Owner t, lookupErr, st, s1))
                     in if owner = []
                        then withdraw_loop L cmds targets lookupErr1 (st1\<lparr>OwnerUnknown := OwnerUnknown st1 + 1\<rparr>) s2
                        else if \<not> ValidateDispose cmd owner (dt_Posted t)
                        then withdraw_loop L cmds targets lookupErr1 (st1\<lparr>Rejected := Rejected st1 + 1\<rparr>) s2
                        else withdraw_loop L cmds (targets @ [TargetID cmd]) lookupErr1 st1 s2))"

definition applyModeration ::
  "lib \<Rightarrow> 'f Config \<Rightarrow> ModerationCommand list \<Rightarrow> sync_io \<Rightarrow> (sync_error option \<times> ModerationStats) \<times> sync_io" where
  "applyModeration L cfg cmds s =
     (if ModerationMode cfg = ModerationOff then ((None, no_moderation), s)
      else (case withdraw_loop L cmds [] None no_moderation s of
              (Inl e, st, s1) \<Rightarrow> ((Some (StoreError e), st), s1)
            | (Inr (targets, lookupErr), st, s1) \<Rightarrow>
                if targets = [] then ((lookupErr, st), s1)
                else (case (if ModerationMode cfg = ModerationDelete
                            then (case on_db (DeleteSpotsByMessageID targets) s1 of
                                    (Inl e, s2) \<Rightarrow> (Some e, 0, s2)
                                  | (Inr n, s2) \<Rightarrow>
                                      (case on_db (MarkModerated targets) s2 of
                                         (Inl e, s3) \<Rightarrow> (Some e, n, s3)
                                       | (Inr _, s3) \<Rightarrow> (None, n, s3)))
                            else if ModerationMode cfg = ModerationMark
                            then (case on_db (MarkModerated targets) s1 of
                                    (Inl e, s2) \<Rightarrow> (Some e, 0, s2)
                                  | (Inr n, s2) \<Rightarrow> (None, n, s2))
                            else (None, 0, s1)) of
                        (Some e, n, s2) \<Rightarrow> ((Some (StoreError e), st\<lparr>Applied := n\<rparr>), s2)
                      | (None, n, s2) \<Rightarrow> ((lookupErr, st\<lparr>Applied := n\<rparr>), s2))))"

section \<open>Commands never give input back\<close>

lemma read_string_le: "read_string c = (l, e, c') \<Longrightarrow> length (inp c') \<le> length (inp c)"
proof (cases e)
  case None
  moreover assume "read_string c = (l, e, c')"
  ultimately show ?thesis using read_string_shrinks[of c l c'] by simp
next
  case (Some x)
  moreover assume "read_string c = (l, e, c')"
  ultimately have "c' = c\<lparr>inp := []\<rparr>"
    unfolding read_string_def Let_def by (auto simp del: dropWhile_eq_Nil_conv split: if_splits)
  then show ?thesis by simp
qed

lemma sendCmd_le: "sendCmd cmd c = (r, c') \<Longrightarrow> length (inp c') \<le> length (inp c)"
  by (auto simp: sendCmd_def split: option.splits prod.splits dest!: read_string_le)

lemma sendCmd_less: "sendCmd cmd c = (Inr l, c') \<Longrightarrow> length (inp c') < length (inp c)"
  by (auto simp: sendCmd_def split: option.splits prod.splits dest!: read_string_shrinks)

lemma overview_loop_le: "overview_loop tp acc c = (r, c') \<Longrightarrow> length (inp c') \<le> length (inp c)"
proof (induction tp acc c rule: overview_loop.induct)
  case (1 tp acc c)
  obtain line e c1 where l: "read_string c = (line, e, c1)" by (cases "read_string c")
  note le = read_string_le[OF l]
  show ?case
  proof (cases e)
    case None
    note ih = "1.IH"[OF l[symmetric] refl None]
    show ?thesis
    proof (cases "chomp line = ''.''")
      case True
      with "1.prems" l None le show ?thesis by (simp add: overview_loop.simps[of tp acc c])
    next
      case False
      with "1.prems" l None have "(case parse_overview_line tp (chomp line) of
          None \<Rightarrow> overview_loop tp acc c1 | Some ai \<Rightarrow> overview_loop tp (acc @ [ai]) c1) = (r, c')"
        by (simp add: overview_loop.simps[of tp acc c])
      then have "length (inp c') \<le> length (inp c1)"
        using ih False by (cases "parse_overview_line tp (chomp line)") auto
      with le show ?thesis by simp
    qed
  qed (use "1.prems" l le in \<open>simp add: overview_loop.simps[of tp acc c]\<close>)
qed

lemma Overview_less: "Overview tp lo hi c = (Inr as, c') \<Longrightarrow> length (inp c') < length (inp c)"
  by (auto simp: Overview_def Let_def split: prod.splits sum.splits option.splits
      dest!: sendCmd_less overview_loop_le)

lemma head_loop_le: "length (inp (snd (head_loop limit n h k v c))) \<le> length (inp c)"
proof (induction limit n h k v c rule: head_loop.induct)
  case (1 limit n h k v c)
  obtain line err c1 where r: "read_string c = (line, err, c1)" by (cases "read_string c") auto
  note le = order.trans[OF _ read_string_le[OF r]]
  show ?case
    using "1.IH"[OF r[symmetric], THEN le] read_string_le[OF r]
    by (subst head_loop.simps) (auto simp: r Let_def split: option.split)
qed

lemma Head_le: "Head m c = (r, c') \<Longrightarrow> length (inp c') \<le> length (inp c)"
  using head_loop_le by (auto simp: Head_def split: prod.splits sum.splits option.splits if_splits
      dest!: sendCmd_le dest: order.trans[rotated]) (metis order.trans snd_conv)+

abbreviation input_left :: "sync_io \<Rightarrow> nat" where "input_left s \<equiv> length (inp (sconn s))"

lemma on_db_conn: "on_db f s = (r, s') \<Longrightarrow> sconn s' = sconn s \<and> sbroken s' = sbroken s"
  by (auto simp: on_db_def split: prod.splits)

lemma lookupOwner_le: "lookupOwner L m s = (r, s') \<Longrightarrow> input_left s' \<le> input_left s"
  by (auto simp: lookupOwner_def on_conn_def Let_def split: prod.splits sum.splits option.splits
      dest!: on_db_conn Head_le)

lemma withdraw_loop_le:
  "withdraw_loop L cmds ts le st s = (r, st', s') \<Longrightarrow> input_left s' \<le> input_left s"
proof (induction cmds arbitrary: ts le st s)
  case (Cons cmd cmds)
  note ih = Cons.IH
  show ?case
  proof (cases "\<not> mc_Verified cmd \<or> TargetID cmd \<in> set ts")
    case True
    with Cons.prems ih show ?thesis by (auto split: if_splits)
  next
    case False
    obtain d s1 where t: "on_db (DisposeTarget (TargetID cmd)) s = (d, s1)" by fastforce
    note s1 = on_db_conn[OF t, THEN conjunct1]
    show ?thesis
    proof (cases "\<exists>t. d = Inr (Some t) \<and> \<not> dt_Moderated t \<and> \<not> Moderator cmd \<and> WithinDisposeWindow cmd (dt_Posted t)
        \<and> dt_Owner t = [] \<and> le = None")
      case True
      then obtain t1 where d: "d = Inr (Some t1)" "\<not> dt_Moderated t1" "\<not> Moderator cmd"
        "WithinDisposeWindow cmd (dt_Posted t1)" "dt_Owner t1 = []" "le = None" by blast
      obtain o1 s2 where o: "lookupOwner L (TargetID cmd) s1 = (o1, s2)" by fastforce
      note o_le = lookupOwner_le[OF o]
      from Cons.prems False t d o obtain ts' le' st2 where
        "withdraw_loop L cmds ts' le' st2 s2 = (r, st', s')"
        by (auto simp: Let_def split: sum.splits if_splits)
      from ih[OF this] o_le s1 show ?thesis by simp
    next
      case none: False
      from Cons.prems False t none have
        "s' = s1 \<or> (\<exists>ts' le' st2. withdraw_loop L cmds ts' le' st2 s1 = (r, st', s'))"
        by (auto simp: Let_def split: sum.splits option.splits if_splits)
      with ih s1 show ?thesis by fastforce
    qed
  qed
qed simp

lemma applyModeration_le: "applyModeration L cfg cmds s = (r, s') \<Longrightarrow> input_left s' \<le> input_left s"
  by (auto simp: applyModeration_def split: if_splits prod.splits sum.splits option.splits
      dest!: withdraw_loop_le on_db_conn)

section \<open>The forward sync\<close>

definition new_stats :: "string \<Rightarrow> Stats" where
  "new_stats grp = \<lparr>ArticlesChecked = 0, SpotsInserted = 0, SpotsRejected = 0, SpotsModerated = 0,
     ControlMessages = 0, st_Group = grp\<rparr>"

definition dispose_of :: "Spot \<Rightarrow> ModerationCommand \<times> bool" where
  "dispose_of spot = ParseDispose (sp_Title spot) (sp_HeaderPart spot) (sp_Poster spot) (sp_HeaderSig spot)
     (sp_SelfSignedKey spot) (sp_MessageID spot) (sp_KeyID spot) (sp_PostedAt spot)"

text \<open>One overview chunk, line by line: the spots to store and the withdrawals to apply.\<close>

fun scan_articles ::
  "lib \<Rightarrow> 'f Config \<Rightarrow> ArticleInfo list \<Rightarrow> Spot list \<Rightarrow> ModerationCommand list \<Rightarrow> Stats
     \<Rightarrow> Spot list \<times> ModerationCommand list \<times> Stats" where
  "scan_articles L cfg [] ss disposes st = (ss, disposes, st)"
| "scan_articles L cfg (ai # ais) ss disposes st =
     (case ParseFromOverview (lib_clock L ai) ai of
        Inl _ \<Rightarrow> scan_articles L cfg ais ss disposes st
      | Inr (spot, headerVerified) \<Rightarrow>
          (case dispose_of spot of
             (cmd, True) \<Rightarrow>
               scan_articles L cfg ais ss
                 (if ModerationMode cfg \<noteq> ModerationOff \<and> mc_Verified cmd then disposes @ [cmd] else disposes)
                 (st\<lparr>ControlMessages := ControlMessages st + 1\<rparr>)
           | (_, False) \<Rightarrow>
               if VerifySignatures cfg \<and> \<not> headerVerified
               then scan_articles L cfg ais ss disposes (st\<lparr>SpotsRejected := SpotsRejected st + 1\<rparr>)
               else if \<not> ValidMessageID (sp_MessageID spot)
               then scan_articles L cfg ais ss disposes (st\<lparr>SpotsRejected := SpotsRejected st + 1\<rparr>)
               else scan_articles L cfg ais (ss @ [spot]) disposes st))"

text \<open>A failed insert is logged and the chunk goes on.\<close>

definition store_chunk :: "Spot list \<Rightarrow> Stats \<Rightarrow> sync_io \<Rightarrow> Stats \<times> sync_io" where
  "store_chunk ss st s =
     (if ss = [] then (st, s)
      else (case on_db (InsertSpots ss) s of
              (Inl _, s1) \<Rightarrow> (st, s1)
            | (Inr n, s1) \<Rightarrow> (st\<lparr>SpotsInserted := SpotsInserted st + n\<rparr>, s1)))"

definition mark_broken :: "sync_io \<Rightarrow> sync_io" where
  "mark_broken s = s\<lparr>sbroken := True\<rparr>"

definition checkpoint :: "string \<Rightarrow> ArticleInfo list \<Rightarrow> sync_io \<Rightarrow> sync_io" where
  "checkpoint grp articles s =
     (if articles = [] then s
      else snd (on_db (SetSyncState grp (ai_ArticleNum (last articles))) s))"

text \<open>The body of the loop for one chunk; the flag says whether the loop breaks.\<close>

definition sync_chunk ::
  "lib \<Rightarrow> 'f Config \<Rightarrow> string \<Rightarrow> int \<Rightarrow> int \<Rightarrow> Stats \<Rightarrow> sync_io \<Rightarrow> bool \<times> Stats \<times> sync_io" where
  "sync_chunk L cfg grp chunkFrom chunkTo st s =
     (case on_conn (Overview (lib_time_parse L) chunkFrom chunkTo) s of
        (Inl _, s1) \<Rightarrow> (True, st, mark_broken s1)
      | (Inr articles, s1) \<Rightarrow>
          (case scan_articles L cfg articles [] []
                  (st\<lparr>ArticlesChecked := ArticlesChecked st + int (length articles)\<rparr>) of
             (ss, disposes, st1) \<Rightarrow>
               (case store_chunk ss st1 s1 of
                  (st2, s2) \<Rightarrow>
                    if disposes = [] then (False, st2, checkpoint grp articles s2)
                    else (case applyModeration L cfg disposes s2 of
                            ((err, ms), s3) \<Rightarrow>
                              let st3 = st2\<lparr>SpotsModerated := SpotsModerated st2 + Applied ms\<rparr>
                              in if err \<noteq> None then (True, st3, mark_broken s3)
                                 else (False, st3, checkpoint grp articles s3)))))"

definition chunk_to :: "int \<Rightarrow> int \<Rightarrow> int" where
  "chunk_to chunkFrom glast =
     (let t = wrap64 (wrap64 (chunkFrom + overviewChunkSize) - 1) in if glast < t then glast else t)"

lemma store_chunk_conn: "store_chunk ss st s = (st', s') \<Longrightarrow> sconn s' = sconn s \<and> sbroken s' = sbroken s"
  by (auto simp: store_chunk_def split: if_splits prod.splits sum.splits dest!: on_db_conn)

lemma checkpoint_conn: "sconn (checkpoint grp as s) = sconn s" "sbroken (checkpoint grp as s) = sbroken s"
proof -
  obtain u s1 where "on_db (SetSyncState grp (ai_ArticleNum (last as))) s = (u, s1)" by fastforce
  with on_db_conn[OF this] show "sconn (checkpoint grp as s) = sconn s" "sbroken (checkpoint grp as s) = sbroken s"
    by (simp_all add: checkpoint_def)
qed

lemma sync_chunk_less: "sync_chunk L cfg grp a b st s = (False, st', s') \<Longrightarrow> input_left s' < input_left s"
proof -
  assume a: "sync_chunk L cfg grp a b st s = (False, st', s')"
  then obtain articles c1 where o: "Overview (lib_time_parse L) a b (sconn s) = (Inr articles, c1)"
    by (auto simp: sync_chunk_def on_conn_def split: prod.splits sum.splits)
  obtain ss ds st1 where sc: "scan_articles L cfg articles [] []
      (st\<lparr>ArticlesChecked := ArticlesChecked st + int (length articles)\<rparr>) = (ss, ds, st1)"
    by (metis prod_cases3)
  obtain st2 s2 where st: "store_chunk ss st1 (s\<lparr>sconn := c1\<rparr>) = (st2, s2)" by fastforce
  have "input_left s' \<le> input_left s2"
    using a o sc st by (auto simp: sync_chunk_def on_conn_def Let_def checkpoint_conn
        split: if_splits prod.splits dest!: applyModeration_le)
  moreover have "sconn s2 = c1" using store_chunk_conn[OF st] by simp
  ultimately show ?thesis using Overview_less[OF o] by simp
qed

function sync_loop ::
  "lib \<Rightarrow> 'f Config \<Rightarrow> string \<Rightarrow> int \<Rightarrow> int \<Rightarrow> Stats \<Rightarrow> sync_io \<Rightarrow> Stats \<times> sync_io" where
  "sync_loop L cfg grp glast chunkFrom st s =
     (if glast < chunkFrom then (st, s)
      else (case on_db ctx_Err s of
              (Inl _, s1) \<Rightarrow> (st, s1)
            | (Inr _, s1) \<Rightarrow>
                (case sync_chunk L cfg grp chunkFrom (chunk_to chunkFrom glast) st s1 of
                   (True, st2, s2) \<Rightarrow> (st2, s2)
                 | (False, st2, s2) \<Rightarrow>
                     sync_loop L cfg grp glast (wrap64 (chunkFrom + overviewChunkSize)) st2 s2)))"
  by pat_completeness auto
termination
  by (relation "measure (\<lambda>(L, cfg, grp, glast, chunkFrom, st, s). input_left s)")
    (auto dest!: sync_chunk_less[OF sym] on_db_conn[OF sym])

declare sync_loop.simps [simp del]

definition first_article :: "'f Config \<Rightarrow> GroupInfo \<Rightarrow> int \<Rightarrow> int" where
  "first_article cfg gi lastSeen =
     (if lastSeen = 0
      then let f = wrap64 (gi_Last gi - SyncLookback cfg) in if f < gi_First gi then gi_First gi else f
      else wrap64 (lastSeen + 1))"

text \<open>\<open>None\<close> for the lease is a failure of \<open>pool.Get\<close>; the state returned is what \<open>Release\<close> sees.\<close>

definition syncGroup ::
  "lib \<Rightarrow> 'f Config \<Rightarrow> conn option \<Rightarrow> string \<Rightarrow> database \<Rightarrow> (sync_error + Stats) \<times> database \<times> (conn \<times> bool) option" where
  "syncGroup L cfg lease grp d =
     (case lease of
        None \<Rightarrow> (Inl PoolError, d, None)
      | Some c \<Rightarrow>
          let s = \<lparr>sdb = d, sconn = c, sbroken = False\<rparr>;
              done = (\<lambda>r s. (r, sdb s, Some (sconn s, sbroken s)))
          in (case on_conn (SelectGroup grp) s of
                (Inl e, s1) \<Rightarrow> done (Inl (NNTPError e)) (mark_broken s1)
              | (Inr gi, s1) \<Rightarrow>
                  (case on_db (GetSyncState grp) s1 of
                     (Inl e, s2) \<Rightarrow> done (Inl (StoreError e)) s2
                   | (Inr lastSeen, s2) \<Rightarrow>
                       let fromArticle = first_article cfg gi lastSeen
                       in if gi_Last gi < fromArticle then done (Inr (new_stats grp)) s2
                          else (case sync_loop L cfg grp (gi_Last gi) fromArticle (new_stats grp) s2 of
                                  (st, s3) \<Rightarrow> done (Inr st) s3))))"

text \<open>\<open>Engine.run\<close>: every group in turn, the connection of each leased as \<open>leases\<close> says; errors are logged.\<close>

fun run_groups :: "lib \<Rightarrow> 'f Config \<Rightarrow> (string \<Rightarrow> conn option) \<Rightarrow> string list \<Rightarrow> database \<Rightarrow> database" where
  "run_groups L cfg leases [] d = d"
| "run_groups L cfg leases (grp # grps) d =
     run_groups L cfg leases grps (fst (snd (syncGroup L cfg (leases grp) grp d)))"

definition run :: "lib \<Rightarrow> 'f Config \<Rightarrow> (string \<Rightarrow> conn option) \<Rightarrow> database \<Rightarrow> database" where
  "run L cfg leases d = run_groups L cfg leases SpotnetGroups d"

text \<open>\<open>Start\<close>: a run at once and one per tick, here one per element of the list.\<close>

fun Engine_Start :: "lib \<Rightarrow> 'f Config \<Rightarrow> (string \<Rightarrow> conn option) list \<Rightarrow> database \<Rightarrow> database" where
  "Engine_Start L cfg [] d = d"
| "Engine_Start L cfg (leases # ticks) d = Engine_Start L cfg ticks (run L cfg leases d)"

end
