(* ===== verification/Workers.thy ===== *)
theory Workers
  imports Sync
begin

text \<open>
  The background workers: the historical backfill (\<open>internal/sync/backfill.go\<close>), the withdrawal sweep
  (\<open>disposesweep.go\<close>) and the hourly maintenance (\<open>maintenance.go\<close>). A worker's endless loop is a
  recursion over the list of what \<open>pool.Get\<close> gives it, one lease per iteration, so every finite
  prefix of a run is covered; the pauses between iterations carry no state.
\<close>

section \<open>Backfill\<close>

fun ingest_scan :: "lib \<Rightarrow> 'f Config \<Rightarrow> ArticleInfo list \<Rightarrow> Spot list \<Rightarrow> int \<Rightarrow> Spot list \<times> int" where
  "ingest_scan L cfg [] ss control = (ss, control)"
| "ingest_scan L cfg (ai # ais) ss control =
     (case ParseFromOverview (lib_clock L ai) ai of
        Inl _ \<Rightarrow> ingest_scan L cfg ais ss control
      | Inr (spot, headerVerified) \<Rightarrow>
          if snd (dispose_of spot) then ingest_scan L cfg ais ss (control + 1)
          else if VerifySignatures cfg \<and> \<not> headerVerified then ingest_scan L cfg ais ss control
          else if \<not> ValidMessageID (sp_MessageID spot) then ingest_scan L cfg ais ss control
          else ingest_scan L cfg ais (ss @ [spot]) control)"

definition ingest :: "lib \<Rightarrow> 'f Config \<Rightarrow> ArticleInfo list \<Rightarrow> sync_io \<Rightarrow> (int \<times> int) \<times> sync_io" where
  "ingest L cfg articles s =
     (case ingest_scan L cfg articles [] 0 of
        (ss, control) \<Rightarrow>
          if ss = [] then ((0, control), s)
          else (case on_db (InsertSpots ss) s of
                  (Inl _, s1) \<Rightarrow> ((0, control), s1)
                | (Inr n, s1) \<Rightarrow> ((n, control), s1)))"

type_synonym lease_end = "(conn \<times> bool) option"

definition release_io :: "'a \<Rightarrow> sync_io \<Rightarrow> 'a \<times> database \<times> lease_end" where
  "release_io r s = (r, sdb s, Some (sconn s, sbroken s))"

definition backfillChunk ::
  "lib \<Rightarrow> 'f Config \<Rightarrow> conn option \<Rightarrow> string \<Rightarrow> database \<Rightarrow> (sync_error + bool) \<times> database \<times> lease_end" where
  "backfillChunk L cfg lease grp d =
     (case lease of
        None \<Rightarrow> (Inl PoolError, d, None)
      | Some c \<Rightarrow>
          (case on_conn (SelectGroup grp) \<lparr>sdb = d, sconn = c, sbroken = False\<rparr> of
             (Inl e, s1) \<Rightarrow> release_io (Inl (NNTPError e)) (mark_broken s1)
           | (Inr gi, s1) \<Rightarrow>
               (case on_db (GetBackfillState grp) s1 of
                  (Inl e, s2) \<Rightarrow> release_io (Inl (StoreError e)) s2
                | (Inr oldest, s2) \<Rightarrow>
                    if oldest = 0 then release_io (Inr True) s2
                    else if oldest \<le> gi_First gi then release_io (Inr True) s2
                    else let to = wrap64 (oldest - 1);
                             from0 = wrap64 (wrap64 (to - overviewChunkSize) + 1);
                             from1 = (if from0 < gi_First gi then gi_First gi else from0)
                         in (case on_conn (Overview (lib_time_parse L) from1 to) s2 of
                               (Inl e, s3) \<Rightarrow> release_io (Inl (NNTPError e)) (mark_broken s3)
                             | (Inr articles, s3) \<Rightarrow>
                                 (case ingest L cfg articles s3 of
                                    (_, s4) \<Rightarrow>
                                      (case on_db (SetBackfillState grp from1) s4 of
                                         (Inl e, s5) \<Rightarrow> release_io (Inl (StoreError e)) s5
                                       | (Inr _, s5) \<Rightarrow> release_io (Inr (from1 \<le> gi_First gi)) s5))))))"

text \<open>How a worker's loop ends within the given prefix.\<close>

datatype worker_end = Finished | Failed sync_error | Cancelled | StillRunning

fun backfillGroup :: "lib \<Rightarrow> 'f Config \<Rightarrow> string \<Rightarrow> conn option list \<Rightarrow> database \<Rightarrow> worker_end \<times> database" where
  "backfillGroup L cfg grp [] d = (StillRunning, d)"
| "backfillGroup L cfg grp (lease # leases) d =
     (case ctx_Err d of
        (Inl _, d1) \<Rightarrow> (Cancelled, d1)
      | (Inr _, d1) \<Rightarrow>
          (case backfillChunk L cfg lease grp d1 of
             (Inl e, d2, _) \<Rightarrow> (Failed e, d2)
           | (Inr True, d2, _) \<Rightarrow> (Finished, d2)
           | (Inr False, d2, _) \<Rightarrow> backfillGroup L cfg grp leases d2))"

text \<open>\<open>Start\<close>: every group, whatever became of the one before.\<close>

fun start_groups :: "(string \<Rightarrow> database \<Rightarrow> worker_end \<times> database) \<Rightarrow> string list \<Rightarrow> database \<Rightarrow> database" where
  "start_groups work [] d = d"
| "start_groups work (grp # grps) d = start_groups work grps (snd (work grp d))"

definition Backfill_Start :: "lib \<Rightarrow> 'f Config \<Rightarrow> (string \<Rightarrow> conn option list) \<Rightarrow> database \<Rightarrow> database" where
  "Backfill_Start L cfg leases d =
     (if \<not> BackfillEnabled cfg then d
      else start_groups (\<lambda>grp. backfillGroup L cfg grp (leases grp)) SpotnetGroups d)"

section \<open>The withdrawal sweep\<close>

fun sweep_scan :: "lib \<Rightarrow> ArticleInfo list \<Rightarrow> ModerationCommand list" where
  "sweep_scan L [] = []"
| "sweep_scan L (ai # ais) =
     (case ParseFromOverview (lib_clock L ai) ai of
        Inl _ \<Rightarrow> sweep_scan L ais
      | Inr (spot, _) \<Rightarrow>
          (case dispose_of spot of
             (cmd, True) \<Rightarrow> cmd # sweep_scan L ais
           | (_, False) \<Rightarrow> sweep_scan L ais))"

text \<open>Where the sweep stands: the end it walks to and the position it has passed, or the early return.\<close>

definition sweep_position :: "string \<Rightarrow> database \<Rightarrow> ((sync_error + bool) + int \<times> int) \<times> database" where
  "sweep_position grp d =
     (case GetSyncState grp d of
        (Inl e, d1) \<Rightarrow> (Inl (Inl (StoreError e)), d1)
      | (Inr fin, d1) \<Rightarrow>
          if fin = 0 then (Inl (Inr True), d1)
          else (case GetDisposeSweepState grp d1 of
                  (Inl e, d2) \<Rightarrow> (Inl (Inl (StoreError e)), d2)
                | (Inr pos, d2) \<Rightarrow>
                    if pos \<noteq> 0 then (if fin \<le> pos then (Inl (Inr True), d2) else (Inr (pos, fin), d2))
                    else (case OldestArticle d2 of
                            (Inl e, d3) \<Rightarrow> (Inl (Inl (StoreError e)), d3)
                          | (Inr oldest, d3) \<Rightarrow>
                              if oldest = 0 then (Inl (Inr True), d3)
                              else let pos1 = wrap64 (oldest - 1)
                                   in if fin \<le> pos1 then (Inl (Inr True), d3) else (Inr (pos1, fin), d3))))"

definition sweepChunk ::
  "lib \<Rightarrow> 'f Config \<Rightarrow> conn option \<Rightarrow> string \<Rightarrow> database
     \<Rightarrow> (sync_error + bool) \<times> ModerationStats \<times> database \<times> lease_end" where
  "sweepChunk L cfg lease grp d =
     (case sweep_position grp d of
        (Inl r, d1) \<Rightarrow> (r, no_moderation, d1, None)
      | (Inr (pos, fin), d1) \<Rightarrow>
          let from1 = wrap64 (pos + 1);
              to0 = wrap64 (wrap64 (from1 + overviewChunkSize) - 1);
              to = (if fin < to0 then fin else to0)
          in (case lease of
                None \<Rightarrow> (Inl PoolError, no_moderation, d1, None)
              | Some c \<Rightarrow>
                  (case on_conn (SelectGroup grp) \<lparr>sdb = d1, sconn = c, sbroken = False\<rparr> of
                     (Inl e, s1) \<Rightarrow>
                       (Inl (NNTPError e), no_moderation, snd (release_io () (mark_broken s1)))
                   | (Inr _, s1) \<Rightarrow>
                       (case on_conn (Overview (lib_time_parse L) from1 to) s1 of
                          (Inl e, s2) \<Rightarrow>
                            (Inl (NNTPError e), no_moderation, snd (release_io () (mark_broken s2)))
                        | (Inr articles, s2) \<Rightarrow>
                            (case applyModeration L cfg (sweep_scan L articles) s2 of
                               ((Some e, st), s3) \<Rightarrow> (Inl e, st, snd (release_io () (mark_broken s3)))
                             | ((None, st), s3) \<Rightarrow>
                                 (case on_db (SetDisposeSweepState grp to) s3 of
                                    (Inl e, s4) \<Rightarrow> (Inl (StoreError e), st, snd (release_io () s4))
                                  | (Inr _, s4) \<Rightarrow> (Inr (fin \<le> to), st, snd (release_io () s4))))))))"

fun sweepGroup ::
  "lib \<Rightarrow> 'f Config \<Rightarrow> string \<Rightarrow> conn option list \<Rightarrow> nat \<Rightarrow> database \<Rightarrow> worker_end \<times> database" where
  "sweepGroup L cfg grp [] failures d = (StillRunning, d)"
| "sweepGroup L cfg grp (lease # leases) failures d =
     (case ctx_Err d of
        (Inl _, d1) \<Rightarrow> (Cancelled, d1)
      | (Inr _, d1) \<Rightarrow>
          (case sweepChunk L cfg lease grp d1 of
             (Inl e, _, d2, _) \<Rightarrow>
               if 10 \<le> failures + 1 then (Failed e, d2) else sweepGroup L cfg grp leases (failures + 1) d2
           | (Inr True, _, d2, _) \<Rightarrow> (Finished, d2)
           | (Inr False, _, d2, _) \<Rightarrow> sweepGroup L cfg grp leases 0 d2))"

definition DisposeSweep_Start :: "lib \<Rightarrow> 'f Config \<Rightarrow> (string \<Rightarrow> conn option list) \<Rightarrow> database \<Rightarrow> database" where
  "DisposeSweep_Start L cfg leases d =
     (if ModerationMode cfg = ModerationOff then d
      else start_groups (\<lambda>grp. sweepGroup L cfg grp (leases grp) 0) SpotnetGroups d)"

section \<open>Maintenance\<close>

text \<open>What the outside gives a maintenance run: the clock, \<open>Time.AddDate\<close> in the configured time zone, the
  reply to a request (\<open>None\<close> for a request that fails; a status, a body and whether the body could be
  read), and the id attribute and text of every entry \<open>encoding/xml\<close> finds in a feed.\<close>

record feeds =
  wall_clock :: gotime
  add_days :: "gotime \<Rightarrow> int \<Rightarrow> gotime"
  http_get :: "string \<Rightarrow> (int \<times> string \<times> bool) option"
  xml_feed :: "string \<Rightarrow> (string \<times> string) list option"

definition maxListBytes :: nat where "maxListBytes = 8388608"

fun feed_ids :: "string list \<Rightarrow> string list \<Rightarrow> string list" where
  "feed_ids ids [] = ids"
| "feed_ids ids (candidate # cs) =
     (if candidate = [] \<or> 64 < length candidate then feed_ids ids cs
      else if candidate \<in> set ids then feed_ids ids cs
      else feed_ids (ids @ [candidate]) cs)"

definition fetchSpotterList :: "feeds \<Rightarrow> string \<Rightarrow> string list option" where
  "fetchSpotterList F url =
     (case http_get F url of
        None \<Rightarrow> None
      | Some (status, body, readable) \<Rightarrow>
          if status \<noteq> 200 \<or> \<not> readable then None
          else (case xml_feed F (take maxListBytes body) of
                  None \<Rightarrow> None
                | Some entries \<Rightarrow> Some (feed_ids [] (concat (map (\<lambda>(i, v). [i, trim_space v]) entries)))))"

fun refresh_loop :: "feeds \<Rightarrow> (string \<times> string) list \<Rightarrow> unit sql" where
  "refresh_loop F [] d = (Inr (), d)"
| "refresh_loop F ((url, listType) # ls) d =
     (if url = [] then refresh_loop F ls d
      else (case fetchSpotterList F url of
              None \<Rightarrow> refresh_loop F ls d
            | Some ids \<Rightarrow>
                if ids = [] then refresh_loop F ls d
                else (case ReplaceSpotterList listType url ids d of
                        (Inl e, d1) \<Rightarrow> (Inl e, d1)
                      | (Inr _, d1) \<Rightarrow> refresh_loop F ls d1)))"

definition refreshSpotterLists :: "feeds \<Rightarrow> 'f Config \<Rightarrow> unit sql" where
  "refreshSpotterLists F cfg = refresh_loop F [(BlacklistURL cfg, ''black''), (WhitelistURL cfg, ''white'')]"

definition applyBlacklist :: "unit sql" where
  "applyBlacklist d =
     (case BlacklistedSpotters d of
        (Inl e, d1) \<Rightarrow> (Inl e, d1)
      | (Inr blocked, d1) \<Rightarrow>
          if blocked = [] then (Inr (), d1)
          else (case DeleteSpotsBySpotter blocked d1 of
                  (Inl e, d2) \<Rightarrow> (Inl e, d2)
                | (Inr _, d2) \<Rightarrow> (Inr (), d2)))"

definition applyRetention :: "feeds \<Rightarrow> 'f Config \<Rightarrow> unit sql" where
  "applyRetention F cfg d =
     (if RetentionDays cfg \<le> 0 then (Inr (), d)
      else let cutoff = add_days F (wall_clock F) (- RetentionDays cfg)
           in (case DeleteSpotsOlderThan cutoff d of
                 (Inl e, d1) \<Rightarrow> (Inl e, d1)
               | (Inr _, d1) \<Rightarrow> (Inr (), snd (PruneModeratedRing cutoff d1))))"

definition evictCache :: "'f Config \<Rightarrow> unit sql" where
  "evictCache cfg d =
     (if CacheMaxBytes cfg \<le> 0 then (Inr (), d)
      else (case CacheBytes d of
              (Inl e, d1) \<Rightarrow> (Inl e, d1)
            | (Inr _, d1) \<Rightarrow>
                (case EvictCacheTo (CacheMaxBytes cfg) d1 of
                   (Inl e, d2) \<Rightarrow> (Inl e, d2)
                 | (Inr (ns, is), d2) \<Rightarrow>
                     if 0 < ns \<or> 0 < is then (Inr (), snd (CacheBytes d2)) else (Inr (), d2))))"

text \<open>Each task runs whatever became of the one before.\<close>

definition runOnce :: "feeds \<Rightarrow> 'f Config \<Rightarrow> database \<Rightarrow> database" where
  "runOnce F cfg d =
     (let d1 = snd (refreshSpotterLists F cfg d);
          d2 = snd (applyBlacklist d1);
          d3 = snd (applyRetention F cfg d2)
      in snd (evictCache cfg d3))"

text \<open>\<open>Start\<close>: a run at once and one per tick, each with the feeds it finds.\<close>

fun Maintainer_Start :: "'f Config \<Rightarrow> feeds list \<Rightarrow> database \<Rightarrow> database" where
  "Maintainer_Start cfg [] d = d"
| "Maintainer_Start cfg (F # ticks) d = Maintainer_Start cfg ticks (runOnce F cfg d)"

end
