(* ===== verification/SyncProps.thy ===== *)
theory SyncProps
  imports Workers
begin

text \<open>
  The engine against the store. The locale \<open>engine_invariant\<close> is the contract between a property of the
  database and the engine: what every step of the store keeps, given that inserted spots passed the
  ingest filter, is kept by a sync, a backfill, a sweep and a maintenance run, in whatever way the
  provider answers and whichever statements fail. Its first interpretation is the refinement: every
  worker is a sequence of store steps.
\<close>

section \<open>What the ingest filter lets through\<close>

definition ingested :: "lib \<Rightarrow> 'f Config \<Rightarrow> Spot \<Rightarrow> bool" where
  "ingested L cfg s \<longleftrightarrow>
     ValidMessageID (sp_MessageID s) \<and> \<not> snd (dispose_of s)
     \<and> (\<exists>ai v. ParseFromOverview (lib_clock L ai) ai = Inr (s, v) \<and> (VerifySignatures cfg \<longrightarrow> v))"

lemma ingested_flag: "ingested L cfg s \<Longrightarrow> adult_flag_ok s"
  unfolding ingested_def using ParseFromOverview_ok parsed_adult_flag by blast

text \<open>The filter on one overview line, which both ingest loops apply.\<close>

definition passing :: "lib \<Rightarrow> 'f Config \<Rightarrow> ArticleInfo \<Rightarrow> Spot option" where
  "passing L cfg ai =
     (case ParseFromOverview (lib_clock L ai) ai of
        Inl _ \<Rightarrow> None
      | Inr (spot, v) \<Rightarrow>
          if snd (dispose_of spot) \<or> (VerifySignatures cfg \<and> \<not> v) \<or> \<not> ValidMessageID (sp_MessageID spot)
          then None else Some spot)"

lemma passing_ingested: "passing L cfg ai = Some s \<Longrightarrow> ingested L cfg s"
  unfolding ingested_def by (rule conjI, rule_tac [2] conjI, rule_tac [3] exI[of _ ai])
    (auto simp: passing_def split: sum.splits if_splits)

lemma scan_articles_passing: "fst (scan_articles L cfg ais ss cs st) = ss @ List.map_filter (passing L cfg) ais"
proof (induction ais arbitrary: ss cs st)
  case (Cons ai ais)
  show ?case
  proof (cases "ParseFromOverview (lib_clock L ai) ai")
    case (Inl e)
    then show ?thesis by (simp add: passing_def Cons.IH)
  next
    case (Inr sv)
    obtain s v where sv: "sv = (s, v)" by fastforce
    obtain cmd b where c: "dispose_of s = (cmd, b)" by fastforce
    show ?thesis by (cases b) (simp_all add: passing_def Inr sv c Cons.IH)
  qed
qed simp

lemma ingest_scan_passing: "fst (ingest_scan L cfg ais ss n) = ss @ List.map_filter (passing L cfg) ais"
proof (induction ais arbitrary: ss n)
  case (Cons ai ais)
  show ?case
    by (cases "ParseFromOverview (lib_clock L ai) ai") (auto simp: passing_def Cons.IH split: prod.splits)
qed simp

lemma passing_spots_ingested: "\<forall>s\<in>set (List.map_filter (passing L cfg) ais). ingested L cfg s"
  by (auto simp: List.map_filter_def intro: passing_ingested)

lemma scan_articles_ingested: "scan_articles L cfg ais [] [] st = (ss, cs, st') \<Longrightarrow> \<forall>s\<in>set ss. ingested L cfg s"
  using scan_articles_passing[of L cfg ais "[]" "[]" st] passing_spots_ingested[of L cfg ais] by simp

lemma ingest_scan_ingested: "ingest_scan L cfg ais [] n = (ss, n') \<Longrightarrow> \<forall>s\<in>set ss. ingested L cfg s"
  using ingest_scan_passing[of L cfg ais "[]" n] passing_spots_ingested[of L cfg ais] by simp

text \<open>The backfill applies the same filtering as the forward sync: from the same overview lines the two
  loops keep the same spots in the same order, those that parse, are not withdrawal commands, have a
  verified header where signatures are required, and a valid message-id.\<close>

theorem backfill_filters_like_the_sync:
  "fst (scan_articles L cfg ais [] [] st) = List.map_filter (passing L cfg) ais
   \<and> fst (ingest_scan L cfg ais [] 0) = fst (scan_articles L cfg ais [] [] st)"
  by (simp add: scan_articles_passing ingest_scan_passing)

section \<open>The contract\<close>

lemma on_dbE:
  assumes "on_db f s = (r, s')"
  obtains d' where "f (sdb s) = (r, d')" "s' = s\<lparr>sdb := d'\<rparr>"
  using assms that by (auto simp: on_db_def split: prod.splits)

lemma on_conn_sdb: "on_conn f s = (r, s') \<Longrightarrow> sdb s' = sdb s"
  by (auto simp: on_conn_def split: prod.splits)

lemma mark_broken_sdb [simp]: "sdb (mark_broken s) = sdb s"
  by (simp add: mark_broken_def)

lemma release_io_simps [simp]: "fst (release_io r s) = r" "fst (snd (release_io r s)) = sdb s"
  "snd (release_io r s) = (sdb s, Some (sconn s, sbroken s))"
  "(release_io r s = (r', d', e)) = (r' = r \<and> d' = sdb s \<and> e = Some (sconn s, sbroken s))"
  by (auto simp: release_io_def)

locale engine_invariant =
  fixes L :: lib and cfg :: "'f Config" and Q :: "database \<Rightarrow> bool"
  assumes store_keeps: "store_step (ingested L cfg) d d' \<Longrightarrow> Q d \<Longrightarrow> Q d'"
begin

lemma faults_keep: "Q d \<Longrightarrow> Q (d\<lparr>faults := fs\<rparr>)"
  using store_keeps[OF store_step.env[where d = d and t = "clock d" and fs = fs and es = "ctx_errs d"]] by simp

lemma query_keeps: "query f d = (r, d') \<Longrightarrow> Q d \<Longrightarrow> Q d'"
  by (auto dest!: query_same intro: faults_keep)

lemma ctx_keeps: "ctx_Err d = (r, d') \<Longrightarrow> Q d \<Longrightarrow> Q d'"
  using store_keeps[OF store_step.env[where d = d and t = "clock d" and fs = "faults d"]] by (auto dest!: ctx_Err_spots)

lemma reads_keep:
  "DisposeTarget i d = (t, d') \<Longrightarrow> Q d \<Longrightarrow> Q d'"
  "GetSyncState grp d = (n, d') \<Longrightarrow> Q d \<Longrightarrow> Q d'"
  "GetDisposeSweepState grp d = (n, d') \<Longrightarrow> Q d \<Longrightarrow> Q d'"
  "GetBackfillState grp d = (n, d') \<Longrightarrow> Q d \<Longrightarrow> Q d'"
  "OldestArticle d = (n, d') \<Longrightarrow> Q d \<Longrightarrow> Q d'"
  "BlacklistedSpotters d = (is, d') \<Longrightarrow> Q d \<Longrightarrow> Q d'"
  unfolding DisposeTarget_def GetSyncState_def GetDisposeSweepState_def GetBackfillState_def OldestArticle_def
    BlacklistedSpotters_def
  by (erule query_keeps, assumption)+

lemma CacheBytes_keeps: "CacheBytes d = (r, d') \<Longrightarrow> Q d \<Longrightarrow> Q d'"
  by (auto dest!: CacheBytes_same intro: faults_keep)

lemma writes_keep:
  "SetSyncState grp n d = (u, d') \<Longrightarrow> Q d \<Longrightarrow> Q d'"
  "SetDisposeSweepState grp n d = (u, d') \<Longrightarrow> Q d \<Longrightarrow> Q d'"
  "SetSpotOwner i j v d = (u, d') \<Longrightarrow> Q d \<Longrightarrow> Q d'"
  "MarkModerated ids d = (k, d') \<Longrightarrow> Q d \<Longrightarrow> Q d'"
  "DeleteSpotsByMessageID ids d = (k, d') \<Longrightarrow> Q d \<Longrightarrow> Q d'"
  "EvictCacheTo m d = (e, d') \<Longrightarrow> Q d \<Longrightarrow> Q d'"
  "ReplaceSpotterList ty origin ids d = (u, d') \<Longrightarrow> Q d \<Longrightarrow> Q d'"
  "DeleteSpotsBySpotter ids d = (k, d') \<Longrightarrow> Q d \<Longrightarrow> Q d'"
  "DeleteSpotsOlderThan t d = (k, d') \<Longrightarrow> Q d \<Longrightarrow> Q d'"
  by (erule store_step.intros[THEN store_keeps], assumption)+

lemma InsertSpots_keeps:
  "InsertSpots ss d = (n, d') \<Longrightarrow> \<forall>s\<in>set ss. ingested L cfg s \<Longrightarrow> Q d \<Longrightarrow> Q d'"
  by (rule store_keeps[OF store_step.insert])

lemma lookupOwner_keeps: "lookupOwner L m s = (r, s') \<Longrightarrow> Q (sdb s) \<Longrightarrow> Q (sdb s')"
  by (auto simp: lookupOwner_def Let_def split: prod.splits sum.splits option.splits
      dest!: on_conn_sdb elim!: on_dbE dest: writes_keep)

lemma withdraw_loop_keeps:
  "withdraw_loop L cmds ts le st s = (r, st', s') \<Longrightarrow> Q (sdb s) \<Longrightarrow> Q (sdb s')"
proof (induction cmds arbitrary: ts le st s)
  case (Cons cmd cmds)
  note ih = Cons.IH
  show ?case
  proof (cases "\<not> mc_Verified cmd \<or> TargetID cmd \<in> set ts")
    case True
    with Cons.prems ih show ?thesis by (auto split: if_splits)
  next
    case False
    obtain d s1 where t: "on_db (DisposeTarget (TargetID cmd)) s = (d, s1)" by fastforce
    have q1: "Q (sdb s1)" using t Cons.prems(2) by (auto elim!: on_dbE dest: reads_keep)
    obtain o1 s2 where o: "lookupOwner L (TargetID cmd) s1 = (o1, s2)" by fastforce
    note q2 = lookupOwner_keeps[OF o q1]
    from Cons.prems False t o have
      "s' = s1 \<or> (\<exists>ts' le' st2. withdraw_loop L cmds ts' le' st2 s1 = (r, st', s'))
       \<or> (\<exists>ts' le' st2. withdraw_loop L cmds ts' le' st2 s2 = (r, st', s'))"
      by (simp add: Let_def split: sum.splits option.splits if_splits) blast+
    with ih q1 q2 show ?thesis by blast
  qed
qed simp

lemma applyModeration_keeps: "applyModeration L cfg cmds s = (r, s') \<Longrightarrow> Q (sdb s) \<Longrightarrow> Q (sdb s')"
  by (auto simp: applyModeration_def split: if_splits prod.splits sum.splits option.splits
      dest!: withdraw_loop_keeps elim!: on_dbE dest: writes_keep) (meson writes_keep)+

lemma store_chunk_keeps:
  "store_chunk ss st s = (st', s') \<Longrightarrow> \<forall>s\<in>set ss. ingested L cfg s \<Longrightarrow> Q (sdb s) \<Longrightarrow> Q (sdb s')"
  by (auto simp: store_chunk_def split: if_splits prod.splits sum.splits elim!: on_dbE dest: InsertSpots_keeps)

lemma checkpoint_keeps: "Q (sdb s) \<Longrightarrow> Q (sdb (checkpoint grp as s))"
proof -
  assume q: "Q (sdb s)"
  obtain u s1 where "on_db (SetSyncState grp (ai_ArticleNum (last as))) s = (u, s1)" by fastforce
  with q show ?thesis by (auto simp: checkpoint_def elim!: on_dbE dest: writes_keep)
qed

lemma sync_chunk_keeps: "sync_chunk L cfg grp a b st s = (stop, st', s') \<Longrightarrow> Q (sdb s) \<Longrightarrow> Q (sdb s')"
proof -
  assume c: "sync_chunk L cfg grp a b st s = (stop, st', s')" and q: "Q (sdb s)"
  obtain r s1 where o: "on_conn (Overview (lib_time_parse L) a b) s = (r, s1)" by fastforce
  have q1: "Q (sdb s1)" using on_conn_sdb[OF o] q by simp
  show ?thesis
  proof (cases r)
    case (Inl e)
    with c o q1 show ?thesis by (auto simp: sync_chunk_def)
  next
    case (Inr articles)
    obtain ss ds st1 where sc: "scan_articles L cfg articles [] []
      (st\<lparr>ArticlesChecked := ArticlesChecked st + int (length articles)\<rparr>) = (ss, ds, st1)"
      by (metis prod_cases3)
    obtain st2 s2 where st: "store_chunk ss st1 s1 = (st2, s2)" by fastforce
    have q2: "Q (sdb s2)" using store_chunk_keeps[OF st _ q1] scan_articles_ingested[OF sc] by simp
    obtain err ms s3 where m: "applyModeration L cfg ds s2 = ((err, ms), s3)" by (metis prod.collapse)
    have "s' = checkpoint grp articles s2 \<or> s' = mark_broken s3 \<or> s' = checkpoint grp articles s3"
      using c o Inr sc st m by (auto simp: sync_chunk_def Let_def split: if_splits)
    then show ?thesis using checkpoint_keeps[OF q2] applyModeration_keeps[OF m q2] checkpoint_keeps by auto
  qed
qed

lemma sync_loop_keeps: "sync_loop L cfg grp glast n st s = (st', s') \<Longrightarrow> Q (sdb s) \<Longrightarrow> Q (sdb s')"
proof (induction "input_left s" arbitrary: n st s rule: less_induct)
  case less
  obtain r s1 where c: "on_db ctx_Err s = (r, s1)" by fastforce
  have q1: "Q (sdb s1)" using c less.prems(2) by (auto elim!: on_dbE dest: ctx_keeps)
  obtain stop st2 s2 where k: "sync_chunk L cfg grp n (chunk_to n glast) st s1 = (stop, st2, s2)"
    by (metis prod_cases3)
  note q2 = sync_chunk_keeps[OF k q1]
  show ?case
  proof (cases "glast < n \<or> (\<exists>e. r = Inl e) \<or> stop")
    case True
    with less.prems c k q1 q2 show ?thesis
      by (auto simp: sync_loop.simps[of L cfg grp glast n] split: if_splits sum.splits)
  next
    case False
    with less.prems(1) c k have
      "sync_loop L cfg grp glast (wrap64 (n + overviewChunkSize)) st2 s2 = (st', s')"
      by (auto simp: sync_loop.simps[of L cfg grp glast n] split: sum.splits)
    moreover from False k have "sync_chunk L cfg grp n (chunk_to n glast) st s1 = (False, st2, s2)" by simp
    from sync_chunk_less[OF this] have "input_left s2 < input_left s" using on_db_conn[OF c] by simp
    ultimately show ?thesis using less.hyps q2 by blast
  qed
qed

lemma syncGroup_keeps: "syncGroup L cfg lease grp d = (r, d', e) \<Longrightarrow> Q d \<Longrightarrow> Q d'"
  by (auto simp: syncGroup_def Let_def split: option.splits prod.splits sum.splits if_splits
      dest!: on_conn_sdb elim!: on_dbE dest: reads_keep)
    (erule sync_loop_keeps, simp, erule (1) reads_keep)

lemma run_groups_keep: "Q d \<Longrightarrow> Q (run_groups L cfg leases grps d)"
proof (induction grps arbitrary: d)
  case (Cons grp grps)
  obtain r d1 e where g: "syncGroup L cfg (leases grp) grp d = (r, d1, e)" by (metis prod_cases3)
  with Cons.IH[OF syncGroup_keeps[OF g Cons.prems]] show ?case by simp
qed simp

lemma run_keeps: "Q d \<Longrightarrow> Q (run L cfg leases d)"
  unfolding run_def by (rule run_groups_keep)

lemma Engine_Start_keeps: "Q d \<Longrightarrow> Q (Engine_Start L cfg ticks d)"
  by (induction ticks arbitrary: d) (auto intro: run_keeps)

lemma start_groups_keeps:
  "(\<And>grp d e d'. work grp d = (e, d') \<Longrightarrow> Q d \<Longrightarrow> Q d') \<Longrightarrow> Q d \<Longrightarrow> Q (start_groups work grps d)"
  by (induction grps arbitrary: d) (auto, metis prod.collapse)

lemma sweep_position_keeps: "sweep_position grp d = (r, d') \<Longrightarrow> Q d \<Longrightarrow> Q d'"
  by (auto simp: sweep_position_def Let_def split: prod.splits sum.splits if_splits dest: reads_keep)

lemma sweepChunk_keeps:
  assumes "sweepChunk L cfg lease grp d = (r, st, d', e)" "Q d"
  shows "Q d'"
proof -
  obtain r0 d0 where p: "sweep_position grp d = (r0, d0)" by fastforce
  note q0 = sweep_position_keeps[OF p assms(2)]
  show ?thesis using assms(1) p q0
    by (auto simp: sweepChunk_def Let_def split: option.splits prod.splits sum.splits if_splits
      dest!: on_conn_sdb elim!: on_dbE dest: applyModeration_keeps) (metis applyModeration_keeps writes_keep(2))+
qed

lemma sweepGroup_keeps: "sweepGroup L cfg grp leases n d = (e, d') \<Longrightarrow> Q d \<Longrightarrow> Q d'"
proof (induction leases arbitrary: n d)
  case (Cons lease leases)
  obtain r d1 where c: "ctx_Err d = (r, d1)" by fastforce
  note q1 = ctx_keeps[OF c Cons.prems(2)]
  obtain x st d2 l where k: "sweepChunk L cfg lease grp d1 = (x, st, d2, l)" by (metis prod_cases4)
  note q2 = sweepChunk_keeps[OF k q1]
  have "d' = d1 \<or> d' = d2 \<or> (\<exists>m. sweepGroup L cfg grp leases m d2 = (e, d'))"
    using Cons.prems(1) c k by (auto split: sum.splits if_splits bool.splits)
  with Cons.IH q1 q2 show ?case by blast
qed simp

lemma DisposeSweep_Start_keeps: "Q d \<Longrightarrow> Q (DisposeSweep_Start L cfg leases d)"
  unfolding DisposeSweep_Start_def by (auto intro: start_groups_keeps sweepGroup_keeps)

lemma refresh_keeps: "refreshSpotterLists F cfg d = (r, d') \<Longrightarrow> Q d \<Longrightarrow> Q d'"
proof -
  have "refresh_loop F ls d = (r, d') \<Longrightarrow> Q d \<Longrightarrow> Q d'" for ls
  proof (induction ls arbitrary: d)
    case (Cons l ls)
    then show ?case
      by (cases l) (auto split: if_splits option.splits prod.splits sum.splits dest: writes_keep)
  qed simp
  then show "refreshSpotterLists F cfg d = (r, d') \<Longrightarrow> Q d \<Longrightarrow> Q d'" unfolding refreshSpotterLists_def .
qed

lemma applyBlacklist_keeps: "applyBlacklist d = (r, d') \<Longrightarrow> Q d \<Longrightarrow> Q d'"
  by (auto simp: applyBlacklist_def split: prod.splits sum.splits if_splits dest: reads_keep)
    (meson reads_keep writes_keep)+

lemma evictCache_keeps: "evictCache cfg d = (r, d') \<Longrightarrow> Q d \<Longrightarrow> Q d'"
  by (auto simp: evictCache_def split: prod.splits sum.splits if_splits dest: CacheBytes_keeps)
    (meson CacheBytes_keeps[OF surjective_pairing] CacheBytes_keeps writes_keep)+

end

text \<open>With pruning, and with the backfill's watermark.\<close>

locale maintained_invariant = engine_invariant L cfg Q
  for L :: lib and cfg :: "'f Config" and Q :: "database \<Rightarrow> bool" +
  assumes prune_keeps: "PruneModeratedRing t d = (n, d') \<Longrightarrow> Q d \<Longrightarrow> Q d'"
begin

lemma applyRetention_keeps: "applyRetention F cfg d = (r, d') \<Longrightarrow> Q d \<Longrightarrow> Q d'"
  by (auto simp: applyRetention_def Let_def split: if_splits prod.splits sum.splits dest: writes_keep)
    (meson writes_keep prune_keeps[OF surjective_pairing])+

lemma runOnce_keeps: "Q d \<Longrightarrow> Q (runOnce F cfg d)"
  unfolding runOnce_def Let_def
  by (rule evictCache_keeps[OF prod.collapse[symmetric]], rule applyRetention_keeps[OF prod.collapse[symmetric]],
      rule applyBlacklist_keeps[OF prod.collapse[symmetric]], rule refresh_keeps[OF prod.collapse[symmetric]])

lemma Maintainer_Start_keeps: "Q d \<Longrightarrow> Q (Maintainer_Start cfg ticks d)"
  by (induction ticks arbitrary: d) (simp_all add: runOnce_keeps)

end

locale backfilled_invariant = engine_invariant L cfg Q
  for L :: lib and cfg :: "'f Config" and Q :: "database \<Rightarrow> bool" +
  assumes backfill_keeps: "SetBackfillState grp n d = (u, d') \<Longrightarrow> Q d \<Longrightarrow> Q d'"
begin

lemma ingest_keeps: "ingest L cfg articles s = (r, s') \<Longrightarrow> Q (sdb s) \<Longrightarrow> Q (sdb s')"
  by (auto simp: ingest_def split: if_splits prod.splits sum.splits elim!: on_dbE
      dest: InsertSpots_keeps dest!: ingest_scan_ingested)

lemma backfillChunk_keeps: "backfillChunk L cfg lease grp d = (r, d', e) \<Longrightarrow> Q d \<Longrightarrow> Q d'"
  by (auto simp: backfillChunk_def Let_def split: option.splits prod.splits sum.splits if_splits
      dest!: on_conn_sdb elim!: on_dbE dest: reads_keep)
    (metis ingest_keeps backfill_keeps reads_keep(4))+

lemma backfillGroup_keeps: "backfillGroup L cfg grp leases d = (e, d') \<Longrightarrow> Q d \<Longrightarrow> Q d'"
proof (induction leases arbitrary: d)
  case (Cons lease leases)
  obtain r d1 where c: "ctx_Err d = (r, d1)" by fastforce
  note q1 = ctx_keeps[OF c Cons.prems(2)]
  obtain x d2 l where k: "backfillChunk L cfg lease grp d1 = (x, d2, l)" by (metis prod_cases3)
  note q2 = backfillChunk_keeps[OF k q1]
  have "d' = d1 \<or> d' = d2 \<or> backfillGroup L cfg grp leases d2 = (e, d')"
    using Cons.prems(1) c k by (auto split: sum.splits if_splits bool.splits)
  with Cons.IH q1 q2 show ?case by blast
qed simp

lemma Backfill_Start_keeps: "Q d \<Longrightarrow> Q (Backfill_Start L cfg leases d)"
  unfolding Backfill_Start_def by (auto intro: start_groups_keeps backfillGroup_keeps)

end

section \<open>The engine refines the store\<close>

text \<open>A step of the running program on the database: a store operation of any worker or request handler
  with only ingested spots inserted, a move of the backfill watermark, or pruning of the ring.\<close>

inductive work_step :: "lib \<Rightarrow> 'f Config \<Rightarrow> database \<Rightarrow> database \<Rightarrow> bool" for L cfg where
  store: "store_step (ingested L cfg) d d' \<Longrightarrow> work_step L cfg d d'"
| watermark: "SetBackfillState grp n d = (u, d') \<Longrightarrow> work_step L cfg d d'"
| prune: "PruneModeratedRing t d = (n, d') \<Longrightarrow> work_step L cfg d d'"

lemma work_db_step: "work_step L cfg d d' \<Longrightarrow> db_step d d'"
  by (cases rule: work_step.cases)
    (auto intro: db_step.intros keep_step.intros store_step_mono ingested_flag)

lemma work_db_steps: "(work_step L cfg)\<^sup>*\<^sup>* d d' \<Longrightarrow> db_step\<^sup>*\<^sup>* d d'"
  by (induction rule: rtranclp_induct) (auto intro: rtranclp.rtrancl_into_rtrancl work_db_step)

interpretation forward: engine_invariant L cfg "\<lambda>d. (store_step (ingested L cfg))\<^sup>*\<^sup>* d0 d" for L cfg d0
  by unfold_locales (rule rtranclp.rtrancl_into_rtrancl)

interpretation maintained: maintained_invariant L cfg "\<lambda>d. (work_step L cfg)\<^sup>*\<^sup>* d0 d" for L cfg d0
  by unfold_locales (auto intro: rtranclp.rtrancl_into_rtrancl work_step.intros)

interpretation backfilled: backfilled_invariant L cfg "\<lambda>d. (work_step L cfg)\<^sup>*\<^sup>* d0 d" for L cfg d0
  by unfold_locales (auto intro: rtranclp.rtrancl_into_rtrancl work_step.intros)

text \<open>C1: The engine refines the store. Whatever the provider answers, whatever statements fail and however
  the configuration is set, the forward sync and the withdrawal sweep act on the database only through
  sequences of store operations that insert nothing but parsed, non-control articles with a valid
  message-id (and a verified header where signatures are required); the backfill adds moves of its
  watermark, maintenance adds pruning of the moderation ring.\<close>

theorem engine_refines_store:
  "(store_step (ingested L cfg))\<^sup>*\<^sup>* d (Engine_Start L cfg ticks d)
   \<and> (store_step (ingested L cfg))\<^sup>*\<^sup>* d (DisposeSweep_Start L cfg leases d)
   \<and> (work_step L cfg)\<^sup>*\<^sup>* d (Backfill_Start L cfg leases d)
   \<and> (work_step L cfg)\<^sup>*\<^sup>* d (Maintainer_Start cfg feeds d)"
  using forward.Engine_Start_keeps forward.DisposeSweep_Start_keeps backfilled.Backfill_Start_keeps
    maintained.Maintainer_Start_keeps by blast

section \<open>What is indexed\<close>

definition row_safe :: "spot_row \<Rightarrow> bool" where
  "row_safe r \<longleftrightarrow> ValidMessageID (r_message_id r) \<and> \<not> snd (LooksLikeModerationCommand (r_title r))"

definition spot_safe :: "Spot \<Rightarrow> bool" where
  "spot_safe s \<longleftrightarrow> ValidMessageID (sp_MessageID s) \<and> \<not> snd (LooksLikeModerationCommand (sp_Title s))"

lemma dispose_of_looks: "snd (dispose_of s) = snd (LooksLikeModerationCommand (sp_Title s))"
  by (auto simp: dispose_of_def ParseDispose_def Let_def split: prod.splits)

lemma ingested_safe: "ingested L cfg s \<Longrightarrow> spot_safe s"
  by (simp add: ingested_def spot_safe_def dispose_of_looks)

interpretation safe_rows: statement_invariant "\<lambda>d. \<forall>r\<in>set (spots d). row_safe r" spot_safe
  by unfold_locales
    (auto simp: row_safe_def spot_safe_def insert_ignore_def delete_spots_def update_spots_def Let_def mark_id_def
       enrich_row_def row_of_spot_def dest!: ring_add_tables split: if_splits)

lemma work_step_safe: "work_step L cfg d d' \<Longrightarrow> \<forall>r\<in>set (spots d). row_safe r \<Longrightarrow> \<forall>r\<in>set (spots d'). row_safe r"
proof (induction rule: work_step.induct)
  case (store d d')
  have "store_step spot_safe d d'" using store_step_mono[OF store(1)] ingested_safe by blast
  from safe_rows.store_step_keeps[OF this] store(2) show ?case by blast
next
  case (watermark grp n d u d')
  then show ?case
    unfolding SetBackfillState_def by (elim safe_rows.exec_keeps[rotated]) auto
next
  case (prune t d n d')
  then show ?case
    unfolding PruneModeratedRing_def by (elim safe_rows.exec_keeps[rotated]) (auto simp: Let_def)
qed

interpretation safe_index: invariant fresh_db "work_step L cfg" "\<lambda>d. \<forall>r\<in>set (spots d). row_safe r" for L cfg
  by unfold_locales (auto simp: fresh_db_def dest: work_step_safe)

section \<open>A small article for the examples\<close>

definition demo_article :: ArticleInfo where
  "demo_article = \<lparr>ai_ArticleNum = 41, ai_Subject = ''T'', ai_From = ''B<@17.9.9.1000000000.a.b>'',
     ai_Date = zero_time, ai_MessageID = ''<m@x>'', ai_References = [], ai_Bytes = 9, ai_Lines = 1\<rparr>"

definition demo_lib :: lib where
  "demo_lib = \<lparr>lib_time_parse = (\<lambda>_ _. None), lib_xml_user_key = (\<lambda>_. None),
     lib_clock = (\<lambda>_. unix_time 1500000000)\<rparr>"

definition demo_indexed :: Spot where
  "demo_indexed = build_spot demo_article [''17'', ''9'', ''9'', ''1000000000'', ''a'', ''b'']
     ''17.9.9.1000000000.a.b'' [] ''B'' 0 7 (unix_time 1000000000)"

lemma demo_numbers: "parse_int ''1000000000'' = (1000000000, None)"
  by (simp add: parse_int_def is_digit_def digit_val_def Let_def parse_uint_def parse_uint_from_digits
      max_int64_def max_uint64_def)

lemma demo_trims: "trim_space ''B'' = ''B''" "trim_space ''1000000000'' = ''1000000000''" "trim_space ''T'' = ''T''"
  by (simp_all add: trim_space_id is_ascii_def ascii_space_def)

lemma demo_subject: "parseSubject ''T'' False = (''T'', [])"
  by (simp add: parseSubject_def go_contains_def split_on_no_sep demo_trims unescapePipe_def replace_all_miss)

lemma demo_posted:
  "resolvePostedAt (unix_time 1500000000) ''1000000000'' zero_time = Some (unix_time 1000000000)"
  by (simp add: resolvePostedAt_def demo_numbers demo_trims plausibleSpotTime_def spotnetEpoch_def maxClockSkew_def
      unix_time_def zero_time_def hour_def minute_def second_def)

lemma demo_from: "split_from (ai_From demo_article) = Inr (''B'', [], ''17.9.9.1000000000.a.b'')"
  by code_simp

lemma demo_fields:
  "split_on (CHR ''.'') ''17.9.9.1000000000.a.b'' = [''17'', ''9'', ''9'', ''1000000000'', ''a'', ''b'']"
  by code_simp

lemma demo_parsed: "ParseFromOverview (lib_clock demo_lib demo_article) demo_article = Inr (demo_indexed, False)"
proof -
  have "VerifyHeader t h p s 7 = False" for t h p s by (simp add: VerifyHeader_def MasterKeys_def)
  then show ?thesis unfolding ParseFromOverview_def demo_from
    by (simp add: Let_def demo_fields demo_trims demo_posted byte_digit_def demo_subject demo_lib_def
        demo_indexed_def demo_article_def)
qed

lemma demo_indexed_fields: "sp_Title demo_indexed = ''T''" "sp_MessageID demo_indexed = ''<m@x>''"
proof -
  have "DecodeHeaderText ''T'' = ''T''" by code_simp
  then show "sp_Title demo_indexed = ''T''" "sp_MessageID demo_indexed = ''<m@x>''"
    by (simp_all add: demo_indexed_def build_spot_def Let_def demo_article_def demo_subject split: prod.splits)
qed

lemma demo_ingested: "\<not> VerifySignatures cfg \<Longrightarrow> ingested demo_lib cfg demo_indexed"
proof -
  have "snd (LooksLikeModerationCommand ''T'') = False"
    by (simp add: LooksLikeModerationCommand_def go_fields_def fields_aux.simps is_ascii_def ascii_space_def)
  moreover have "ValidMessageID ''<m@x>''" by code_simp
  moreover assume "\<not> VerifySignatures cfg"
  ultimately show ?thesis
    using demo_parsed by (auto simp: ingested_def dispose_of_looks demo_indexed_fields)
qed

definition demo_cfg :: "int Config" where "demo_cfg = base_config demo_std demo_env"

lemma demo_cfg_simps: "\<not> VerifySignatures demo_cfg" "ModerationMode demo_cfg = ModerationOff" "SyncLookback demo_cfg = 500000"
  by (simp_all add: demo_cfg_def base_config_def envBool_def envOr_def envInt_def demo_env_def ModerationOff_def
      to_lower_ascii is_ascii_def lower_char_def)

section \<open>What a running program has indexed\<close>

text \<open>C2: In every database the running program can reach from an empty one, by any interleaving of its workers
  and handlers, every indexed spot has a message-id that is safe to write into an NNTP command, and no
  indexed spot is a withdrawal command; the consistency of the tables holds as well.\<close>

theorem index_holds_only_safe_spots:
  assumes "fresh_db d0" and "(work_step L cfg)\<^sup>*\<^sup>* d0 d"
  shows "(\<forall>r\<in>set (spots d). ValidMessageID (r_message_id r) \<and> \<not> snd (LooksLikeModerationCommand (r_title r)))
    \<and> store_inv d"
  using safe_index.inv_reachable[OF assms] store.inv_reachable[OF assms(1) work_db_steps[OF assms(2)]]
  by (simp add: row_safe_def)

definition demo_one :: database where "demo_one = snd (InsertSpots [demo_indexed] demo_db)"

theorem index_holds_only_safe_spots_witness:
  "(work_step demo_lib demo_cfg)\<^sup>*\<^sup>* demo_db demo_one \<and> map r_message_id (spots demo_one) = [''<m@x>'']
   \<and> list_all (\<lambda>r. ValidMessageID (r_message_id r)) (spots demo_one)"
proof -
  have step: "work_step demo_lib demo_cfg demo_db demo_one"
  proof (rule work_step.store, rule store_step.insert)
    show "\<forall>s\<in>set [demo_indexed]. ingested demo_lib demo_cfg s" by (simp add: demo_ingested demo_cfg_simps)
    show "InsertSpots [demo_indexed] demo_db = (fst (InsertSpots [demo_indexed] demo_db), demo_one)"
      by (simp add: demo_one_def)
  qed
  moreover have "map r_message_id (spots demo_one) = [''<m@x>'']"
    by (simp add: demo_one_def InsertSpots_def tx_def query_def exec_def demo_db_def insert_ignore_def
        row_of_spot_def Let_def demo_indexed_fields)
  ultimately show ?thesis
    using index_holds_only_safe_spots[OF demo_fresh r_into_rtranclp[of "work_step demo_lib demo_cfg", OF step]]
    by (simp add: list_all_iff)
qed

end
