(* ===== verification/Progress.thy ===== *)
theory Progress
  imports SyncProps
begin

text \<open>
  How far the workers get: the checkpoint of the forward sync, the watermark of the backfill, and the
  connections that are handed back after a failure.
\<close>

section \<open>The forward checkpoint\<close>

lemma SetSyncState_Inr:
  "SetSyncState grp n d = (Inr u, d') \<Longrightarrow> sync_field last_article_num grp d' = n \<and> spots d' = spots d"
  unfolding SetSyncState_def by (drule exec_Inr) (auto simp: sync_field_def)

text \<open>The forward sync loses what it failed to store. When \<open>InsertSpots\<close> fails for a chunk, nothing of
  the chunk is stored, yet the chunk counts as done: the checkpoint moves to its last article, so no
  later run of the forward sync reads those articles again.\<close>

theorem failed_insert_is_never_retried:
  assumes "on_conn (Overview (lib_time_parse L) a b) s = (Inr articles, s1)" and "articles \<noteq> []"
    and "scan_articles L cfg articles [] [] (st\<lparr>ArticlesChecked := ArticlesChecked st + int (length articles)\<rparr>)
      = (ss, [], st1)"
    and "InsertSpots ss (sdb s1) = (Inl e, d2)"
    and "SetSyncState grp (ai_ArticleNum (last articles)) d2 = (Inr (), d3)"
  shows "sync_chunk L cfg grp a b st s = (False, st1, s1\<lparr>sdb := d3\<rparr>)
    \<and> spots d3 = spots (sdb s) \<and> sync_field last_article_num grp d3 = ai_ArticleNum (last articles)"
proof -
  have i: "ss \<noteq> [] \<and> spots d2 = spots (sdb s1)" using InsertSpots_Inl[OF assms(4)] by auto
  have "store_chunk ss st1 s1 = (st1, s1\<lparr>sdb := d2\<rparr>)"
    using i assms(4) by (simp add: store_chunk_def on_db_def)
  moreover have "checkpoint grp articles (s1\<lparr>sdb := d2\<rparr>) = s1\<lparr>sdb := d3\<rparr>"
    using assms(2,5) by (simp add: checkpoint_def on_db_def)
  ultimately have "sync_chunk L cfg grp a b st s = (False, st1, s1\<lparr>sdb := d3\<rparr>)"
    using assms(1,3) by (simp add: sync_chunk_def)
  moreover have "sdb s1 = sdb s" using on_conn_sdb[OF assms(1)] .
  ultimately show ?thesis using i SetSyncState_Inr[OF assms(5)] by simp
qed

definition demo_reply :: string where
  "demo_reply = ''224 ok'' @ CRLF @ overview_line demo_article [] @ CRLF @ ''.'' @ CRLF"

definition demo_conn :: conn where
  "demo_conn = \<lparr>inp = demo_reply, eof_err = EOF, out = [], werr = None, maxArticleBytes = 100\<rparr>"

lemma demo_overview_read:
  assumes "werr c = None"
  shows "\<exists>c'. Overview (lib_time_parse demo_lib) lo hi (c\<lparr>inp := demo_reply\<rparr>) = (Inr [demo_article], c')"
proof -
  let ?c = "\<lambda>i. c\<lparr>out := out c @ (''OVER '' @ (show_int lo @ ''-'' @ show_int hi)) @ CRLF, inp := i\<rparr>"
  have line: "overview_line demo_article [] = ''41'' @ [TAB] @ ''T'' @ [TAB] @ ''B<@17.9.9.1000000000.a.b>'' @ [TAB]
      @ [TAB] @ ''<m@x>'' @ [TAB] @ [TAB] @ ''9'' @ [TAB] @ ''1''"
    by (simp add: overview_line_def demo_article_def show_int_def show_nat.simps char_of_def bit_0)
  have r1: "read_string (?c demo_reply) = (''224 ok'' @ CRLF, None, ?c (overview_line demo_article [] @ CRLF @ ''.'' @ CRLF))"
    using read_string_line[of "''224 ok'' @ [CR]", where c = "?c []"] by (simp add: demo_reply_def)
  have r2: "read_string (?c (overview_line demo_article [] @ CRLF @ ''.'' @ CRLF))
      = (overview_line demo_article [] @ CRLF, None, ?c (''.'' @ CRLF))"
    using read_string_line[of "overview_line demo_article [] @ [CR]", where c = "?c []"] by (simp add: line)
  have r3: "read_string (?c (''.'' @ CRLF)) = (''.'' @ CRLF, None, ?c [])"
    using read_string_line[of "''.'' @ [CR]", where c = "?c []"] by simp
  have ok: "overview_ok demo_article"
    by (simp add: overview_ok_def demo_article_def is_int64_def min_int64_def max_int64_def)
  have p: "parse_overview_line tp (overview_line demo_article []) = Some demo_article" for tp
    unfolding parse_overview_line_overview_line[OF ok, of "[]", simplified]
    by (simp add: parseNNTPDate_def trim_space_def trim_left_by_stop Let_def demo_article_def)
  have ch: "chomp (overview_line demo_article [] @ CRLF) = overview_line demo_article []" "chomp (''.'' @ CRLF) = ''.''"
    "chomp (''224 ok'' @ CRLF) = ''224 ok''"
    by (simp_all add: line chomp_def trim_right_set_def)
  have "overview_loop (lib_time_parse demo_lib) [demo_article] (?c (''.'' @ CRLF)) = (Inr [demo_article], ?c [])"
    by (subst overview_loop.simps, subst r3, simp only: prod.case option.case ch if_P[OF refl])
  moreover have "overview_line demo_article [] \<noteq> ''.''" by (simp add: line)
  ultimately have l: "overview_loop (lib_time_parse demo_lib) [] (?c (overview_line demo_article [] @ CRLF @ ''.'' @ CRLF))
      = (Inr [demo_article], ?c [])"
    by (subst overview_loop.simps, subst r2) (simp only: prod.case option.case ch p if_False append_Nil)
  have cc: "checkCode ''224 ok'' 224 = None"
    by (simp add: checkCode_def show_nat.simps char_of_def bit_0)
  have e: "c\<lparr>inp := demo_reply\<rparr>\<lparr>out := out (c\<lparr>inp := demo_reply\<rparr>) @ (''OVER '' @ (show_int lo @ ''-'' @ show_int hi)) @ CRLF\<rparr>
      = ?c demo_reply" by (cases c) simp
  have "sendCmd (''OVER '' @ (show_int lo @ ''-'' @ show_int hi)) (c\<lparr>inp := demo_reply\<rparr>)
      = (Inr ''224 ok'', ?c (overview_line demo_article [] @ CRLF @ ''.'' @ CRLF))"
    unfolding sendCmd_def e r1 using assms by (simp add: ch[simplified])
  then show ?thesis using cc l by (simp only: Overview_def Let_def prod.case sum.case option.case) blast
qed

theorem failed_insert_is_never_retried_witness:
  "\<exists>st' s'. sync_chunk demo_lib demo_cfg ''g'' 41 41 (new_stats ''g'')
       \<lparr>sdb = demo_db\<lparr>faults := [True]\<rparr>, sconn = demo_conn, sbroken = False\<rparr> = (False, st', s')
     \<and> spots (sdb s') = [] \<and> sync_field last_article_num ''g'' (sdb s') = 41"
proof -
  let ?d = "demo_db\<lparr>faults := [True]\<rparr>"
  let ?s = "\<lparr>sdb = ?d, sconn = demo_conn, sbroken = False\<rparr>"
  obtain c where "Overview (lib_time_parse demo_lib) 41 41 demo_conn = (Inr [demo_article], c)"
    using demo_overview_read[of demo_conn 41 41] by (auto simp: demo_conn_def)
  then have o: "on_conn (Overview (lib_time_parse demo_lib) 41 41) ?s = (Inr [demo_article], ?s\<lparr>sconn := c\<rparr>)"
    by (simp add: on_conn_def)
  have "\<not> snd (dispose_of demo_indexed)" "ValidMessageID (sp_MessageID demo_indexed)"
    using demo_ingested[OF demo_cfg_simps(1)] by (simp_all add: ingested_def)
  then have sc: "scan_articles demo_lib demo_cfg [demo_article] [] [] st = ([demo_indexed], [], st)" for st
    by (cases "dispose_of demo_indexed") (simp add: demo_parsed demo_cfg_simps(1))
  have i: "InsertSpots [demo_indexed] (sdb (?s\<lparr>sconn := c\<rparr>)) = (Inl SQLError, demo_db)"
    by (simp add: InsertSpots_def tx_def query_def exec_def demo_db_def)
  obtain d3 where w: "SetSyncState ''g'' (ai_ArticleNum (last [demo_article])) demo_db = (Inr (), d3)"
    by (simp add: SetSyncState_def exec_def demo_db_def)
  from failed_insert_is_never_retried[OF o _ sc i w] show ?thesis
    by (auto simp: demo_db_def demo_article_def)
qed

section \<open>A chunk without faults\<close>

lemma exec_ok: "faults d = [] \<Longrightarrow> exec f d = (Inr (fst (f d)), snd (f d))"
  by (simp add: exec_def split: prod.splits)

lemma insert_ignore_faults: "faults (snd (insert_ignore s d)) = faults d"
  by (simp add: insert_ignore_def Let_def)

lemma insert_loop_ok: "faults d = [] \<Longrightarrow> \<exists>r d'. insert_loop n ss d = (Inr r, d') \<and> faults d' = []"
  by (induction ss arbitrary: n d) (simp_all add: exec_ok insert_ignore_faults)

lemma InsertSpots_ok:
  assumes "faults d = []"
  shows "\<exists>n d'. InsertSpots ss d = (Inr n, d') \<and> faults d' = []"
proof -
  obtain r d' where "insert_loop 0 ss d = (Inr r, d')" "faults d' = []" using insert_loop_ok[OF assms] by blast
  with assms show ?thesis by (simp add: InsertSpots_def tx_def query_def exec_ok)
qed

lemma scan_articles_off:
  "ModerationMode cfg = ModerationOff \<Longrightarrow> fst (snd (scan_articles L cfg ais ss cs st)) = cs"
  by (induction ais arbitrary: ss cs st) (auto split: sum.splits prod.splits bool.splits)

lemma InsertSpots_known:
  "InsertSpots ss d = (Inr n, d') \<Longrightarrow> known_ids d' = known_ids d \<union> sp_MessageID ` set ss"
proof -
  assume "InsertSpots ss d = (Inr n, d')"
  from InsertSpots_Inr[OF this] have k: "known_ids d' = known_ids d \<union> sp_MessageID ` set (new_spots (known_ids d) ss)"
    by (auto simp: known_ids_stored_list)
  have "set (new_spots seen ss) \<subseteq> set ss" for seen
    by (induction seen ss rule: new_spots.induct) auto
  then have "sp_MessageID ` set (new_spots (known_ids d) ss) \<subseteq> sp_MessageID ` set ss" by (rule image_mono)
  with k known_after[of ss "known_ids d"] show ?thesis by auto
qed

text \<open>What is in the tables after a chunk without faults: the rows of the new spots, and the checkpoint.\<close>

lemma sync_chunk_stores:
  assumes "faults (sdb s) = []" and "ModerationMode cfg = ModerationOff"
    and "on_conn (Overview (lib_time_parse L) a b) s = (Inr articles, s1)" and "articles \<noteq> []"
  shows "\<exists>st' s'. sync_chunk L cfg grp a b st s = (False, st', s') \<and> faults (sdb s') = []
    \<and> spots (sdb s') = spots (stored (new_spots (known_ids (sdb s)) (List.map_filter (passing L cfg) articles)) (sdb s))
    \<and> ring_ids (sdb s') = ring_ids (sdb s)
    \<and> sync_field last_article_num grp (sdb s') = ai_ArticleNum (last articles)"
proof -
  let ?st = "st\<lparr>ArticlesChecked := ArticlesChecked st + int (length articles)\<rparr>"
  obtain ss cs st1 where sc: "scan_articles L cfg articles [] [] ?st = (ss, cs, st1)" by (metis prod_cases3)
  have cs: "cs = []" using scan_articles_off[OF assms(2), where ais = articles and ss = "[]" and cs = "[]" and st = ?st and L = L] sc by simp
  have ss: "ss = List.map_filter (passing L cfg) articles" using scan_articles_passing[of L cfg articles "[]" "[]" ?st] sc by simp
  have s1: "sdb s1 = sdb s" by (rule on_conn_sdb[OF assms(3)])
  obtain st2 s2 where st: "store_chunk ss st1 s1 = (st2, s2)" by fastforce
  let ?new = "stored (new_spots (known_ids (sdb s)) ss) (sdb s)"
  have k: "spots (sdb s2) = spots ?new \<and> ring_ids (sdb s2) = ring_ids (sdb s) \<and> faults (sdb s2) = []"
  proof (cases "ss = []")
    case True
    with st s1 assms(1) show ?thesis by (simp add: store_chunk_def)
  next
    case False
    obtain n d' where i: "InsertSpots ss (sdb s1) = (Inr n, d')" "faults d' = []"
      using InsertSpots_ok assms(1) s1 by metis
    with st False InsertSpots_Inr[OF i(1)] s1 show ?thesis
      by (auto simp: store_chunk_def on_db_def stored_def ring_ids_def)
  qed
  let ?s' = "checkpoint grp articles s2"
  have c: "sync_chunk L cfg grp a b st s = (False, st2, ?s')"
    using assms(3) sc st cs by (simp add: sync_chunk_def)
  obtain d3 where w: "SetSyncState grp (ai_ArticleNum (last articles)) (sdb s2) = (Inr (), d3)"
    using k by (simp add: SetSyncState_def exec_ok)
  have nf: "faults (sdb s2) = []" using k by blast
  from w have "\<exists>x. d3 = (sdb s2)\<lparr>sync_state := x\<rparr>" unfolding SetSyncState_def exec_ok[OF nf] by auto
  then have "spots d3 = spots (sdb s2) \<and> ring_ids d3 = ring_ids (sdb s2) \<and> faults d3 = []" using nf by auto
  with w assms(4) k ss c SetSyncState_Inr[OF w] show ?thesis by (auto simp: checkpoint_def on_db_def)
qed

text \<open>C12: What one chunk of the forward sync does when nothing fails and withdrawals are off. Afterwards the
  message-ids the index knows are those it knew and those of exactly the articles of the chunk that pass
  the filter, and the checkpoint is the number of the chunk's last article.\<close>

theorem sync_chunk_indexes_the_chunk:
  assumes "faults (sdb s) = []" and "ModerationMode cfg = ModerationOff"
    and "on_conn (Overview (lib_time_parse L) a b) s = (Inr articles, s1)" and "articles \<noteq> []"
  shows "\<exists>st' s'. sync_chunk L cfg grp a b st s = (False, st', s')
    \<and> known_ids (sdb s') = known_ids (sdb s) \<union> sp_MessageID ` set (List.map_filter (passing L cfg) articles)
    \<and> sync_field last_article_num grp (sdb s') = ai_ArticleNum (last articles)"
proof -
  let ?ss = "List.map_filter (passing L cfg) articles"
  obtain st' s' where c: "sync_chunk L cfg grp a b st s = (False, st', s')"
    "spots (sdb s') = spots (stored (new_spots (known_ids (sdb s)) ?ss) (sdb s))" "ring_ids (sdb s') = ring_ids (sdb s)"
    "sync_field last_article_num grp (sdb s') = ai_ArticleNum (last articles)"
    using sync_chunk_stores[OF assms] by blast
  have "known_ids (sdb s') = known_ids (sdb s) \<union> sp_MessageID ` set ?ss"
  proof -
    obtain n d' where i: "InsertSpots ?ss (sdb s) = (Inr n, d')" using InsertSpots_ok[OF assms(1)] by blast
    obtain fs where "d' = (stored (new_spots (known_ids (sdb s)) ?ss) (sdb s))\<lparr>faults := fs\<rparr>"
      using InsertSpots_Inr[OF i] by blast
    then have "known_ids d' = known_ids (sdb s')" using c(2,3) by (simp add: known_ids_def ring_ids_def stored_def)
    with InsertSpots_known[OF i] show ?thesis by simp
  qed
  with c show ?thesis by blast
qed

theorem sync_chunk_indexes_the_chunk_witness:
  "\<exists>st' s'. sync_chunk demo_lib demo_cfg ''g'' 41 41 (new_stats ''g'')
       \<lparr>sdb = demo_db, sconn = demo_conn, sbroken = False\<rparr> = (False, st', s')
     \<and> known_ids (sdb s') = {''<m@x>''} \<and> sync_field last_article_num ''g'' (sdb s') = 41"
proof -
  let ?s = "\<lparr>sdb = demo_db, sconn = demo_conn, sbroken = False\<rparr>"
  obtain c where "Overview (lib_time_parse demo_lib) 41 41 demo_conn = (Inr [demo_article], c)"
    using demo_overview_read[of demo_conn 41 41] by (auto simp: demo_conn_def)
  then have o: "on_conn (Overview (lib_time_parse demo_lib) 41 41) ?s = (Inr [demo_article], ?s\<lparr>sconn := c\<rparr>)"
    by (simp add: on_conn_def)
  have "List.map_filter (passing demo_lib demo_cfg) [demo_article] = [demo_indexed]"
    using demo_ingested[OF demo_cfg_simps(1)]
    by (simp add: passing_def ingested_def demo_parsed demo_cfg_simps(1) List.map_filter_simps)
  moreover have "known_ids demo_db = {}" "ai_ArticleNum demo_article = 41" "faults demo_db = []"
    by (simp_all add: known_ids_def ring_ids_def demo_db_def demo_article_def)
  ultimately show ?thesis
    using sync_chunk_indexes_the_chunk[OF _ demo_cfg_simps(2) o, of "''g''" "new_stats ''g''"]
    by (simp add: demo_indexed_fields del: sync_chunk_def)
qed

section \<open>The backfill watermark\<close>

text \<open>A step of a program whose backfill is the code's.\<close>

inductive program_step :: "lib \<Rightarrow> 'f Config \<Rightarrow> database \<Rightarrow> database \<Rightarrow> bool" for L cfg where
  store: "store_step (ingested L cfg) d d' \<Longrightarrow> program_step L cfg d d'"
| prune: "PruneModeratedRing t d = (n, d') \<Longrightarrow> program_step L cfg d d'"
| backfill: "backfillChunk L cfg lease grp d = (r, d', e) \<Longrightarrow> program_step L cfg d d'"

definition no_watermark :: "database \<Rightarrow> bool" where
  "no_watermark d \<longleftrightarrow> (\<forall>grp. sync_field backfill_article_num grp d = 0)"

lemma sync_field_env [simp]:
  "sync_field f grp (d\<lparr>faults := fs\<rparr>) = sync_field f grp d" "sync_field f grp (d\<lparr>ctx_errs := es\<rparr>) = sync_field f grp d"
  "sync_field f grp (d\<lparr>clock := t\<rparr>) = sync_field f grp d" "sync_field f grp (d\<lparr>nzbs := bs\<rparr>) = sync_field f grp d"
  "sync_field f grp (d\<lparr>images := bs\<rparr>) = sync_field f grp d" "sync_field f grp (d\<lparr>spotter_lists := ls\<rparr>) = sync_field f grp d"
  "sync_field f grp (d\<lparr>moderated_ring := ms\<rparr>) = sync_field f grp d"
  by (simp_all add: sync_field_def)

lemma sync_state_statements:
  "insert_ignore s d = (n, d') \<Longrightarrow> sync_state d' = sync_state d"
  "delete_spots P d = (n, d') \<Longrightarrow> sync_state d' = sync_state d"
  "update_spots b P f d = (n, d') \<Longrightarrow> sync_state d' = sync_state d"
  "ring_add i d = (u, d') \<Longrightarrow> sync_state d' = sync_state d"
  by (auto simp: insert_ignore_def delete_spots_def update_spots_def ring_add_def Let_def split: if_splits)

interpretation unstarted: statement_invariant no_watermark "\<lambda>_. True"
proof
  fix d d1 d' :: database and i u fs n
  assume "no_watermark d" "ring_add i d = (u, d1)" "mark_id i (d1\<lparr>faults := fs\<rparr>) = (n, d')"
  then show "no_watermark d'"
    using sync_state_statements(4)[of i d u d1] sync_state_statements(3)[of False _ _ "d1\<lparr>faults := fs\<rparr>" n d']
    by (simp add: no_watermark_def sync_field_def mark_id_def)
qed (auto simp: no_watermark_def sync_field_def dest: sync_state_statements)

lemma backfillChunk_unstarted:
  assumes "no_watermark d" "backfillChunk L cfg lease grp d = (r, d', e)"
  shows "(r = Inr True \<or> (\<exists>err. r = Inl err)) \<and> (\<exists>fs. d' = d\<lparr>faults := fs\<rparr>)"
proof (cases lease)
  case None
  then show ?thesis using assms(2) by (auto simp: backfillChunk_def intro: exI[of _ "faults d"])
next
  case (Some c)
  obtain g s1 where o: "on_conn (SelectGroup grp) \<lparr>sdb = d, sconn = c, sbroken = False\<rparr> = (g, s1)" by fastforce
  have s1: "sdb s1 = d" using on_conn_sdb[OF o] by simp
  obtain n s2 where b: "on_db (GetBackfillState grp) s1 = (n, s2)" by fastforce
  then obtain d2 where q: "GetBackfillState grp d = (n, d2)" and s2: "s2 = s1\<lparr>sdb := d2\<rparr>"
    using s1 by (auto elim: on_dbE)
  obtain fs where d2: "d2 = d\<lparr>faults := fs\<rparr>" using query_same q unfolding GetBackfillState_def by blast
  have z: "n = Inr k \<Longrightarrow> k = 0" for k
    using q assms(1) unfolding GetBackfillState_def by (auto dest!: query_Inr simp: no_watermark_def)
  show ?thesis
    using assms(2) Some o b s1 s2 d2 z
    by (auto simp: backfillChunk_def split: sum.splits intro: exI[of _ "faults d"])
qed

lemma program_step_unstarted: "program_step L cfg d d' \<Longrightarrow> no_watermark d \<Longrightarrow> no_watermark d'"
proof (induction rule: program_step.induct)
  case (store d d')
  then show ?case using unstarted.store_step_keeps store_step_mono by (metis (mono_tags))
next
  case (prune t d n d')
  then show ?case unfolding PruneModeratedRing_def
    by (elim unstarted.exec_keeps[rotated]) (auto simp: no_watermark_def Let_def)
next
  case (backfill lease grp d r d' e)
  then show ?case using backfillChunk_unstarted[OF backfill(2,1)] by (auto simp: no_watermark_def)
qed

interpretation unstarted_program: invariant fresh_db "program_step L cfg" no_watermark for L cfg
  by unfold_locales (auto simp: fresh_db_def no_watermark_def sync_field_def dest: program_step_unstarted)

text \<open>On an installation that starts from an empty database the backfill never begins. Whatever the
  program does and however long it runs, a backfill chunk stores nothing: it reports that history is
  complete (or that the connection or a statement failed). Nothing but the backfill itself moves its
  watermark, which starts at zero, and at zero it stops.\<close>

theorem fresh_install_never_backfills:
  assumes "fresh_db d0" and "(program_step L cfg)\<^sup>*\<^sup>* d0 d" and "backfillChunk L cfg lease grp d = (r, d', e)"
  shows "(r = Inr True \<or> (\<exists>err. r = Inl err)) \<and> spots d' = spots d
    \<and> sync_field backfill_article_num grp d' = 0"
proof -
  have n: "no_watermark d" by (rule unstarted_program.inv_reachable[OF assms(1,2)])
  from backfillChunk_unstarted[OF n assms(3)] n show ?thesis by (auto simp: no_watermark_def)
qed

theorem fresh_install_never_backfills_witness:
  "\<exists>r d' e. backfillChunk demo_lib demo_cfg (Some demo_conn) ''g'' demo_one = (r, d', e)
     \<and> map r_message_id (spots d') = [''<m@x>''] \<and> sync_field backfill_article_num ''g'' d' = 0"
proof -
  have step: "program_step demo_lib demo_cfg demo_db demo_one"
  proof (rule program_step.store, rule store_step.insert)
    show "\<forall>s\<in>set [demo_indexed]. ingested demo_lib demo_cfg s" by (simp add: demo_ingested demo_cfg_simps)
    show "InsertSpots [demo_indexed] demo_db = (fst (InsertSpots [demo_indexed] demo_db), demo_one)"
      by (simp add: demo_one_def)
  qed
  have one: "map r_message_id (spots demo_one) = [''<m@x>'']"
    by (simp add: demo_one_def InsertSpots_def tx_def query_def exec_def demo_db_def insert_ignore_def
        row_of_spot_def Let_def demo_indexed_fields)
  obtain r d' e where b: "backfillChunk demo_lib demo_cfg (Some demo_conn) ''g'' demo_one = (r, d', e)"
    by (metis prod_cases3)
  from fresh_install_never_backfills[OF demo_fresh r_into_rtranclp[of "program_step demo_lib demo_cfg", OF step] b]
    b one show ?thesis by auto
qed


text \<open>A group of the articles 41 to 90 with the watermark at 50: the chunk covers 41 to 49 and is the last one.\<close>

definition demo_marked :: database where
  "demo_marked = demo_db\<lparr>sync_state := [''g'' \<mapsto> empty_sync_row\<lparr>backfill_article_num := 50\<rparr>]\<rparr>"

lemma fields_aux_ascii:
  "fields_aux cur [] = (if cur = [] then [] else [cur])"
  "is_ascii c \<Longrightarrow> \<not> ascii_space c \<Longrightarrow> fields_aux cur (c # s) = fields_aux (cur @ [c]) s"
  "fields_aux cur (CHR '' '' # s) = (if cur = [] then [] else [cur]) @ fields_aux [] s"
  by (simp_all add: fields_aux.simps[of cur] space_len.simps(2)[of "CHR '' ''"] ascii_space_def[of "CHR '' ''"])

lemma demo_group: "\<exists>c gi. SelectGroup ''g'' (demo_conn\<lparr>inp := ''211 1 41 90 g'' @ CRLF @ demo_reply\<rparr>) = (Inr gi, c)
   \<and> gi_First gi = 41 \<and> (\<exists>c0. c = c0\<lparr>inp := demo_reply\<rparr> \<and> werr c0 = None)"
proof -
  let ?c = "demo_conn\<lparr>out := ''GROUP g'' @ CRLF\<rparr>"
  have "read_string (?c\<lparr>inp := ''211 1 41 90 g'' @ CRLF @ demo_reply\<rparr>) = (''211 1 41 90 g'' @ CRLF, None, ?c\<lparr>inp := demo_reply\<rparr>)"
    using read_string_line[of "''211 1 41 90 g'' @ [CR]", where c = ?c] by simp
  moreover have "chomp (''211 1 41 90 g'' @ CRLF) = ''211 1 41 90 g''" by (simp add: chomp_def trim_right_set_def)
  ultimately have "sendCmd (''GROUP '' @ ''g'') (demo_conn\<lparr>inp := ''211 1 41 90 g'' @ CRLF @ demo_reply\<rparr>)
      = (Inr ''211 1 41 90 g'', ?c\<lparr>inp := demo_reply\<rparr>)"
    by (simp add: sendCmd_def demo_conn_def)
  moreover have "checkCode ''211 1 41 90 g'' 211 = None"
    by (simp add: checkCode_def show_nat.simps char_of_def bit_0)
  moreover have "go_fields ''211 1 41 90 g'' = [''211'', ''1'', ''41'', ''90'', ''g'']"
    by (simp add: go_fields_def fields_aux_ascii is_ascii_def ascii_space_def)
  moreover have "fst (parse_int ''41'') = 41"
    by (simp add: parse_int_def is_digit_def digit_val_def Let_def parse_uint_def parse_uint_from_digits
      max_int64_def max_uint64_def)
  ultimately have "SelectGroup ''g'' (demo_conn\<lparr>inp := ''211 1 41 90 g'' @ CRLF @ demo_reply\<rparr>)
      = (Inr \<lparr>gi_Name = ''g'', gi_Count = fst (parse_int ''1''), gi_First = 41, gi_Last = fst (parse_int ''90'')\<rparr>,
         ?c\<lparr>inp := demo_reply\<rparr>)"
    by (simp add: SelectGroup_def Let_def)
  moreover have "werr ?c = None" by (simp add: demo_conn_def)
  ultimately show ?thesis
    by (intro exI[of _ "?c\<lparr>inp := demo_reply\<rparr>"] exI[of _ "\<lparr>gi_Name = ''g'', gi_Count = fst (parse_int ''1''),
      gi_First = 41, gi_Last = fst (parse_int ''90'')\<rparr>"] conjI exI[of _ ?c]) simp_all
qed


end
