(* ===== verification/Authority.thy ===== *)
theory Authority
  imports SyncProps
begin

text \<open>
  Who may withdraw a spot: what a batch of withdrawals can do to the database. The moderation module says
  when one request may be applied to one spot; here the loop over a batch, with its owner lookups on the
  wire and its two modes, is shown to hide or delete nothing beyond that.
\<close>

section \<open>Authority\<close>

text \<open>The owner a spot's own article names.\<close>

definition learned_owner :: "lib \<Rightarrow> string \<Rightarrow> string \<Rightarrow> bool" where
  "learned_owner L i ow \<longleftrightarrow>
     (\<exists>c c' hdrs key. Head i c = (Inr hdrs, c')
        \<and> ParseUserKey (lib_xml_user_key L) (header_get hdrs ''x-user-key'') = Some key
        \<and> ow = SpotterID (Modulus key))"

definition owner_of :: "lib \<Rightarrow> spot_row \<Rightarrow> string \<Rightarrow> bool" where
  "owner_of L r ow \<longleftrightarrow> ow = r_spotter_id r \<or> (r_spotter_id r = [] \<and> learned_owner L (r_message_id r) ow)"

definition row_withdrawable :: "lib \<Rightarrow> ModerationCommand \<Rightarrow> spot_row \<Rightarrow> bool" where
  "row_withdrawable L cmd r \<longleftrightarrow>
     mc_Verified cmd \<and> TargetID cmd = r_message_id r \<and>
     (Moderator cmd \<or> (\<exists>ow. ow \<noteq> [] \<and> owner_of L r ow \<and> ValidateDispose cmd ow (unix_time (r_posted_at r))))"

definition owner_update :: "lib \<Rightarrow> spot_row \<Rightarrow> spot_row \<Rightarrow> bool" where
  "owner_update L r r' \<longleftrightarrow> (\<exists>ow v. r' = r\<lparr>r_spotter_id := ow, r_verified := v\<rparr> \<and> owner_of L r ow)"

definition owners_only :: "lib \<Rightarrow> database \<Rightarrow> database \<Rightarrow> bool" where
  "owners_only L d d' \<longleftrightarrow> list_all2 (owner_update L) (spots d) (spots d') \<and> moderated_ring d' = moderated_ring d"

lemma owner_update_refl: "owner_update L r r"
  unfolding owner_update_def owner_of_def by (intro exI[of _ "r_spotter_id r"] exI[of _ "r_verified r"]) simp

lemma owners_only_refl: "owners_only L d d"
  by (simp add: owners_only_def list.rel_refl owner_update_refl)

lemma owners_only_faults: "owners_only L d d' \<Longrightarrow> owners_only L d (d'\<lparr>faults := fs\<rparr>)"
  by (simp add: owners_only_def)

lemma owner_update_ids: "owner_update L r r' \<Longrightarrow>
   r_message_id r' = r_message_id r \<and> r_moderated r' = r_moderated r \<and> r_posted_at r' = r_posted_at r \<and> r_id r' = r_id r"
  by (auto simp: owner_update_def)

lemma owner_update_owner: "owner_update L r r' \<Longrightarrow> owner_of L r (r_spotter_id r')"
  by (auto simp: owner_update_def)

lemma owners_only_ids:
  assumes "owners_only L d d'"
  shows "map r_message_id (spots d') = map r_message_id (spots d)"
proof -
  have "list_all2 (\<lambda>r r'. r_message_id r = r_message_id r') (spots d) (spots d')"
    using assms unfolding owners_only_def by (auto elim!: list.rel_mono_strong dest: owner_update_ids)
  then show ?thesis by (simp add: list_all2_conv_all_nth list_eq_iff_nth_eq)
qed

lemma owners_onlyD:
  assumes "owners_only L d d'" "r' \<in> set (spots d')"
  obtains r where "r \<in> set (spots d)" "owner_update L r r'"
proof -
  from assms(2) obtain k where k: "k < length (spots d')" "r' = spots d' ! k" by (auto simp: in_set_conv_nth)
  with assms(1) have "k < length (spots d)" "owner_update L (spots d ! k) r'"
    by (auto simp: owners_only_def list_all2_conv_all_nth)
  then show thesis using that nth_mem by blast
qed

text \<open>Writing the owner of a spot that has none.\<close>

lemma set_owner_only:
  assumes "owners_only L d d1" "distinct (map r_message_id (spots d))"
    and "r1 \<in> set (spots d1)" "r_message_id r1 = i" "r_spotter_id r1 = []" "learned_owner L i ow"
    and "SetSpotOwner i ow v d1 = (res, d2)"
  shows "owners_only L d d2"
proof -
  have dist: "distinct (map r_message_id (spots d1))" using owners_only_ids[OF assms(1)] assms(2) by simp
  let ?f = "\<lambda>r. if r_message_id r = i then r\<lparr>r_spotter_id := ow, r_verified := v\<rparr> else r"
  have "owner_update L r (?f r')" if "owner_update L r r'" "r' \<in> set (spots d1)" for r r'
  proof (cases "r_message_id r' = i")
    case True
    then have "r' = r1" using dist that(2) assms(3,4) by (auto simp: distinct_map inj_on_def)
    then have "r_spotter_id r = []" using that(1) assms(5) by (auto simp: owner_update_def owner_of_def learned_owner_def)
    moreover have "r_message_id r = i" using owner_update_ids[OF that(1)] True by simp
    ultimately have "owner_of L r ow" using assms(6) by (simp add: owner_of_def)
    moreover from that(1) obtain o2 v2 where "r' = r\<lparr>r_spotter_id := o2, r_verified := v2\<rparr>" by (auto simp: owner_update_def)
    ultimately show ?thesis using True unfolding owner_update_def by (intro exI[of _ ow] exI[of _ v]) simp
  qed (use that in simp)
  then have "list_all2 (owner_update L) (spots d) (map ?f (spots d1))"
    using assms(1) unfolding owners_only_def list_all2_conv_all_nth by simp
  with assms(1,7) show ?thesis
    unfolding SetSpotOwner_def
    by (auto dest!: exec_cases simp: owners_only_def update_spots_def Let_def)
qed

section \<open>The loop over a batch\<close>

lemma DisposeTarget_Inr:
  "DisposeTarget i d = (Inr t, d') \<Longrightarrow>
   (\<exists>fs. d' = d\<lparr>faults := fs\<rparr>) \<and> (t = None \<or> (\<exists>r\<in>set (spots d). r_message_id r = i \<and> t = Some (target_info r)))"
  unfolding DisposeTarget_def
  by (auto dest!: query_Inr split: option.splits) (metis (mono_tags, lifting) find_Some_iff nth_mem option.exhaust)

lemma lookupOwner_only:
  assumes "owners_only L d (sdb s)" "distinct (map r_message_id (spots d))"
    and "r1 \<in> set (spots (sdb s))" "r_message_id r1 = i" "r_spotter_id r1 = []"
    and "lookupOwner L i s = (res, s')"
  shows "owners_only L d (sdb s') \<and> (\<forall>ow. res = Inr ow \<longrightarrow> ow = [] \<or> learned_owner L i ow)"
proof -
  obtain h s1 where h: "on_conn (Head i) s = (h, s1)" by fastforce
  note s1 = on_conn_sdb[OF h]
  show ?thesis
  proof (cases "\<exists>hdrs key. h = Inr hdrs \<and> ParseUserKey (lib_xml_user_key L) (header_get hdrs ''x-user-key'') = Some key")
    case True
    then obtain hdrs key where k: "h = Inr hdrs"
      "ParseUserKey (lib_xml_user_key L) (header_get hdrs ''x-user-key'') = Some key" by blast
    let ?ow = "SpotterID (Modulus key)"
    from h k have l: "learned_owner L i ?ow"
      unfolding learned_owner_def by (auto simp: on_conn_def split: prod.splits)
    obtain v u s2 where o: "on_db (SetSpotOwner i ?ow v) s1 = (u, s2)" "s' = s2" "res = Inr ?ow \<or> (\<exists>e. res = Inl e)"
      using assms(6) h k by (auto simp: lookupOwner_def Let_def split: prod.splits sum.splits)
    then obtain d2 where d2: "SetSpotOwner i ?ow v (sdb s1) = (u, d2)" "sdb s' = d2" by (auto elim!: on_dbE)
    from set_owner_only[OF _ assms(2) _ assms(4,5) l d2(1)] assms(1,3) s1 d2 o(3) l show ?thesis by auto
  next
    case False
    then have "sdb s' = sdb s" "res = Inr [] \<or> (\<exists>e. res = Inl e)"
      using assms(6) h s1 by (auto simp: lookupOwner_def split: sum.splits option.splits)
    with assms(1) show ?thesis by auto
  qed
qed

definition batch_allows :: "lib \<Rightarrow> database \<Rightarrow> ModerationCommand list \<Rightarrow> string \<Rightarrow> bool" where
  "batch_allows L d cmds i \<longleftrightarrow> (\<exists>cmd\<in>set cmds. \<exists>r\<in>set (spots d). r_message_id r = i \<and> row_withdrawable L cmd r)"

lemma batch_allows_Cons: "batch_allows L d cmds i \<Longrightarrow> batch_allows L d (cmd # cmds) i"
  by (auto simp: batch_allows_def)

definition entitled :: "ModerationCommand \<Rightarrow> spot_row \<Rightarrow> bool" where
  "entitled cmd r \<longleftrightarrow> Moderator cmd
     \<or> (r_spotter_id r \<noteq> [] \<and> ValidateDispose cmd (r_spotter_id r) (unix_time (r_posted_at r)))"

lemma entitled_window: "entitled cmd r \<Longrightarrow> \<not> Moderator cmd \<Longrightarrow>
   WithinDisposeWindow cmd (unix_time (r_posted_at r)) \<and> r_spotter_id r \<noteq> []
   \<and> ValidateDispose cmd (r_spotter_id r) (unix_time (r_posted_at r))"
  by (auto simp: entitled_def ValidateDispose_def split: if_splits)

text \<open>What the loop does with a command whose target is in the table.\<close>

lemma withdraw_loop_found:
  assumes "withdraw_loop L (cmd # cmds) ts le st s = (res, st', s')" and "mc_Verified cmd" and "TargetID cmd \<notin> set ts"
    and "on_db (DisposeTarget (TargetID cmd)) s = (Inr (Some (target_info r)), s1)"
    and "lookupOwner L (TargetID cmd) s1 = (o1, s2)"
  obtains (stop) le2 st2 where "withdraw_loop L cmds ts le2 st2 s1 = (res, st', s')" "r_moderated r \<or> \<not> entitled cmd r"
    | (moderator) le2 st2 where "withdraw_loop L cmds (ts @ [TargetID cmd]) le2 st2 s1 = (res, st', s')" "Moderator cmd"
    | (owned) le2 st2 where "withdraw_loop L cmds (ts @ [TargetID cmd]) le2 st2 s1 = (res, st', s')"
        "r_spotter_id r \<noteq> []" "ValidateDispose cmd (r_spotter_id r) (unix_time (r_posted_at r))"
    | (unknown) le2 st2 where "withdraw_loop L cmds ts le2 st2 s2 = (res, st', s')" "r_spotter_id r = []" "\<not> Moderator cmd"
    | (looked) le2 st2 ow where "withdraw_loop L cmds (ts @ [TargetID cmd]) le2 st2 s2 = (res, st', s')"
        "r_spotter_id r = []" "o1 = Inr ow" "ow \<noteq> []" "ValidateDispose cmd ow (unix_time (r_posted_at r))"
proof (cases "r_moderated r \<or> Moderator cmd \<or> \<not> WithinDisposeWindow cmd (unix_time (r_posted_at r))")
  case True
  with assms that(1,2) entitled_window[of cmd r] show thesis by (auto simp: target_info_def split: if_splits)
next
  case False
  show thesis
  proof (cases "r_spotter_id r = [] \<and> le = None")
    case True
    with False assms that(4,5) show thesis
      by (cases o1) (auto simp: target_info_def Let_def split: if_splits)
  next
    case stored: False
    with False assms that(1,3) show thesis
      by (auto simp: target_info_def Let_def entitled_def split: if_splits)
  qed
qed

lemma withdraw_loop_authorised:
  assumes "withdraw_loop L cmds ts le st s = (res, st', s')" and "owners_only L d (sdb s)"
    and "distinct (map r_message_id (spots d))"
  shows "owners_only L d (sdb s')
    \<and> (\<forall>ts' le'. res = Inr (ts', le') \<longrightarrow> (\<forall>t\<in>set ts' - set ts. batch_allows L d cmds t))"
  using assms(1,2)
proof (induction cmds arbitrary: ts le st s)
  case (Cons cmd cmds)
  let ?goal = "owners_only L d (sdb s')
    \<and> (\<forall>ts' le'. res = Inr (ts', le') \<longrightarrow> (\<forall>t\<in>set ts' - set ts. batch_allows L d (cmd # cmds) t))"
  have skip: ?goal if "withdraw_loop L cmds ts le2 st2 s2 = (res, st', s')" "owners_only L d (sdb s2)" for le2 st2 s2
    using Cons.IH[OF that] batch_allows_Cons by blast
  have take: ?goal if "withdraw_loop L cmds (ts @ [TargetID cmd]) le2 st2 s2 = (res, st', s')" "owners_only L d (sdb s2)"
      "batch_allows L d (cmd # cmds) (TargetID cmd)" for le2 st2 s2
    using Cons.IH[OF that(1,2)] that(3) batch_allows_Cons by fastforce
  show ?case
  proof (cases "\<not> mc_Verified cmd \<or> TargetID cmd \<in> set ts")
    case True
    with Cons.prems(1) obtain st2 where "withdraw_loop L cmds ts le st2 s = (res, st', s')" by (auto split: if_splits)
    from skip[OF this Cons.prems(2)] show ?thesis .
  next
    case False
    obtain t s1 where t: "on_db (DisposeTarget (TargetID cmd)) s = (t, s1)" by fastforce
    then obtain d1 where d1: "DisposeTarget (TargetID cmd) (sdb s) = (t, d1)" "sdb s1 = d1" by (auto elim!: on_dbE)
    then obtain fs where "d1 = (sdb s)\<lparr>faults := fs\<rparr>" using query_same unfolding DisposeTarget_def by blast
    then have s1: "owners_only L d (sdb s1)" "spots (sdb s1) = spots (sdb s)"
      using Cons.prems(2) d1(2) by (simp_all add: owners_only_faults)
    show ?thesis
    proof (cases "\<exists>r. t = Inr (Some (target_info r)) \<and> r \<in> set (spots (sdb s)) \<and> r_message_id r = TargetID cmd")
      case none: False
      then have "(\<exists>e. t = Inl e) \<or> t = Inr None"
        using DisposeTarget_Inr[of "TargetID cmd" "sdb s" _ d1] d1(1) by (cases t) fastforce+
      with Cons.prems(1) False t have "(\<exists>e. res = Inl e \<and> s' = s1) \<or> (\<exists>st2. withdraw_loop L cmds ts le st2 s1 = (res, st', s'))"
        by auto
      with skip s1(1) show ?thesis by blast
    next
      case True
      then obtain r1 where r1: "t = Inr (Some (target_info r1))" "r1 \<in> set (spots (sdb s))" "r_message_id r1 = TargetID cmd"
        by blast
      from owners_onlyD[OF Cons.prems(2) r1(2)] obtain r where r: "r \<in> set (spots d)" "owner_update L r r1" .
      note ids = owner_update_ids[OF r(2)] and own = owner_update_owner[OF r(2)]
      have allow: "batch_allows L d (cmd # cmds) (TargetID cmd)"
        if "Moderator cmd \<or> (ow \<noteq> [] \<and> owner_of L r ow \<and> ValidateDispose cmd ow (unix_time (r_posted_at r1)))" for ow
        unfolding batch_allows_def row_withdrawable_def
        using that False r(1) ids r1(3) by (intro bexI[of _ cmd] bexI[of _ r]) auto
      obtain o1 s2 where o: "lookupOwner L (TargetID cmd) s1 = (o1, s2)" by fastforce
      have lk: "owners_only L d (sdb s2) \<and> (\<forall>ow. o1 = Inr ow \<longrightarrow> ow = [] \<or> owner_of L r ow)" if "r_spotter_id r1 = []"
        using lookupOwner_only[OF s1(1) assms(3) _ r1(3) that o] r1(2) s1(2) own ids r1(3) that
        by (auto simp: owner_of_def)
      from False have v: "mc_Verified cmd" "TargetID cmd \<notin> set ts" by auto
      show ?thesis
      proof (cases rule: withdraw_loop_found[OF Cons.prems(1) v t[unfolded r1(1)] o, case_names stop moderator owned unknown looked])
        case stop
        from skip[OF stop(1) s1(1)] show ?thesis .
      next
        case moderator
        from take[OF moderator(1) s1(1) allow] moderator(2) show ?thesis by blast
      next
        case owned
        from take[OF owned(1) s1(1) allow[of "r_spotter_id r1"]] owned(2,3) own show ?thesis by blast
      next
        case unknown
        from skip[OF unknown(1)] lk[OF unknown(2)] show ?thesis by blast
      next
        case (looked le2 st2 ow)
        from take[OF looked(1) _ allow[of ow]] lk[OF looked(2)] looked(3-5) show ?thesis by blast
      qed
    qed
  qed
qed auto

section \<open>What a batch leaves alone\<close>

text \<open>The spot with an id, a message-id and a withdrawal flag is in the table.\<close>

definition has_row :: "int \<Rightarrow> string \<Rightarrow> bool \<Rightarrow> database \<Rightarrow> bool" where
  "has_row k i b d \<longleftrightarrow> (\<exists>r\<in>set (spots d). r_id r = k \<and> r_message_id r = i \<and> r_moderated r = b)"

lemma has_row_spots: "spots d' = spots d \<Longrightarrow> has_row k i b d' = has_row k i b d"
  by (simp add: has_row_def)

lemma has_row_owners:
  assumes "owners_only L d d'" "has_row k i b d"
  shows "has_row k i b d'"
proof -
  from assms(2) obtain n where n: "n < length (spots d)" "r_id (spots d ! n) = k" "r_message_id (spots d ! n) = i"
    "r_moderated (spots d ! n) = b" by (auto simp: has_row_def in_set_conv_nth)
  with assms(1) have "n < length (spots d')" "owner_update L (spots d ! n) (spots d' ! n)"
    by (auto simp: owners_only_def list_all2_conv_all_nth)
  with n owner_update_ids[OF this(2)] show ?thesis unfolding has_row_def by (intro bexI[of _ "spots d' ! n"]) auto
qed

lemma mark_loop_has_row:
  "mark_loop n ids d = (Inr r, d') \<Longrightarrow> i \<notin> set ids \<Longrightarrow> has_row k i b d \<Longrightarrow> has_row k i b d'"
proof (induction ids arbitrary: n d)
  case (Cons j ids)
  from Cons.prems(1) obtain u d1 m d2 where s: "exec (ring_add j) d = (Inr u, d1)" "exec (mark_id j) d1 = (Inr m, d2)"
    "mark_loop (n + m) ids d2 = (Inr r, d')"
    by (auto simp: mark_id_def split: prod.splits sum.splits)
  from exec_Inr[OF s(1)] obtain fs where "ring_add j (d\<lparr>faults := fs\<rparr>) = (u, d1)" by blast
  from ring_add_tables[OF this] have 1: "spots d1 = spots d" by simp
  from exec_Inr[OF s(2)] obtain fs where "mark_id j (d1\<lparr>faults := fs\<rparr>) = (m, d2)" by blast
  then have "spots d2 = map (\<lambda>r. if r_message_id r = j then r\<lparr>r_moderated := True\<rparr> else r) (spots d)"
    using 1 by (auto simp: mark_id_def update_spots_def Let_def)
  moreover obtain r0 where "r0 \<in> set (spots d)" "r_id r0 = k" "r_message_id r0 = i" "r_moderated r0 = b"
    using Cons.prems(3) by (auto simp: has_row_def)
  ultimately have "has_row k i b d2"
    unfolding has_row_def using Cons.prems(2) by (intro bexI[of _ r0]) (auto simp: image_iff)
  with Cons.IH[OF s(3)] Cons.prems(2) show ?case by simp
qed simp

lemma MarkModerated_has_row:
  assumes "MarkModerated ids d = (res, d')" "i \<notin> set ids" "has_row k i b d"
  shows "has_row k i b d'"
proof (cases "ids = []")
  case False
  note t = assms(1)[unfolded MarkModerated_def if_not_P[OF False]]
  show ?thesis
  proof (cases res)
    case (Inl e)
    with t assms(3) show ?thesis by (auto dest!: tx_Inl simp: has_row_def)
  next
    case (Inr n)
    from tx_Inr[OF t[unfolded Inr]] obtain fs d2 fs' where
      m: "(case query (\<lambda>_. ()) (d\<lparr>faults := fs\<rparr>) of (Inl e, d2) \<Rightarrow> (Inl e, d2)
      | (Inr _, d2) \<Rightarrow> (case query (\<lambda>_. ()) d2 of (Inl e, d3) \<Rightarrow> (Inl e, d3)
        | (Inr _, d3) \<Rightarrow> mark_loop 0 ids d3)) = (Inr n, d2)" and d': "d' = d2\<lparr>faults := fs'\<rparr>" by blast
    from seq_query_Inr[OF m] obtain fs2 where "mark_loop 0 ids (d\<lparr>faults := fs2\<rparr>) = (Inr n, d2)"
      by (auto dest!: seq_query_Inr)
    from mark_loop_has_row[OF this assms(2)] assms(3) d' show ?thesis by (simp add: has_row_def)
  qed
qed (use assms in \<open>simp add: MarkModerated_def\<close>)

lemma delete_batches_has_row:
  "delete_batches col ids n d = (res, d') \<Longrightarrow> col = r_message_id \<Longrightarrow> i \<notin> set ids \<Longrightarrow> has_row k i b d \<Longrightarrow>
   has_row k i b d'"
proof (induction col ids n d rule: delete_batches.induct)
  case (1 col ids n d)
  obtain r1 d1 where x: "exec (delete_spots (\<lambda>r. col r \<in> set (take 400 ids))) d = (r1, d1)" by fastforce
  have i: "i \<notin> set (take 400 ids)" "i \<notin> set (drop 400 ids)" using "1.prems"(3) by (auto dest: in_set_takeD in_set_dropD)
  have h: "has_row k i b d1"
    using exec_cases[OF x] "1.prems"(2,4) i(1) by (auto simp: has_row_def delete_spots_def Let_def)
  show ?case
    using "1.prems"(1)[unfolded delete_batches.simps[of col ids n d] x] "1.prems"(4)
      "1.IH"[OF _ x[symmetric] _ _ "1.prems"(2) i(2) h] h
    by (auto split: if_splits sum.splits)
qed


text \<open>A spot with an owner and a verified withdrawal that another key has signed.\<close>

definition demo_owned :: database where
  "demo_owned = snd (SetSpotOwner ''<a@x>'' ''own'' True demo_inserted)"

lemma demo_owned_inv: "store_inv demo_owned"
proof -
  have "store_inv demo_inserted" using store.inv_reachable[OF demo_fresh] demo_inserted_step by blast
  moreover have "store_step adult_flag_ok demo_inserted demo_owned"
    by (rule store_step.owner[of "''<a@x>''" "''own''" True _ "fst (SetSpotOwner ''<a@x>'' ''own'' True demo_inserted)"])
      (simp add: demo_owned_def)
  ultimately show ?thesis using tables.store_step_keeps by simp
qed

definition demo_silent :: conn where
  "demo_silent = \<lparr>inp = [], eof_err = EOF, out = [], werr = None, maxArticleBytes = 100\<rparr>"

definition demo_foreign :: ModerationCommand where
  "demo_foreign = empty_command\<lparr>TargetID := ''<a@x>'', Spotter := ''other'', mc_Verified := True, Stamp := unix_time 6\<rparr>"


end
