(* ===== verification/Takedown.thy ===== *)
theory Takedown
  imports Authority
begin

text \<open>
  That a withdrawal takes effect: the loop over a batch takes up every verified command with authority over
  the spot it names, the database then hides or deletes that spot, and the ring of withdrawn ids keeps it
  from being listed again.
\<close>

interpretation withdrawals: engine_invariant L cfg store_inv for L cfg
  by unfold_locales (blast intro: tables.store_step_keeps store_step_mono ingested_flag)

section \<open>The loop takes up every command with authority\<close>

definition target_stands :: "ModerationCommand \<Rightarrow> database \<Rightarrow> bool" where
  "target_stands cmd d \<longleftrightarrow> TargetID cmd \<in> r_message_id ` set (spots d)
     \<and> (\<forall>r\<in>set (spots d). r_message_id r = TargetID cmd \<longrightarrow> \<not> r_moderated r \<and> entitled cmd r)"

lemma target_stands_faults [simp]: "target_stands cmd (d\<lparr>faults := fs\<rparr>) = target_stands cmd d"
  by (simp add: target_stands_def)

lemma target_stands_map:
  assumes "target_stands cmd d" "spots d' = map f (spots d)"
    and "\<And>r. r_message_id (f r) = r_message_id r" "\<And>r. r_moderated (f r) = r_moderated r"
    and "\<And>r. entitled cmd r \<Longrightarrow> r_message_id r = TargetID cmd \<Longrightarrow> entitled cmd (f r)"
  shows "target_stands cmd d'"
  using assms by (auto simp: target_stands_def image_image)

lemma SetSpotOwner_stands:
  assumes "SetSpotOwner i ow v d = (u, d')" "target_stands cmd d" "Moderator cmd \<or> i \<noteq> TargetID cmd"
  shows "target_stands cmd d'"
proof -
  let ?f = "\<lambda>r. if r_message_id r = i then r\<lparr>r_spotter_id := ow, r_verified := v\<rparr> else r"
  from exec_cases[OF assms(1)[unfolded SetSpotOwner_def]]
  consider fs where "d' = d\<lparr>faults := fs\<rparr>" | "spots d' = map ?f (spots d)" by (auto simp: update_spots_def Let_def)
  then show ?thesis
  proof cases
    case 2
    show ?thesis
      by (rule target_stands_map[OF assms(2) 2]) (use assms(3) in \<open>auto simp: entitled_def\<close>)
  qed (use assms(2) in simp)
qed

lemma lookupOwner_stands:
  assumes "lookupOwner L i s = (res, s')" "target_stands cmd (sdb s)" "Moderator cmd \<or> i \<noteq> TargetID cmd"
  shows "target_stands cmd (sdb s')"
  using assms
  by (auto simp: lookupOwner_def Let_def split: prod.splits sum.splits option.splits
      dest!: on_conn_sdb elim!: on_dbE dest: SetSpotOwner_stands)

lemma DisposeTarget_stands:
  assumes "DisposeTarget i d = (Inr t, d')" "target_stands cmd d"
  shows "target_stands cmd d'"
    and "i = TargetID cmd \<Longrightarrow> \<exists>r. t = Some (target_info r) \<and> \<not> r_moderated r \<and> entitled cmd r"
proof -
  from query_Inr[OF assms(1)[unfolded DisposeTarget_def]] obtain fs
    where d': "d' = d\<lparr>faults := fs\<rparr>" and t: "t = map_option target_info (find (\<lambda>r. r_message_id r = i) (spots d))"
    by auto
  from d' assms(2) show "target_stands cmd d'" by simp
  assume i: "i = TargetID cmd"
  with assms(2) obtain r where "find (\<lambda>r. r_message_id r = i) (spots d) = Some r"
    by (cases "find (\<lambda>r. r_message_id r = i) (spots d)") (auto simp: target_stands_def find_None_iff)
  moreover from this have "r \<in> set (spots d)" "r_message_id r = i" by (auto simp: find_Some_iff)
  ultimately show "\<exists>r. t = Some (target_info r) \<and> \<not> r_moderated r \<and> entitled cmd r"
    using t i assms(2) by (auto simp: target_stands_def)
qed

lemma withdraw_loop_takes:
  "withdraw_loop L cmds ts le st s = (Inr (ts', le'), st', s') \<Longrightarrow> target_stands cmd (sdb s) \<Longrightarrow> mc_Verified cmd \<Longrightarrow>
   cmd \<in> set cmds \<or> TargetID cmd \<in> set ts \<Longrightarrow> TargetID cmd \<in> set ts'"
proof (induction cmds arbitrary: ts le st s)
  case (Cons c cmds)
  note IH = Cons.IH[OF _ _ Cons.prems(3)]
  show ?case
  proof (cases "\<not> mc_Verified c \<or> TargetID c \<in> set ts")
    case True
    with Cons.prems(1) obtain st2 where "withdraw_loop L cmds ts le st2 s = (Inr (ts', le'), st', s')"
      by (auto split: if_splits)
    with IH True Cons.prems show ?thesis by auto
  next
    case False
    obtain d s1 where d: "on_db (DisposeTarget (TargetID c)) s = (d, s1)" by fastforce
    with Cons.prems(1) False obtain t where t: "d = Inr t" by (cases d) auto
    from d t obtain d1 where d1: "DisposeTarget (TargetID c) (sdb s) = (Inr t, d1)" "sdb s1 = d1" by (auto elim!: on_dbE)
    note found = DisposeTarget_stands[OF d1(1) Cons.prems(2)]
    obtain o1 s2 where o: "lookupOwner L (TargetID c) s1 = (o1, s2)" by fastforce
    show ?thesis
    proof (cases "TargetID c = TargetID cmd")
      case same: True
      with found(2) obtain r where r: "t = Some (target_info r)" "\<not> r_moderated r" "entitled cmd r" by blast
      have s2: "target_stands cmd (sdb s2)" if "r_spotter_id r = []"
        using lookupOwner_stands[OF o] found(1) d1(2) that r(3) by (auto simp: entitled_def)
      from False have v: "mc_Verified c" "TargetID c \<notin> set ts" by auto
      show ?thesis
      proof (cases rule: withdraw_loop_found[OF Cons.prems(1) v d[unfolded t r(1)] o])
        case (1 le2 st2)
        with r(2,3) same have "c \<noteq> cmd" by blast
        with 1 IH found(1) d1(2) Cons.prems(4) show ?thesis by fastforce
      next
        case (4 le2 st2)
        with r(3) same have "c \<noteq> cmd" by (auto simp: entitled_def)
        with 4 IH s2 Cons.prems(4) show ?thesis by fastforce
      qed (use IH s2 found(1) d1(2) same in fastforce)+
    next
      case other: False
      have "target_stands cmd (sdb s2)" using lookupOwner_stands[OF o] found(1) d1(2) other by auto
      moreover have "\<exists>ts2 le2 st2. (ts2 = ts \<or> ts2 = ts @ [TargetID c]) \<and>
          (withdraw_loop L cmds ts2 le2 st2 s1 = (Inr (ts', le'), st', s')
           \<or> withdraw_loop L cmds ts2 le2 st2 s2 = (Inr (ts', le'), st', s'))"
        using Cons.prems(1) False d t o
        by (cases t; cases o1) (simp_all add: Let_def split: if_splits, blast+)
      ultimately show ?thesis using IH found(1) d1(2) Cons.prems(4) other by fastforce
    qed
  qed
qed simp

section \<open>Deleting\<close>

lemma delete_batches_removes:
  "delete_batches col ids n d = (Inr m, d') \<Longrightarrow>
   set (spots d') \<subseteq> {r \<in> set (spots d). col r \<notin> set ids}"
proof (induction col ids n d rule: delete_batches.induct)
  case (1 col ids n d)
  obtain r1 d1 where x: "exec (delete_spots (\<lambda>r. col r \<in> set (take 400 ids))) d = (r1, d1)" by fastforce
  show ?case
  proof (cases "ids = []")
    case False
    with "1.prems"[unfolded delete_batches.simps[of col ids n d] x] obtain k where k: "r1 = Inr k"
      "delete_batches col (drop 400 ids) (n + k) d1 = (Inr m, d')" by (auto split: sum.splits)
    from exec_Inr[OF x[unfolded k(1)]] have "set (spots d1) \<subseteq> {r \<in> set (spots d). col r \<notin> set (take 400 ids)}"
      by (auto simp: delete_spots_def Let_def)
    moreover have "set ids = set (take 400 ids) \<union> set (drop 400 ids)" by (metis append_take_drop_id set_append)
    ultimately show ?thesis using "1.IH"[OF False x[symmetric] k(1,2)] by auto
  qed (use "1.prems" in \<open>simp add: delete_batches.simps\<close>)
qed

lemma DeleteSpotsByMessageID_removes:
  "DeleteSpotsByMessageID ids d = (Inr m, d') \<Longrightarrow> set (spots d') \<subseteq> {r \<in> set (spots d). r_message_id r \<notin> set ids}"
  by (auto simp: DeleteSpotsByMessageID_def split: if_splits dest: delete_batches_removes)

section \<open>The whole batch\<close>

lemma target_standsI:
  assumes "store_inv d" "r \<in> set (spots d)" "r_message_id r = TargetID cmd" "\<not> r_moderated r" "entitled cmd r"
  shows "target_stands cmd d"
proof -
  have "inj_on r_message_id (set (spots d))"
    using assms(1) by (simp add: store_inv_def tables_ok_def distinct_map)
  then have "r1 = r" if "r1 \<in> set (spots d)" "r_message_id r1 = TargetID cmd" for r1
    using assms(2,3) that by (simp add: inj_onD)
  moreover have "TargetID cmd \<in> r_message_id ` set (spots d)" using imageI[OF assms(2), of r_message_id] assms(3) by simp
  ultimately show ?thesis using assms(4,5) unfolding target_stands_def by blast
qed

lemma applyModeration_takes:
  assumes "applyModeration L cfg cmds s = ((err, st), s')" "\<nexists>e. err = Some (StoreError e)"
    and "ModerationMode cfg = ModerationMark \<or> ModerationMode cfg = ModerationDelete"
    and "target_stands cmd (sdb s)" "mc_Verified cmd" "cmd \<in> set cmds"
  shows "TargetID cmd \<in> ring_ids (sdb s')"
proof -
  obtain x st1 s1 where w: "withdraw_loop L cmds [] None no_moderation s = (x, st1, s1)" by (metis prod_cases3)
  have mode: "ModerationMode cfg \<noteq> ModerationOff" "ModerationMark \<noteq> ModerationDelete"
    using assms(3) by (auto simp: ModerationOff_def ModerationMark_def ModerationDelete_def)
  from assms(1,2) mode w obtain ts le where x: "x = Inr (ts, le)"
    by (cases x) (auto simp: applyModeration_def)
  from withdraw_loop_takes[OF w[unfolded x] assms(4,5)] assms(6) have t: "TargetID cmd \<in> set ts" by simp
  then have "ts \<noteq> []" by auto
  with assms(1-3) mode w x have "\<exists>n s2. on_db (MarkModerated ts) s2 = (Inr n, s')"
    by (auto simp: applyModeration_def split: sum.splits prod.splits if_splits)
  then show ?thesis using t MarkModerated_ring by (fastforce elim!: on_dbE)
qed

text \<open>C13: A withdrawal takes effect. When a batch of withdrawals is applied (in mode mark or delete) and the
  database does not fail, then every spot that a verified command of the batch names, signed by the network
  moderator or, within the time window, by the owner on record, is gone from every listing for good:
  whatever else is in the batch, whatever the provider answers to the owner lookups, and whatever the store
  does afterwards (the same article synced or backfilled again included) until the ring is pruned.\<close>

theorem withdrawals_take_effect:
  assumes "store_inv (sdb s)" and "ModerationMode cfg = ModerationMark \<or> ModerationMode cfg = ModerationDelete"
    and "r \<in> set (spots (sdb s))" and "\<not> r_moderated r"
    and "cmd \<in> set cmds" and "mc_Verified cmd" and "TargetID cmd = r_message_id r" and "entitled cmd r"
    and "applyModeration L cfg cmds s = ((err, st), s')" and "\<nexists>e. err = Some (StoreError e)"
    and "keep_step\<^sup>*\<^sup>* (sdb s') d" and "SearchSpots m p d = (Inr (ss, cnt), d')"
  shows "r_message_id r \<notin> sp_MessageID ` set ss"
proof -
  have "target_stands cmd (sdb s)" using target_standsI assms(1,3,4,7,8) by simp
  from applyModeration_takes[OF assms(9,10,2) this assms(6,5)] assms(7)
  have "r_message_id r \<in> ring_ids (sdb s')" by simp
  moreover have "store_inv (sdb s')" using withdrawals.applyModeration_keeps[OF assms(9,1)] .
  ultimately show ?thesis using ring_hides assms(11,12) by blast
qed

text \<open>An owner withdraws a spot, which is deleted; the sync then reads its article again.\<close>

definition demo_own :: ModerationCommand where
  "demo_own = demo_foreign\<lparr>Spotter := ''own''\<rparr>"

definition demo_deleted :: database where
  "demo_deleted = snd (DeleteSpotsByMessageID [''<a@x>''] demo_owned)"

definition demo_taken :: database where
  "demo_taken = snd (MarkModerated [''<a@x>''] demo_deleted)"

definition demo_resynced :: database where
  "demo_resynced = snd (InsertSpots [demo_spot ''<a@x>'' 5] demo_taken)"

lemma demo_target:
  "DisposeTarget ''<a@x>'' demo_owned
     = (Inr (Some \<lparr>dt_Owner = ''own'', dt_Posted = unix_time 5, dt_Moderated = False\<rparr>), demo_owned)"
proof -
  have "case fst (DisposeTarget ''<a@x>'' demo_owned) of Inr (Some t) \<Rightarrow> dt_Owner t = ''own'' \<and> dt_Posted t = unix_time 5
      \<and> \<not> dt_Moderated t | _ \<Rightarrow> False" by code_simp
  moreover have "faults demo_owned = []" by code_simp
  then have "snd (DisposeTarget ''<a@x>'' demo_owned) = demo_owned"
    by (simp add: DisposeTarget_def query_def exec_def)
  ultimately show ?thesis by (auto simp: prod_eq_iff split: sum.splits option.splits)
qed

lemma demo_applied:
  "applyModeration L (cfg\<lparr>ModerationMode := ModerationDelete\<rparr>) [demo_own]
     \<lparr>sdb = demo_owned, sconn = c, sbroken = b\<rparr>
   = ((None, no_moderation\<lparr>Applied := 1\<rparr>), \<lparr>sdb = demo_taken, sconn = c, sbroken = b\<rparr>)"
proof -
  have own: "mc_Verified demo_own" "TargetID demo_own = ''<a@x>''" "\<not> Moderator demo_own"
      "WithinDisposeWindow demo_own (unix_time 5)" "ValidateDispose demo_own ''own'' (unix_time 5)"
    by code_simp+
  have "case fst (DeleteSpotsByMessageID [''<a@x>''] demo_owned) of Inr n \<Rightarrow> n = 1 | _ \<Rightarrow> False" by code_simp
  then have d: "DeleteSpotsByMessageID [''<a@x>''] demo_owned = (Inr 1, demo_deleted)"
    by (simp add: demo_deleted_def prod_eq_iff split: sum.splits)
  have "case fst (MarkModerated [''<a@x>''] demo_deleted) of Inr n \<Rightarrow> True | _ \<Rightarrow> False" by code_simp
  then obtain n where m: "MarkModerated [''<a@x>''] demo_deleted = (Inr n, demo_taken)"
    by (auto simp: demo_taken_def prod_eq_iff split: sum.splits)
  show ?thesis
    by (simp add: applyModeration_def on_db_def own demo_target d m ModerationOff_def ModerationDelete_def)
qed

theorem withdrawals_take_effect_witness:
  "applyModeration demo_lib (demo_cfg\<lparr>ModerationMode := ModerationDelete\<rparr>) [demo_own]
     \<lparr>sdb = demo_owned, sconn = demo_silent, sbroken = False\<rparr>
   = ((None, no_moderation\<lparr>Applied := 1\<rparr>), \<lparr>sdb = demo_taken, sconn = demo_silent, sbroken = False\<rparr>)
   \<and> keep_step demo_taken demo_resynced
   \<and> map sp_MessageID (fst (projr (fst (SearchSpots (\<lambda>_ _. True) all_spots demo_resynced)))) = [''<b@x>'']
   \<and> ''<a@x>'' \<notin> sp_MessageID ` set (fst (projr (fst (SearchSpots (\<lambda>_ _. True) all_spots demo_resynced))))"
proof -
  let ?s = "\<lparr>sdb = demo_owned, sconn = demo_silent, sbroken = False\<rparr>"
  let ?cfg = "demo_cfg\<lparr>ModerationMode := ModerationDelete\<rparr>"
  let ?search = "SearchSpots (\<lambda>_ _. True) all_spots demo_resynced"
  have "list_ex (\<lambda>r. r_message_id r = ''<a@x>'' \<and> \<not> r_moderated r \<and> entitled demo_own r) (spots demo_owned)"
    by code_simp
  then obtain r where r: "r \<in> set (spots demo_owned)" "r_message_id r = ''<a@x>''" "\<not> r_moderated r" "entitled demo_own r"
    by (auto simp: list_ex_iff)
  have c: "demo_own \<in> set [demo_own]" "mc_Verified demo_own" "TargetID demo_own = r_message_id r"
    by (simp_all add: demo_own_def demo_foreign_def r(2))
  have k: "keep_step demo_taken demo_resynced"
  proof (rule keep_step.store, rule store_step.insert)
    show "\<forall>s\<in>set [demo_spot ''<a@x>'' 5]. adult_flag_ok s" by (simp add: demo_flag)
    show "InsertSpots [demo_spot ''<a@x>'' 5] demo_taken
        = (fst (InsertSpots [demo_spot ''<a@x>'' 5] demo_taken), demo_resynced)"
      by (simp add: demo_resynced_def)
  qed
  have "case fst ?search of Inl _ \<Rightarrow> False | Inr _ \<Rightarrow> True" by code_simp
  then obtain ss cnt where s: "fst ?search = Inr (ss, cnt)" by (auto split: sum.splits)
  then have "?search = (Inr (ss, cnt), snd ?search)" by (simp add: prod_eq_iff)
  from withdrawals_take_effect[where s = ?s and cfg = ?cfg, OF _ _ _ r(3) c r(4) demo_applied _ _ this]
    demo_owned_inv r(1,2) s r_into_rtranclp[of keep_step, OF k]
  have "''<a@x>'' \<notin> sp_MessageID ` set (fst (projr (fst ?search)))" by simp
  moreover have "map sp_MessageID (fst (projr (fst ?search))) = [''<b@x>'']" by code_simp
  ultimately show ?thesis using demo_applied k by blast
qed

end
