(* ===== verification/Web.thy ===== *)
theory Web
  imports Netip "HOL-Library.AList" Complex_Main
begin

text \<open>
  \<open>internal/api/middleware.go\<close>: who a request comes from, and the rate limiter. A request is what the
  handlers read of \<open>http.Request\<close>: the socket peer, the headers and query parameters by name (the empty
  string for an absent one), the cookies in their order, the \<open>id\<close> of the path and whether the connection is
  TLS. \<open>netip.ParseAddr\<close> is the argument \<open>pa\<close>.
\<close>

section \<open>Requests\<close>

record request =
  RemoteAddr :: string
  rq_header :: "string \<Rightarrow> string"
  rq_query :: "string \<Rightarrow> string"
  rq_cookies :: "(string \<times> string) list"
  rq_id :: string
  rq_TLS :: bool
  rq_Host :: string

record peerInfo =
  scheme :: string
  pi_fromTrustedProxy :: bool

section \<open>Client address\<close>

definition hostOnly :: "string \<Rightarrow> string" where
  "hostOnly remoteAddr = (case SplitHostPort remoteAddr of Some (host, _) \<Rightarrow> host | None \<Rightarrow> remoteAddr)"

definition inAny :: "ip_addr \<Rightarrow> ip_prefix list \<Rightarrow> bool" where
  "inAny addr pxs = list_ex (\<lambda>p. prefix_contains p (Unmap addr)) pxs"

definition peerTrusted :: "(string \<Rightarrow> ip_addr option) \<Rightarrow> request \<Rightarrow> ip_prefix list \<Rightarrow> bool" where
  "peerTrusted pa r trusted \<longleftrightarrow>
     (case pa (hostOnly (RemoteAddr r)) of
        None \<Rightarrow> False
      | Some peer \<Rightarrow> trusted \<noteq> [] \<and> inAny peer trusted)"

definition resolveScheme :: "(string \<Rightarrow> ip_addr option) \<Rightarrow> request \<Rightarrow> ip_prefix list \<Rightarrow> string" where
  "resolveScheme pa r trusted =
     (let p = to_lower (trim_space (rq_header r ''X-Forwarded-Proto''));
          plain = (if rq_TLS r then ''https'' else ''http'')
      in case pa (hostOnly (RemoteAddr r)) of
           Some peer \<Rightarrow>
             if trusted \<noteq> [] \<and> inAny peer trusted \<and> (p = ''http'' \<or> p = ''https'') then p else plain
         | None \<Rightarrow> plain)"

text \<open>The walk through \<open>X-Forwarded-For\<close>, over its parts from the right.\<close>

fun walk_forwarded :: "(string \<Rightarrow> ip_addr option) \<Rightarrow> ip_prefix list \<Rightarrow> string list \<Rightarrow> string option" where
  "walk_forwarded pa trusted [] = None"
| "walk_forwarded pa trusted (part # parts) =
     (let candidate = trim_space part
      in case pa candidate of
           None \<Rightarrow> walk_forwarded pa trusted parts
         | Some addr \<Rightarrow> if \<not> inAny addr trusted then Some candidate else walk_forwarded pa trusted parts)"

definition resolveClientIP :: "(string \<Rightarrow> ip_addr option) \<Rightarrow> request \<Rightarrow> ip_prefix list \<Rightarrow> string" where
  "resolveClientIP pa r trusted =
     (let peer = hostOnly (RemoteAddr r)
      in if trusted = [] then peer
         else (case pa peer of
                 None \<Rightarrow> peer
               | Some peerAddr \<Rightarrow>
                   if \<not> inAny peerAddr trusted then peer
                   else let xrip = trim_space (rq_header r ''X-Real-Ip'');
                            xff = rq_header r ''X-Forwarded-For''
                        in if xrip \<noteq> [] \<and> pa xrip \<noteq> None then xrip
                           else if xff \<noteq> []
                           then (case walk_forwarded pa trusted (rev (split_on (CHR '','') xff)) of
                                   Some candidate \<Rightarrow> candidate
                                 | None \<Rightarrow> peer)
                           else peer))"

text \<open>The middleware: what it records of the peer, and the request the handlers see.\<close>

definition realIP :: "(string \<Rightarrow> ip_addr option) \<Rightarrow> ip_prefix list \<Rightarrow> request \<Rightarrow> peerInfo \<times> request" where
  "realIP pa trusted r =
     (let info = \<lparr>scheme = resolveScheme pa r trusted, pi_fromTrustedProxy = peerTrusted pa r trusted\<rparr>;
          ip = resolveClientIP pa r trusted
      in (info, if ip \<noteq> [] then r\<lparr>RemoteAddr := ip\<rparr> else r))"

definition fromTrustedProxy :: "peerInfo option \<Rightarrow> bool" where
  "fromTrustedProxy info = (case info of None \<Rightarrow> False | Some i \<Rightarrow> pi_fromTrustedProxy i)"

definition requestScheme :: "peerInfo option \<Rightarrow> request \<Rightarrow> string" where
  "requestScheme info r =
     (case info of
        Some i \<Rightarrow> if scheme i \<noteq> [] then scheme i else if rq_TLS r then ''https'' else ''http''
      | None \<Rightarrow> if rq_TLS r then ''https'' else ''http'')"

text \<open>Two requests that differ in their headers only.\<close>

definition same_but_headers :: "request \<Rightarrow> request \<Rightarrow> bool" where
  "same_but_headers r r' \<longleftrightarrow> r' = r\<lparr>rq_header := rq_header r'\<rparr>"

lemma walk_forwarded_Some:
  "walk_forwarded pa trusted parts = Some c \<Longrightarrow>
   \<exists>xs p ys a. parts = xs @ p # ys \<and> c = trim_space p \<and> pa c = Some a \<and> \<not> inAny a trusted
     \<and> (\<forall>x\<in>set xs. case pa (trim_space x) of None \<Rightarrow> True | Some b \<Rightarrow> inAny b trusted)"
proof (induction parts)
  case (Cons p ps)
  show ?case
  proof (cases "\<exists>a. pa (trim_space p) = Some a \<and> \<not> inAny a trusted")
    case True
    with Cons.prems show ?thesis by (intro exI[of _ "[]"] exI[of _ p] exI[of _ ps]) (auto simp: Let_def)
  next
    case False
    then have "walk_forwarded pa trusted ps = Some c" using Cons.prems by (auto simp: Let_def split: option.splits)
    from Cons.IH[OF this] obtain xs q ys a where i: "ps = xs @ q # ys" "c = trim_space q" "pa c = Some a" "\<not> inAny a trusted"
      "\<forall>x\<in>set xs. case pa (trim_space x) of None \<Rightarrow> True | Some b \<Rightarrow> inAny b trusted" by blast
    with False show ?thesis
      by (intro exI[of _ "p # xs"] exI[of _ q] exI[of _ ys] exI[of _ a]) (auto split: option.splits)
  qed
qed simp

text \<open>C21: A client cannot choose the address it is known by. When its connection does not come from a trusted
  proxy, the address, the scheme and the trust recorded for its request are the same whatever headers it
  sends. When the connection comes from a trusted proxy and no \<open>X-Real-Ip\<close> is given, the address taken
  from \<open>X-Forwarded-For\<close> is one that every entry to its right, each the address of a trusted proxy or no
  address at all, has passed on.\<close>

theorem client_address_is_not_forgeable:
  assumes "same_but_headers r r'"
  shows "(\<not> peerTrusted pa r trusted \<longrightarrow>
      fst (realIP pa trusted r') = fst (realIP pa trusted r)
      \<and> RemoteAddr (snd (realIP pa trusted r')) = RemoteAddr (snd (realIP pa trusted r))
      \<and> resolveClientIP pa r trusted = hostOnly (RemoteAddr r))
    \<and> (peerTrusted pa r trusted \<and> trim_space (rq_header r ''X-Real-Ip'') = [] \<and>
       resolveClientIP pa r trusted \<noteq> hostOnly (RemoteAddr r) \<longrightarrow>
      (\<exists>xs p ys a. split_on (CHR '','') (rq_header r ''X-Forwarded-For'') = xs @ p # ys
         \<and> resolveClientIP pa r trusted = trim_space p \<and> pa (trim_space p) = Some a \<and> \<not> inAny a trusted
         \<and> (\<forall>x\<in>set ys. case pa (trim_space x) of None \<Rightarrow> True | Some b \<Rightarrow> inAny b trusted)))"
proof (rule conjI; rule impI)
  have same: "RemoteAddr r' = RemoteAddr r" "rq_TLS r' = rq_TLS r"
    using arg_cong[of _ _ RemoteAddr, OF assms[unfolded same_but_headers_def]]
      arg_cong[of _ _ rq_TLS, OF assms[unfolded same_but_headers_def]] by simp_all
  assume u: "\<not> peerTrusted pa r trusted"
  then have "resolveClientIP pa q trusted = hostOnly (RemoteAddr r) \<and> resolveScheme pa q trusted = (if rq_TLS r then ''https'' else ''http'')
     \<and> peerTrusted pa q trusted = False" if "RemoteAddr q = RemoteAddr r" "rq_TLS q = rq_TLS r" for q
    using that by (auto simp: peerTrusted_def resolveClientIP_def resolveScheme_def Let_def split: option.splits)
  from this[of r] this[of r'] same show "fst (realIP pa trusted r') = fst (realIP pa trusted r)
      \<and> RemoteAddr (snd (realIP pa trusted r')) = RemoteAddr (snd (realIP pa trusted r))
      \<and> resolveClientIP pa r trusted = hostOnly (RemoteAddr r)"
    by (simp add: realIP_def Let_def)
next
  let ?xff = "rq_header r ''X-Forwarded-For''"
  assume a: "peerTrusted pa r trusted \<and> trim_space (rq_header r ''X-Real-Ip'') = [] \<and>
       resolveClientIP pa r trusted \<noteq> hostOnly (RemoteAddr r)"
  then obtain c where c: "walk_forwarded pa trusted (rev (split_on (CHR '','') ?xff)) = Some c" "resolveClientIP pa r trusted = c"
    by (auto simp: peerTrusted_def resolveClientIP_def Let_def split: option.splits if_splits)
  from walk_forwarded_Some[OF c(1)] obtain xs p ys b where w: "rev (split_on (CHR '','') ?xff) = xs @ p # ys"
    "c = trim_space p" "pa c = Some b" "\<not> inAny b trusted"
    "\<forall>x\<in>set xs. case pa (trim_space x) of None \<Rightarrow> True | Some b \<Rightarrow> inAny b trusted" by blast
  from arg_cong[OF w(1), of rev] have "split_on (CHR '','') ?xff = rev ys @ p # rev xs" by simp
  with c(2) w(2-5) show "\<exists>xs p ys a. split_on (CHR '','') ?xff = xs @ p # ys
         \<and> resolveClientIP pa r trusted = trim_space p \<and> pa (trim_space p) = Some a \<and> \<not> inAny a trusted
         \<and> (\<forall>x\<in>set ys. case pa (trim_space x) of None \<Rightarrow> True | Some b \<Rightarrow> inAny b trusted)"
    by (intro exI[of _ "rev ys"] exI[of _ p] exI[of _ "rev xs"] exI[of _ b]) simp
qed

text \<open>A client that forges both headers and the forwarded scheme, on a direct connection.\<close>

definition demo_pa :: "string \<Rightarrow> ip_addr option" where
  "demo_pa s = (if s = ''9.9.9.9'' then Some (IPv4 151587081) else if s = ''10.0.0.1'' then Some (IPv4 167772161)
     else None)"

definition demo_trusted :: "ip_prefix list" where
  "demo_trusted = [\<lparr>px_addr = IPv4 167772161, px_bits = 32\<rparr>]"

definition demo_request :: request where
  "demo_request = \<lparr>RemoteAddr = ''9.9.9.9:5'', rq_header = (\<lambda>_. []), rq_query = (\<lambda>_. []), rq_cookies = [],
     rq_id = ''1'', rq_TLS = False, rq_Host = ''h''\<rparr>"

definition demo_forged :: request where
  "demo_forged = demo_request\<lparr>rq_header := (\<lambda>k. if k = ''X-Forwarded-Proto'' then ''https'' else ''10.0.0.1'')\<rparr>"

theorem client_address_is_not_forgeable_witness:
  "RemoteAddr (snd (realIP demo_pa demo_trusted demo_forged)) = RemoteAddr (snd (realIP demo_pa demo_trusted demo_request))
   \<and> resolveClientIP demo_pa demo_request demo_trusted = ''9.9.9.9''"
proof -
  have h: "hostOnly ''9.9.9.9:5'' = ''9.9.9.9''"
    by (simp add: hostOnly_def SplitHostPort_def go_contains_def Let_def)
  have "\<not> inAny (IPv4 151587081) demo_trusted"
    by (simp add: inAny_def demo_trusted_def prefix_contains_def Unmap_def)
  then have "\<not> peerTrusted demo_pa demo_request demo_trusted"
    by (simp add: peerTrusted_def demo_request_def h demo_pa_def)
  moreover have "same_but_headers demo_request demo_forged"
    by (simp add: same_but_headers_def demo_forged_def)
  ultimately show ?thesis
    using client_address_is_not_forgeable[of demo_request demo_forged demo_pa demo_trusted] h
    by (simp add: demo_request_def)
qed

section \<open>Rate limiting\<close>

text \<open>The token bucket, over the floating-point operations it uses: \<open>f_le\<close>, \<open>f_less\<close> and the arithmetic, the
  conversion of an integer and \<open>Duration.Seconds\<close>. The map of buckets is an association list with
  distinct keys.\<close>

record 'f float_ops =
  f_less :: "'f \<Rightarrow> 'f \<Rightarrow> bool"
  f_le :: "'f \<Rightarrow> 'f \<Rightarrow> bool"
  f_add :: "'f \<Rightarrow> 'f \<Rightarrow> 'f"
  f_sub :: "'f \<Rightarrow> 'f \<Rightarrow> 'f"
  f_mul :: "'f \<Rightarrow> 'f \<Rightarrow> 'f"
  f_int :: "int \<Rightarrow> 'f"
  f_seconds :: "duration \<Rightarrow> 'f"

record 'f bucket =
  tokens :: 'f
  bk_last :: gotime

record 'f rateLimiter =
  rps :: 'f
  burst :: 'f
  buckets :: "(string \<times> 'f bucket) list"

definition newRateLimiter :: "'f float_ops \<Rightarrow> 'f \<Rightarrow> int \<Rightarrow> 'f rateLimiter" where
  "newRateLimiter F r b =
     \<lparr>rps = (if f_le F r (f_int F 0) then f_int F 5 else r), burst = f_int F (if b \<le> 0 then 30 else b), buckets = []\<rparr>"

definition refill :: "'f float_ops \<Rightarrow> gotime \<Rightarrow> 'f rateLimiter \<Rightarrow> 'f bucket \<Rightarrow> 'f" where
  "refill F now rl b =
     (let t = f_add F (tokens b) (f_mul F (f_seconds F (time_sub now (bk_last b))) (rps rl))
      in if f_less F (burst rl) t then burst rl else t)"

definition allow :: "'f float_ops \<Rightarrow> gotime \<Rightarrow> string \<Rightarrow> 'f rateLimiter \<Rightarrow> bool \<times> 'f rateLimiter" where
  "allow F now key rl =
     (case map_of (buckets rl) key of
        None \<Rightarrow>
          if 50000 < length (buckets rl) then (True, rl)
          else (True, rl\<lparr>buckets := AList.update key \<lparr>tokens = f_sub F (burst rl) (f_int F 1), bk_last = now\<rparr> (buckets rl)\<rparr>)
      | Some b \<Rightarrow>
          let t = refill F now rl b
          in if f_less F t (f_int F 1)
             then (False, rl\<lparr>buckets := AList.update key \<lparr>tokens = t, bk_last = now\<rparr> (buckets rl)\<rparr>)
             else (True, rl\<lparr>buckets := AList.update key \<lparr>tokens = f_sub F t (f_int F 1), bk_last = now\<rparr> (buckets rl)\<rparr>))"

text \<open>One tick of \<open>cleanup\<close>.\<close>

definition cleanup_buckets :: "gotime \<Rightarrow> 'f rateLimiter \<Rightarrow> 'f rateLimiter" where
  "cleanup_buckets now rl = rl\<lparr>buckets := filter (\<lambda>(k, b). \<not> bk_last b < now - 5 * minute) (buckets rl)\<rparr>"

text \<open>With exact arithmetic.\<close>

definition exact :: "rat float_ops" where
  "exact = \<lparr>f_less = (<), f_le = (\<le>), f_add = (+), f_sub = (-), f_mul = (*), f_int = of_int,
     f_seconds = (\<lambda>d. of_int d / 1000000000)\<rparr>"

lemma allow_known:
  assumes "map_of (buckets rl) key = Some b" "allow exact now key rl = (ok, rl1)"
    "0 \<le> rps rl" "bk_last b \<le> now" "now - bk_last b \<le> max_int64"
  shows "\<exists>b1. map_of (buckets rl1) key = Some b1 \<and> bk_last b1 = now \<and> rps rl1 = rps rl
    \<and> (if ok then 1 else 0) + tokens b1 \<le> tokens b + of_int (now - bk_last b) / 1000000000 * rps rl
    \<and> (0 \<le> tokens b \<and> 0 \<le> burst rl \<longrightarrow> 0 \<le> tokens b1) \<and> burst rl1 = burst rl"
proof -
  have sub: "time_sub now (bk_last b) = now - bk_last b"
    using assms(4,5) by (simp add: time_sub_def min_int64_def)
  let ?t = "refill exact now rl b"
  have t: "?t \<le> tokens b + of_int (now - bk_last b) / 1000000000 * rps rl"
    "0 \<le> tokens b \<and> 0 \<le> burst rl \<longrightarrow> 0 \<le> ?t"
    using assms(3,4) by (simp_all add: refill_def Let_def exact_def sub)
  show ?thesis
    using assms(1,2) t by (auto simp: allow_def Let_def exact_def AList.update_conv' split: if_splits)
qed

end
