(* ===== verification/Session.thy ===== *)
theory Session
  imports Crypto
begin

text \<open>
  \<open>internal/auth/session.go\<close>: the sessions and the lockout after wrong passwords, each method one atomic
  action under the store's mutex. \<open>time.Now()\<close> is the argument \<open>now\<close>, the 32 bytes of \<open>crypto/rand\<close> are
  the argument of \<open>Create\<close>, which panics without them. A cookie is what is handed to \<open>http.SetCookie\<close>,
  the cookies of a request are the pairs of name and value \<open>net/http\<close> read from it, in their order.
\<close>

section \<open>State\<close>

record attempt =
  failures :: int
  lockUntil :: gotime

record session_store =
  sessions :: "string \<rightharpoonup> gotime"
  ttl :: duration
  attempts :: "string \<rightharpoonup> attempt"

definition New_store :: "duration \<Rightarrow> session_store" where
  "New_store t = \<lparr>sessions = Map.empty, ttl = t, attempts = Map.empty\<rparr>"

section \<open>Operations\<close>

definition Create :: "string \<Rightarrow> gotime \<Rightarrow> session_store \<Rightarrow> string \<times> session_store" where
  "Create b now s = (let token = hex_encode b in (token, s\<lparr>sessions := (sessions s)(token \<mapsto> now + ttl s)\<rparr>))"

definition Valid :: "gotime \<Rightarrow> string \<Rightarrow> session_store \<Rightarrow> bool" where
  "Valid now token s \<longleftrightarrow>
     token \<noteq> [] \<and> (case sessions s token of None \<Rightarrow> False | Some e \<Rightarrow> now < e)"

definition Delete :: "string \<Rightarrow> session_store \<Rightarrow> session_store" where
  "Delete token s = s\<lparr>sessions := (sessions s)(token := None)\<rparr>"

text \<open>\<open>subtle.ConstantTimeCompare\<close> is equality of the two byte strings.\<close>

definition CheckPassword :: "string \<Rightarrow> string \<Rightarrow> bool" where
  "CheckPassword provided expected \<longleftrightarrow> provided = expected"

definition Locked :: "gotime \<Rightarrow> string \<Rightarrow> session_store \<Rightarrow> bool" where
  "Locked now ip s \<longleftrightarrow> (case attempts s ip of None \<Rightarrow> False | Some a \<Rightarrow> now < lockUntil a)"

definition RecordFailure :: "gotime \<Rightarrow> string \<Rightarrow> session_store \<Rightarrow> session_store" where
  "RecordFailure now ip s =
     (let a = (case attempts s ip of None \<Rightarrow> \<lparr>failures = 0, lockUntil = zero_time\<rparr> | Some a \<Rightarrow> a);
          a1 = a\<lparr>failures := failures a + 1\<rparr>;
          a2 = (if 5 \<le> failures a1 then a1\<lparr>lockUntil := now + 15 * minute, failures := 0\<rparr> else a1)
      in s\<lparr>attempts := (attempts s)(ip \<mapsto> a2)\<rparr>)"

definition RecordSuccess :: "string \<Rightarrow> session_store \<Rightarrow> session_store" where
  "RecordSuccess ip s = s\<lparr>attempts := (attempts s)(ip := None)\<rparr>"

text \<open>One tick of \<open>periodicCleanup\<close>.\<close>

definition cleanup_sessions :: "gotime \<Rightarrow> session_store \<Rightarrow> session_store" where
  "cleanup_sessions now s =
     s\<lparr>sessions := (\<lambda>t. case sessions s t of None \<Rightarrow> None | Some e \<Rightarrow> if e < now then None else Some e),
       attempts := (\<lambda>ip. case attempts s ip of None \<Rightarrow> None
                         | Some a \<Rightarrow> if lockUntil a < now \<and> failures a = 0 then None else Some a)\<rparr>"

section \<open>Cookies\<close>

definition cookieName :: string where "cookieName = ''spottr_session''"

datatype same_site = SameSiteDefaultMode | SameSiteLaxMode | SameSiteStrictMode | SameSiteNoneMode

record http_cookie =
  ck_Name :: string
  ck_Value :: string
  ck_Path :: string
  ck_MaxAge :: int
  ck_HttpOnly :: bool
  ck_Secure :: bool
  ck_SameSite :: same_site

definition SetCookie :: "string \<Rightarrow> duration \<Rightarrow> bool \<Rightarrow> http_cookie" where
  "SetCookie token t secure =
     \<lparr>ck_Name = cookieName, ck_Value = token, ck_Path = ''/'', ck_MaxAge = whole_units t second,
      ck_HttpOnly = True, ck_Secure = secure, ck_SameSite = SameSiteLaxMode\<rparr>"

definition ClearCookie :: http_cookie where
  "ClearCookie =
     \<lparr>ck_Name = cookieName, ck_Value = [], ck_Path = ''/'', ck_MaxAge = -1,
      ck_HttpOnly = True, ck_Secure = False, ck_SameSite = SameSiteLaxMode\<rparr>"

definition TokenFromRequest :: "(string \<times> string) list \<Rightarrow> string" where
  "TokenFromRequest cookies = (case map_of cookies cookieName of None \<Rightarrow> [] | Some v \<Rightarrow> v)"

section \<open>Sessions\<close>

lemma Valid_Create: "b \<noteq> [] \<Longrightarrow> 0 < ttl s \<Longrightarrow> Create b now s = (token, s') \<Longrightarrow> Valid now token s'"
  by (cases b) (auto simp: Create_def Valid_def Let_def hex_encode_def)

lemma Valid_Delete: "\<not> Valid now token (Delete token s)"
  by (simp add: Valid_def Delete_def)

lemma Valid_cleanup: "Valid now token (cleanup_sessions now s) = Valid now token s"
  by (auto simp: Valid_def cleanup_sessions_def split: option.splits)

section \<open>The lockout\<close>

text \<open>The password check as the login handler makes it, from the check of the lock to the record of the
  outcome; and what else happens to the store. \<open>Login ip good\<close> is an attempt from \<open>ip\<close> with the right
  (\<open>good\<close>) or a wrong password.\<close>

datatype session_act = Login string bool | Cleanup | Mint string | Drop string

definition act :: "gotime \<Rightarrow> session_act \<Rightarrow> session_store \<Rightarrow> session_store" where
  "act now a s =
     (case a of
        Login ip good \<Rightarrow>
          if Locked now ip s then s
          else if good then RecordSuccess ip s
          else RecordFailure now ip s
      | Cleanup \<Rightarrow> cleanup_sessions now s
      | Mint b \<Rightarrow> snd (Create b now s)
      | Drop token \<Rightarrow> Delete token s)"

text \<open>How many wrong passwords from an address are compared at all in a run.\<close>

fun guesses :: "string \<Rightarrow> (gotime \<times> session_act) list \<Rightarrow> session_store \<Rightarrow> nat" where
  "guesses ip [] s = 0"
| "guesses ip ((now, a) # as) s =
     (if a = Login ip False \<and> \<not> Locked now ip s then 1 else 0) + guesses ip as (act now a s)"

definition attempts_ok :: "session_store \<Rightarrow> bool" where
  "attempts_ok s \<longleftrightarrow> (\<forall>ip a. attempts s ip = Some a \<longrightarrow> 0 \<le> failures a \<and> failures a < 5)"

lemma attempts_ok_act: "attempts_ok s \<Longrightarrow> attempts_ok (act now a s)"
  by (auto simp: attempts_ok_def act_def RecordFailure_def RecordSuccess_def cleanup_sessions_def Create_def
      Delete_def Let_def split: session_act.splits option.splits if_splits)

interpretation lockout: invariant "\<lambda>s. \<exists>t. s = New_store t" "\<lambda>s s'. \<exists>now a. s' = act now a s" attempts_ok
  by unfold_locales (auto simp: New_store_def attempts_ok_def[of "\<lparr>sessions = Map.empty, ttl = _, attempts = Map.empty\<rparr>"]
      intro: attempts_ok_act)

text \<open>What is left of the five guesses before the end of a window: none when the lock outlasts it.\<close>

definition guesses_left :: "gotime \<Rightarrow> string \<Rightarrow> session_store \<Rightarrow> int" where
  "guesses_left fin ip s =
     (case attempts s ip of None \<Rightarrow> 5 | Some a \<Rightarrow> if fin \<le> lockUntil a then 0 else 5 - failures a)"

lemma guesses_left_act:
  assumes "attempts_ok s" "now < fin" "fin \<le> now + 15 * minute" "a \<noteq> Login ip True"
  shows "(if a = Login ip False \<and> \<not> Locked now ip s then 1 else 0) + guesses_left fin ip (act now a s)
    \<le> guesses_left fin ip s"
proof (cases a)
  case (Login i good)
  show ?thesis
  proof (cases "i = ip")
    case True
    then have g: "\<not> good" using Login assms(4) by simp
    show ?thesis
    proof (cases "attempts s ip")
      case None
      then show ?thesis using Login True g assms(2) 
        by (auto simp: act_def Locked_def RecordFailure_def Let_def guesses_left_def)
    next
      case (Some b)
      then have "0 \<le> failures b" "failures b < 5" using assms(1) by (auto simp: attempts_ok_def)
      with Some show ?thesis using Login True g assms(2,3)
        by (auto simp: act_def Locked_def RecordFailure_def Let_def guesses_left_def)
    qed
  next
    case False
    then show ?thesis using Login
      by (auto simp: act_def Locked_def RecordFailure_def RecordSuccess_def Let_def guesses_left_def)
  qed
next
  case Cleanup
  have "failures b = 0 \<Longrightarrow> lockUntil b < now \<Longrightarrow> \<not> fin \<le> lockUntil b" for b using assms(2) by simp
  with Cleanup show ?thesis
    by (auto simp: act_def cleanup_sessions_def guesses_left_def split: option.splits)
qed (auto simp: act_def Create_def Delete_def Let_def guesses_left_def)

lemma guesses_bound:
  assumes "attempts_ok s" "\<forall>(now, a)\<in>set tr. now < fin \<and> fin \<le> now + 15 * minute \<and> a \<noteq> Login ip True"
  shows "int (guesses ip tr s) \<le> guesses_left fin ip s"
  using assms
proof (induction tr arbitrary: s)
  case Nil
  then show ?case by (auto simp: guesses_left_def attempts_ok_def split: option.splits) (metis less_imp_le)
next
  case (Cons e tr)
  obtain now a where e: "e = (now, a)" by fastforce
  with Cons.prems(2) have h: "now < fin" "fin \<le> now + 15 * minute" "a \<noteq> Login ip True" by auto
  have "int (guesses ip tr (act now a s)) \<le> guesses_left fin ip (act now a s)"
    using Cons.IH[OF attempts_ok_act[OF Cons.prems(1)]] Cons.prems(2) by simp
  with guesses_left_act[OF Cons.prems(1) h] show ?case by (auto simp: e split: if_splits)
qed



text \<open>The lock is read before the password is compared and written after: requests in flight together
  are not bounded. \<open>enter\<close> is the check, \<open>leave\<close> the record of a wrong password.\<close>

inductive flight_step :: "gotime \<Rightarrow> string \<Rightarrow> session_store \<times> nat \<times> nat \<Rightarrow> session_store \<times> nat \<times> nat \<Rightarrow> bool" for now ip where
  enter: "\<not> Locked now ip s \<Longrightarrow> flight_step now ip (s, pending, compared) (s, pending + 1, compared + 1)"
| leave: "flight_step now ip (s, pending + 1, compared) (RecordFailure now ip s, pending, compared)"

lemma flights: "\<not> Locked now ip s \<Longrightarrow> (flight_step now ip)\<^sup>*\<^sup>* (s, p, k) (s, p + n, k + n)"
proof (induction n)
  case (Suc n)
  from Suc.IH[OF Suc.prems] flight_step.enter[OF Suc.prems, of "p + n" "k + n"] show ?case by simp
qed simp

text \<open>Requests that are in flight at the same time escape the lockout: for every number there is a run in
  which that many wrong passwords from one address are compared at one instant, since the lock is
  consulted before the comparison and set only after it.\<close>

theorem concurrent_guesses_escape_the_lockout:
  "\<exists>st pending. (flight_step now ip)\<^sup>*\<^sup>* (New_store t, 0, 0) (st, pending, n)"
  using flights[of now ip "New_store t" 0 0 n] by (auto simp: Locked_def New_store_def)

end
