(* ===== verification/Password.thy ===== *)
theory Password
  imports Prelude
begin

text \<open>
  \<open>internal/spotnet/password.go\<close>: the archive password a poster wrote in a description. The two regular
  expressions are written out as matchers; \<open>(?i)\<close> folds ASCII letters and the long s (U+017F), as
  \<open>regexp\<close> does, and \<open>\b\<close> and \<open>\s\<close> are ASCII, as in RE2.
\<close>

section \<open>Markup\<close>

text \<open>\<open>strings.NewReplacer\<close>: at each byte the first pair whose old string stands there.\<close>

function replace_pairs :: "(string \<times> string) list \<Rightarrow> string \<Rightarrow> string" where
  "replace_pairs ps s =
     (if s = [] then []
      else (case find (\<lambda>(old, new). old \<noteq> [] \<and> has_prefix s old) ps of
              Some (old, new) \<Rightarrow> new @ replace_pairs ps (drop (length old) s)
            | None \<Rightarrow> hd s # replace_pairs ps (tl s)))"
  by pat_completeness auto
termination
  by (relation "measure (\<lambda>(ps, s). length s)") (auto simp: find_Some_iff)

declare replace_pairs.simps [simp del]

definition line_breaks :: "(string \<times> string) list" where
  "line_breaks = [(''[br]'', [CHR 0x0A]), (''[BR]'', [CHR 0x0A]), (''<br>'', [CHR 0x0A]), (''<br/>'', [CHR 0x0A]),
     (''<br />'', [CHR 0x0A]), ([CHR 0x0D], [])]"

text \<open>The length of the match of \<open>bbTag\<close> at the head of a string.\<close>

definition bb_tag :: "string \<Rightarrow> nat option" where
  "bb_tag s =
     (if \<not> has_prefix s ''['' then None
      else let r1 = tl s;
               r2 = (if has_prefix r1 ''/'' then tl r1 else r1);
               name = takeWhile ascii_letter r2;
               r3 = drop (length name) r2
           in if name = [] then None
              else if has_prefix r3 '']'' then Some (length s - length r3 + 1)
              else if has_prefix r3 ''=''
              then let r4 = dropWhile (\<lambda>c. c \<noteq> CHR '']'') r3
                   in if r4 = [] then None else Some (length s - length r4 + 1)
              else None)"

function strip_tags :: "string \<Rightarrow> string" where
  "strip_tags s =
     (if s = [] then []
      else (case bb_tag s of
              Some n \<Rightarrow> if n = 0 then s else strip_tags (drop n s)
            | None \<Rightarrow> hd s # strip_tags (tl s)))"
  by pat_completeness auto
termination
  by (relation "measure length") auto

declare strip_tags.simps [simp del]

section \<open>Labels\<close>

definition labels :: "string list" where
  "labels = [''wachtwoord'', ''password'', ''passwort'', ''pass'', ''pw'', ''ww'']"

definition noPassword :: "string list" where
  "noPassword = [''geen'', ''niet'', ''zonder'', ''none'', ''nvt'', ''n/a'', ''not needed'', ''no password'',
     ''nodig'', ''required'', ''benodigd'']"

definition word_byte :: "char \<Rightarrow> bool" where
  "word_byte c \<longleftrightarrow> ascii_letter c \<or> is_digit c \<or> c = CHR ''_''"

text \<open>A word at the head of a string, in any case: what follows it.\<close>

fun match_word :: "string \<Rightarrow> string \<Rightarrow> string option" where
  "match_word [] s = Some s"
| "match_word (p # ps) s =
     (case s of
        [] \<Rightarrow> None
      | c # t \<Rightarrow>
          if lower_char c = p then match_word ps t
          else if p = CHR ''s'' \<and> has_prefix s [CHR 0xC5, CHR 0xBF] then match_word ps (drop 2 s)
          else None)"

definition skip_spaces :: "string \<Rightarrow> string" where
  "skip_spaces s = dropWhile (\<lambda>c. c \<in> set [CHR '' '', CHR 0x09, CHR 0x0A, CHR 0x0C, CHR 0x0D]) s"

text \<open>The label at the head of a string, where \<open>prv\<close> is the byte before it and both ends are word boundaries:
  the value after the colon or the equals sign.\<close>

definition label_value :: "char option \<Rightarrow> string \<Rightarrow> string \<Rightarrow> string option" where
  "label_value prv s word =
     (let w = (case prv of None \<Rightarrow> False | Some b \<Rightarrow> word_byte b)
      in case match_word word s of
           None \<Rightarrow> None
         | Some r \<Rightarrow>
             let consumed = take (length s - length r) s;
                 boundary = (w \<noteq> word_byte (hd s)) \<and>
                   (word_byte (last consumed) \<noteq> (r \<noteq> [] \<and> word_byte (hd r)));
                 r1 = skip_spaces r
             in if boundary \<and> (has_prefix r1 '':'' \<or> has_prefix r1 ''='') \<and> skip_spaces (tl r1) \<noteq> []
                then Some (skip_spaces (tl r1)) else None)"

fun first_value :: "string list \<Rightarrow> char option \<Rightarrow> string \<Rightarrow> string option" where
  "first_value [] prv s = None"
| "first_value (w # ws) prv s =
     (case label_value prv s w of Some v \<Rightarrow> Some v | None \<Rightarrow> first_value ws prv s)"

text \<open>The leftmost match of \<open>passwordLine\<close> in a line: its second group.\<close>

fun find_value :: "char option \<Rightarrow> string \<Rightarrow> string option" where
  "find_value prv [] = None"
| "find_value prv (c # t) =
     (case first_value labels prv (c # t) of Some v \<Rightarrow> Some v | None \<Rightarrow> find_value (Some c) t)"

section \<open>The hint\<close>

definition acceptable :: "string \<Rightarrow> bool" where
  "acceptable value \<longleftrightarrow>
     (if value = [] \<or> value = ''-'' \<or> 64 < length value \<or> 3 < length (go_fields value) then False
      else let lower = to_lower value in list_all (\<lambda>w. \<not> go_contains lower w) noPassword)"

fun hint_lines :: "string list \<Rightarrow> string" where
  "hint_lines [] = []"
| "hint_lines (line # ls) =
     (case find_value None (trim_space line) of
        None \<Rightarrow> hint_lines ls
      | Some m \<Rightarrow>
          let value = trim_set (trim_space m) [CHR 0x22, CHR 0x27]
          in if acceptable value then value else hint_lines ls)"

definition PasswordHint :: "string \<Rightarrow> string" where
  "PasswordHint description =
     hint_lines (split_on (CHR 0x0A) (strip_tags (replace_pairs line_breaks description)))"

lemma hint_lines_acceptable: "hint_lines ls \<noteq> [] \<Longrightarrow> acceptable (hint_lines ls)"
  by (induction ls) (auto simp: Let_def split: option.splits)

text \<open>A suggested password is short, of three words at most, and never a phrase saying that there is none.\<close>

lemma PasswordHint_acceptable:
  "PasswordHint d \<noteq> [] \<Longrightarrow> length (PasswordHint d) \<le> 64 \<and> length (go_fields (PasswordHint d)) \<le> 3
     \<and> list_all (\<lambda>w. \<not> go_contains (to_lower (PasswordHint d)) w) noPassword"
  using hint_lines_acceptable[of "split_on (CHR 0x0A) (strip_tags (replace_pairs line_breaks d))"]
  by (auto simp: PasswordHint_def[symmetric] acceptable_def Let_def split: if_splits)

end
