(* ===== verification/Url.thy ===== *)
theory Url
  imports Prelude "HOL-Library.List_Lexorder" "HOL-Library.Char_ord"
begin

text \<open>
  \<open>net/url\<close> as the program uses it: the escaping of query components, the values of a query with
  \<open>Set\<close> and \<open>Encode\<close> (which writes them by key), and the parsing of a query. The values are the list of
  their entries, in the order of the keys; every key has one value.
\<close>

definition upper_hex :: "nat \<Rightarrow> char" where "upper_hex n = ''0123456789ABCDEF'' ! n"

definition unreserved :: "char \<Rightarrow> bool" where
  "unreserved c \<longleftrightarrow> ascii_letter c \<or> is_digit c \<or> c \<in> set ''-_.~''"

definition escape_char :: "char \<Rightarrow> string" where
  "escape_char c =
     (if unreserved c then [c]
      else if c = CHR '' '' then ''+''
      else [CHR ''%'', upper_hex (of_char c div 16), upper_hex (of_char c mod 16)])"

definition QueryEscape :: "string \<Rightarrow> string" where
  "QueryEscape s = concat (map escape_char s)"

definition unhex :: "char \<Rightarrow> nat option" where
  "unhex c =
     (let n = (of_char c :: nat)
      in if is_digit c then Some (n - 48)
         else if 97 \<le> n \<and> n \<le> 102 then Some (n - 97 + 10)
         else if 65 \<le> n \<and> n \<le> 70 then Some (n - 65 + 10)
         else None)"

fun QueryUnescape :: "string \<Rightarrow> string option" where
  "QueryUnescape [] = Some []"
| "QueryUnescape (c # s) =
     (if c = CHR ''%''
      then (case s of
              a # b # t \<Rightarrow>
                (case (unhex a, unhex b) of
                   (Some x, Some y) \<Rightarrow> map_option ((#) (char_of (16 * x + y))) (QueryUnescape t)
                 | _ \<Rightarrow> None)
            | _ \<Rightarrow> None)
      else map_option ((#) (if c = CHR ''+'' then CHR '' '' else c)) (QueryUnescape s))"

type_synonym url_values = "(string \<times> string) list"

fun values_Set :: "string \<Rightarrow> string \<Rightarrow> url_values \<Rightarrow> url_values" where
  "values_Set k v [] = [(k, v)]"
| "values_Set k v ((k', v') # r) =
     (if k = k' then (k, v) # r
      else if k < k' then (k, v) # (k', v') # r
      else (k', v') # values_Set k v r)"

definition Encode :: "url_values \<Rightarrow> string" where
  "Encode vs = go_join (map (\<lambda>(k, v). QueryEscape k @ ''='' @ QueryEscape v) vs) ''&''"

text \<open>\<open>strings.Cut\<close> at a byte, and the entries of a query; an entry that cannot be read is left out.\<close>

definition cut_at :: "char \<Rightarrow> string \<Rightarrow> string \<times> string" where
  "cut_at c s = (takeWhile (\<lambda>x. x \<noteq> c) s, drop 1 (dropWhile (\<lambda>x. x \<noteq> c) s))"

definition query_entry :: "string \<Rightarrow> (string \<times> string) option" where
  "query_entry e =
     (if CHR '';'' \<in> set e \<or> e = [] then None
      else (case cut_at (CHR ''='') e of
              (k, v) \<Rightarrow> (case (QueryUnescape k, QueryUnescape v) of
                            (Some k', Some v') \<Rightarrow> Some (k', v')
                          | _ \<Rightarrow> None)))"

definition ParseQuery :: "string \<Rightarrow> url_values" where
  "ParseQuery q = List.map_filter query_entry (split_on (CHR ''&'') q)"

section \<open>Round trip\<close>

lemma unhex_upper_hex: "n < 16 \<Longrightarrow> unhex (upper_hex n) = Some n"
proof -
  assume "n < 16"
  then have "n \<in> set [0..<16]" by simp
  moreover have "list_all (\<lambda>n. unhex (upper_hex n) = Some n) [0..<16]" by code_simp
  ultimately show ?thesis by (simp only: list_all_iff)
qed

lemma QueryUnescape_escape_char: "QueryUnescape (escape_char c @ s) = map_option ((#) c) (QueryUnescape s)"
proof (cases "unreserved c \<or> c = CHR '' ''")
  case True
  then have "c \<noteq> CHR ''%''" "c \<noteq> CHR ''+''" by (auto simp: unreserved_def ascii_letter_def lower_char_def is_digit_def)
  with True show ?thesis by (auto simp: escape_char_def)
next
  case False
  have "(of_char c :: nat) < 256" by simp
  then have "unhex (upper_hex (of_char c div 16)) = Some (of_char c div 16)"
    "unhex (upper_hex (of_char c mod 16)) = Some (of_char c mod 16)"
    by (intro unhex_upper_hex; simp add: less_mult_imp_div_less)+
  with False show ?thesis by (simp add: escape_char_def)
qed

lemma QueryUnescape_QueryEscape [simp]: "QueryUnescape (QueryEscape s) = Some s"
  by (induction s) (simp_all add: QueryEscape_def QueryUnescape_escape_char)

definition separators :: "char set" where
  "separators = {CHR ''&'', CHR ''='', CHR '';''}"

lemma upper_hex_plain: "n < 16 \<Longrightarrow> upper_hex n \<notin> separators"
  using unhex_upper_hex[of n] by (auto simp: separators_def unhex_def is_digit_def)

lemma QueryEscape_plain: "c \<in> separators \<Longrightarrow> c \<notin> set (QueryEscape s)"
proof (induction s)
  case (Cons x s)
  have "(of_char x :: nat) < 256" by simp
  then have "upper_hex (of_char x div 16) \<notin> separators" "upper_hex (of_char x mod 16) \<notin> separators"
    by (intro upper_hex_plain; simp add: less_mult_imp_div_less)+
  moreover have "x \<notin> separators" if "unreserved x"
    using that by (auto simp: unreserved_def separators_def ascii_letter_def lower_char_def is_digit_def)
  ultimately have "c \<notin> set (escape_char x)" using Cons.prems by (auto simp: escape_char_def separators_def)
  with Cons show ?case by (simp add: QueryEscape_def)
qed (simp add: QueryEscape_def)

lemma query_entry_pair: "query_entry (QueryEscape k @ ''='' @ QueryEscape v) = Some (k, v)"
proof -
  have plain: "CHR ''='' \<notin> set (QueryEscape k)" "CHR '';'' \<notin> set (QueryEscape k)" "CHR '';'' \<notin> set (QueryEscape v)"
    by (simp_all add: QueryEscape_plain separators_def)
  have "cut_at (CHR ''='') (QueryEscape k @ CHR ''='' # QueryEscape v) = (QueryEscape k, QueryEscape v)"
    using plain(1) by (simp add: cut_at_def takeWhile_append dropWhile_append)
  with plain show ?thesis by (simp add: query_entry_def)
qed

lemma ParseQuery_Encode: "vs \<noteq> [] \<Longrightarrow> ParseQuery (Encode vs) = vs"
proof (induction vs)
  case (Cons e vs)
  obtain k v where e: "e = (k, v)" by (cases e)
  have plain: "CHR ''&'' \<notin> set (QueryEscape k @ ''='' @ QueryEscape v)"
    by (simp add: QueryEscape_plain separators_def)
  show ?case
  proof (cases "vs = []")
    case True
    then show ?thesis
      using query_entry_pair plain by (simp add: e ParseQuery_def Encode_def split_on_no_sep List.map_filter_simps)
  next
    case False
    have "Encode (e # vs) = (QueryEscape k @ ''='' @ QueryEscape v) @ CHR ''&'' # Encode vs"
      using False by (simp add: e Encode_def go_join_Cons)
    with Cons.IH[OF False] split_on_append_sep[OF plain, of "Encode vs"] query_entry_pair show ?thesis
      by (simp add: e ParseQuery_def List.map_filter_simps)
  qed
qed simp

end
