(* ===== verification/Sabnzbd.thy ===== *)
theory Sabnzbd
  imports Url Config Complex_Main
begin

text \<open>
  \<open>internal/sabnzbd/client.go\<close>: the client of SABnzbd's API. SABnzbd answers a request with a status and
  a body, or not at all: that, the decoding of its JSON and the random boundary of a multipart body are
  the fields of \<open>sab_world\<close>. JSON numbers are rationals.
\<close>

section \<open>Types\<close>

record Client =
  baseURL :: string
  sab_apiKey :: string

record QueueItem =
  qi_ID :: string
  qi_Filename :: string
  qi_Status :: string
  qi_SizeMB :: rat
  qi_LeftMB :: rat
  qi_Percent :: string
  qi_Category :: string

record QueueResponse =
  qr_Status :: string
  qr_SpeedKB :: string
  qr_SizeMB :: string
  qr_LeftMB :: string
  qr_Items :: "QueueItem list"
  qr_PageItems :: int

record AddNZBResponse =
  ar_Status :: bool
  ar_NzoIDs :: "string list"

datatype http_request = HTTP_GET string | HTTP_POST string string string

record sab_world =
  http :: "http_request \<Rightarrow> (int \<times> string) option"
  boundary :: string
  json_added :: "string \<Rightarrow> AddNZBResponse option"
  json_categories :: "string \<Rightarrow> string list option"
  json_queue :: "string \<Rightarrow> QueueResponse option"

datatype sab_error = RequestFailed | BadStatus int | DecodeFailed | AddFailed

section \<open>Requests\<close>

definition New_client :: "'f Config \<Rightarrow> Client" where
  "New_client c =
     \<lparr>baseURL = (if SABTLS c then ''https'' else ''http'') @ ''://'' @ SABHost c @ '':'' @ show_int (SABPort c)
        @ ''/sabnzbd/api'',
      sab_apiKey = SABAPIKey c\<rparr>"

definition baseParams :: "Client \<Rightarrow> url_values" where
  "baseParams c = values_Set ''output'' ''json'' (values_Set ''apikey'' (sab_apiKey c) [])"

definition endpoint :: "Client \<Rightarrow> url_values \<Rightarrow> string" where
  "endpoint c params = baseURL c @ ''?'' @ Encode params"

definition get_params :: "Client \<Rightarrow> url_values \<Rightarrow> sab_world \<Rightarrow> sab_error + int \<times> string" where
  "get_params c params W =
     (case http W (HTTP_GET (endpoint c params)) of None \<Rightarrow> Inl RequestFailed | Some resp \<Rightarrow> Inr resp)"

definition decode_with :: "(string \<Rightarrow> 'a option) \<Rightarrow> int \<times> string \<Rightarrow> sab_error + 'a" where
  "decode_with json resp = (case json (snd resp) of None \<Rightarrow> Inl DecodeFailed | Some x \<Rightarrow> Inr x)"

definition Ping :: "Client \<Rightarrow> sab_world \<Rightarrow> sab_error option" where
  "Ping c W =
     (case get_params c (values_Set ''mode'' ''version'' (baseParams c)) W of
        Inl e \<Rightarrow> Some e
      | Inr (status, _) \<Rightarrow> if status \<noteq> 200 then Some (BadStatus status) else None)"

definition added :: "sab_world \<Rightarrow> int \<times> string \<Rightarrow> sab_error + string list" where
  "added W resp =
     (case decode_with (json_added W) resp of
        Inl e \<Rightarrow> Inl e
      | Inr r \<Rightarrow> if \<not> ar_Status r then Inl AddFailed else Inr (ar_NzoIDs r))"

definition addurl_params :: "Client \<Rightarrow> string \<Rightarrow> string \<Rightarrow> string \<Rightarrow> url_values" where
  "addurl_params c nzbURL name category =
     (let p = values_Set ''nzbname'' name (values_Set ''name'' nzbURL (values_Set ''mode'' ''addurl'' (baseParams c)))
      in if category \<noteq> [] then values_Set ''cat'' category p else p)"

definition AddNZBByURL :: "Client \<Rightarrow> string \<Rightarrow> string \<Rightarrow> string \<Rightarrow> sab_world \<Rightarrow> sab_error + string list" where
  "AddNZBByURL c nzbURL name category W =
     (case get_params c (addurl_params c nzbURL name category) W of
        Inl e \<Rightarrow> Inl e
      | Inr resp \<Rightarrow> added W resp)"

text \<open>\<open>multipart.Writer\<close> with one file: the content type and the body.\<close>

definition escapeQuotes :: "string \<Rightarrow> string" where
  "escapeQuotes s = concat (map (\<lambda>c. if c = CHR 0x5C then [CHR 0x5C, CHR 0x5C]
     else if c = CHR 0x22 then [CHR 0x5C, CHR 0x22] else [c]) s)"

definition crlf :: string where "crlf = [CHR 0x0D, CHR 0x0A]"

definition buildMultipart :: "sab_world \<Rightarrow> string \<Rightarrow> string \<Rightarrow> string \<Rightarrow> string \<times> string" where
  "buildMultipart W fieldName filename content =
     (''--'' @ boundary W @ crlf
        @ ''Content-Disposition: form-data; name='' @ [CHR 0x22] @ escapeQuotes fieldName @ [CHR 0x22]
        @ ''; filename='' @ [CHR 0x22] @ escapeQuotes filename @ [CHR 0x22] @ crlf
        @ ''Content-Type: application/octet-stream'' @ crlf @ crlf
        @ content @ crlf @ ''--'' @ boundary W @ ''--'' @ crlf,
      ''multipart/form-data; boundary='' @ boundary W)"

definition addfile_params :: "Client \<Rightarrow> string \<Rightarrow> string \<Rightarrow> string \<Rightarrow> url_values" where
  "addfile_params c name category password =
     (let p = values_Set ''nzbname'' name (values_Set ''mode'' ''addfile'' (baseParams c));
          p1 = (if category \<noteq> [] then values_Set ''cat'' category p else p)
      in if password \<noteq> [] then values_Set ''password'' password p1 else p1)"

definition AddNZBContent ::
  "Client \<Rightarrow> string \<Rightarrow> string \<Rightarrow> string \<Rightarrow> string \<Rightarrow> sab_world \<Rightarrow> sab_error + string list" where
  "AddNZBContent c nzbContent name category password W =
     (case buildMultipart W ''nzbfile'' (name @ ''.nzb'') nzbContent of
        (body, contentType) \<Rightarrow>
          (case http W (HTTP_POST (endpoint c (addfile_params c name category password)) contentType body) of
             None \<Rightarrow> Inl RequestFailed
           | Some resp \<Rightarrow> added W resp))"

definition sab_Categories :: "Client \<Rightarrow> sab_world \<Rightarrow> sab_error + string list" where
  "sab_Categories c W =
     (case get_params c (values_Set ''mode'' ''get_cats'' (baseParams c)) W of
        Inl e \<Rightarrow> Inl e
      | Inr resp \<Rightarrow> decode_with (json_categories W) resp)"

definition GetQueue :: "Client \<Rightarrow> int \<Rightarrow> int \<Rightarrow> sab_world \<Rightarrow> sab_error + QueueResponse" where
  "GetQueue c start limit W =
     (case get_params c (values_Set ''limit'' (show_int limit) (values_Set ''start'' (show_int start)
              (values_Set ''mode'' ''queue'' (baseParams c)))) W of
        Inl e \<Rightarrow> Inl e
      | Inr resp \<Rightarrow> decode_with (json_queue W) resp)"

section \<open>What SABnzbd is told\<close>

text \<open>SABnzbd as it listens at the client's address: it reads the form values of the query, and of an upload
  the content type and the body.\<close>

definition listener ::
  "Client \<Rightarrow> (url_values \<Rightarrow> (string \<times> string) option \<Rightarrow> (int \<times> string) option) \<Rightarrow> http_request
   \<Rightarrow> (int \<times> string) option" where
  "listener c sab req =
     (let read = (\<lambda>u upload. if has_prefix u (baseURL c @ ''?'')
                             then sab (ParseQuery (drop (length (baseURL c) + 1) u)) upload else None)
      in case req of HTTP_GET u \<Rightarrow> read u None | HTTP_POST u t b \<Rightarrow> read u (Some (t, b)))"

lemma listener_endpoint:
  assumes "vs \<noteq> []"
  shows "listener c sab (HTTP_GET (endpoint c vs)) = sab vs None"
    and "listener c sab (HTTP_POST (endpoint c vs) t b) = sab vs (Some (t, b))"
proof -
  have "has_prefix (endpoint c vs) (baseURL c @ ''?'')" by (simp add: endpoint_def has_prefix_iff)
  moreover have "drop (length (baseURL c) + 1) (endpoint c vs) = Encode vs" by (simp add: endpoint_def)
  ultimately show "listener c sab (HTTP_GET (endpoint c vs)) = sab vs None"
    "listener c sab (HTTP_POST (endpoint c vs) t b) = sab vs (Some (t, b))"
    using ParseQuery_Encode[OF assms] by (simp_all add: listener_def Let_def)
qed

lemma key_order:
  "\<not> ''output'' < ''apikey''" "\<not> ''mode'' < ''apikey''" "''mode'' < ''output''"
  "\<not> ''nzbname'' < ''apikey''" "\<not> ''nzbname'' < ''mode''" "''nzbname'' < ''output''"
  "\<not> ''name'' < ''apikey''" "\<not> ''name'' < ''mode''" "''name'' < ''output''" "\<not> ''nzbname'' < ''name''"
  "\<not> ''cat'' < ''apikey''" "''cat'' < ''mode''"
  "\<not> ''password'' < ''apikey''" "\<not> ''password'' < ''cat''" "\<not> ''password'' < ''mode''"
  "\<not> ''password'' < ''nzbname''" "\<not> ''password'' < ''output''"
  "\<not> ''start'' < ''apikey''" "\<not> ''start'' < ''mode''" "\<not> ''start'' < ''output''"
  "\<not> ''limit'' < ''apikey''" "''limit'' < ''mode''"
  by code_simp+

lemma params_eqs:
  "addfile_params c name category password =
     [(''apikey'', sab_apiKey c)] @ (if category = [] then [] else [(''cat'', category)])
     @ [(''mode'', ''addfile''), (''nzbname'', name), (''output'', ''json'')]
     @ (if password = [] then [] else [(''password'', password)])"
  "addurl_params c nzbURL name category =
     [(''apikey'', sab_apiKey c)] @ (if category = [] then [] else [(''cat'', category)])
     @ [(''mode'', ''addurl''), (''name'', nzbURL), (''nzbname'', name), (''output'', ''json'')]"
  "values_Set ''limit'' l (values_Set ''start'' st (values_Set ''mode'' m (baseParams c))) =
     [(''apikey'', sab_apiKey c), (''limit'', l), (''mode'', m), (''output'', ''json''), (''start'', st)]"
  "values_Set ''mode'' m (baseParams c) = [(''apikey'', sab_apiKey c), (''mode'', m), (''output'', ''json'')]"
  by (simp_all add: addfile_params_def addurl_params_def baseParams_def key_order Let_def)

text \<open>C38: SABnzbd is told exactly what the caller says. Whatever bytes the API key, the name, the category,
  the password or the URL contain (separators, percent signs, spaces, line ends), the request that
  reaches SABnzbd carries them as the values of their own fields and no other field: a title taken
  from Usenet cannot add, replace or cut off a parameter. A refusal, a missing answer and an
  unreadable one are errors.\<close>

theorem sabnzbd_is_told_what_was_said:
  "AddNZBContent c nzb name category password (W\<lparr>http := listener c sab\<rparr>) =
     (case sab ([(''apikey'', sab_apiKey c)] @ (if category = [] then [] else [(''cat'', category)])
              @ [(''mode'', ''addfile''), (''nzbname'', name), (''output'', ''json'')]
              @ (if password = [] then [] else [(''password'', password)]))
            (Some (prod.swap (buildMultipart W ''nzbfile'' (name @ ''.nzb'') nzb))) of
        None \<Rightarrow> Inl RequestFailed
      | Some resp \<Rightarrow> added W resp)
   \<and> AddNZBByURL c nzbURL name category (W\<lparr>http := listener c sab\<rparr>) =
     (case sab ([(''apikey'', sab_apiKey c)] @ (if category = [] then [] else [(''cat'', category)])
              @ [(''mode'', ''addurl''), (''name'', nzbURL), (''nzbname'', name), (''output'', ''json'')]) None of
        None \<Rightarrow> Inl RequestFailed
      | Some resp \<Rightarrow> added W resp)"
proof -
  let ?W = "W\<lparr>http := listener c sab\<rparr>"
  have same: "added ?W = added W" "buildMultipart ?W = buildMultipart W"
    by (simp_all add: added_def buildMultipart_def fun_eq_iff)
  show ?thesis
    by (simp add: AddNZBContent_def AddNZBByURL_def get_params_def same listener_endpoint params_eqs
        split: prod.split option.split)
qed

end
