(* ===== verification/Categories.thy ===== *)
theory Categories
  imports Prelude
begin

text \<open>
  \<open>internal/spotnet/categories.go\<close>: the main categories and the names of the subcategories. The names go
  by bit, as the first version of Spotnet numbered them; nothing in the program reads them, and the
  subcategories it stores are the codes of the \<open>Kind\<close> and \<open>Parser\<close> theories.
\<close>

definition CatImage :: int where "CatImage = 0"
definition CatAudio :: int where "CatAudio = 1"
definition CatGame :: int where "CatGame = 2"
definition CatApp :: int where "CatApp = 3"

record SubCategory =
  sub_Slot :: string
  sub_Bit :: int
  sub_Name :: string

record Category =
  cat_ID :: int
  cat_Name :: string
  cat_Subs :: "SubCategory list"

definition MainCategories :: "Category list" where
  "MainCategories =
     [\<lparr>cat_ID = CatImage, cat_Name = ''Image'', cat_Subs = []\<rparr>,
      \<lparr>cat_ID = CatAudio, cat_Name = ''Audio'', cat_Subs = []\<rparr>,
      \<lparr>cat_ID = CatGame, cat_Name = ''Game'', cat_Subs = []\<rparr>,
      \<lparr>cat_ID = CatApp, cat_Name = ''Application'', cat_Subs = []\<rparr>]"

definition SubCategoryNames :: "string \<rightharpoonup> string" where
  "SubCategoryNames = map_of
     [(''0.a.1'', ''SD''), (''0.a.2'', ''HD''), (''0.a.4'', ''UHD''), (''0.b.1'', ''Film''),
      (''0.b.2'', ''Series''), (''0.b.4'', ''Clip''), (''0.b.8'', ''Documentary''),
      (''0.b.16'', ''Sports''), (''0.c.1'', ''Dutch''), (''0.c.2'', ''English''),
      (''0.c.4'', ''German''), (''0.c.8'', ''French''), (''0.d.1'', ''Animated''),
      (''0.d.2'', ''Adult''), (''1.a.1'', ''MP3''), (''1.a.2'', ''Lossless''),
      (''1.a.4'', ''Audiobook''), (''1.a.8'', ''Radio''), (''1.b.1'', ''Pop''), (''1.b.2'', ''Rock''),
      (''1.b.4'', ''Electronic''), (''1.b.8'', ''Classical''), (''1.b.16'', ''HipHop''),
      (''1.b.32'', ''Jazz''), (''1.b.64'', ''World''), (''1.c.1'', ''Dutch''), (''1.c.2'', ''English''),
      (''1.c.4'', ''German''), (''1.c.8'', ''French''), (''2.a.1'', ''PC''),
      (''2.a.2'', ''PlayStation''), (''2.a.4'', ''Xbox''), (''2.a.8'', ''Nintendo''),
      (''2.a.16'', ''Mobile''), (''2.a.32'', ''Other''), (''3.a.1'', ''Windows''),
      (''3.a.2'', ''MacOS''), (''3.a.4'', ''Linux''), (''3.a.8'', ''Android''), (''3.a.16'', ''iOS''),
      (''3.b.1'', ''Utility''), (''3.b.2'', ''Office''), (''3.b.4'', ''Graphics''),
      (''3.b.8'', ''Security'')]"

definition CategoryName :: "int \<Rightarrow> string" where
  "CategoryName cat =
     (if cat = CatImage then ''Image''
      else if cat = CatAudio then ''Audio''
      else if cat = CatGame then ''Game''
      else if cat = CatApp then ''Application''
      else ''Unknown'')"

text \<open>The two lists of main categories agree, and a category outside them has no name.\<close>

lemma CategoryName_main:
  "CategoryName c = (case find (\<lambda>m. cat_ID m = c) MainCategories of Some m \<Rightarrow> cat_Name m | None \<Rightarrow> ''Unknown'')"
  by (simp add: CategoryName_def MainCategories_def CatImage_def CatAudio_def CatGame_def CatApp_def)

end
