(* ===== verification/Api.thy ===== *)
theory Api
  imports Web Session Password Sync Sabnzbd Categories
begin

text \<open>
  \<open>internal/api/router.go\<close>: the handlers. A handler takes the application, what lies outside it, the
  request and the state (the database, the sessions, what \<open>pool.Get\<close> will give and the connections
  handed back with their \<open>broken\<close> mark), and returns the response as a status and a payload with the
  new state. The log and the encoding of payloads as JSON, XML and headers are left out.
  The XML and flate decoders, SQLite's MATCH, the clock and SABnzbd are fields of \<open>outside\<close>.
\<close>

section \<open>State, responses\<close>

text \<open>The counters of \<open>metrics.go\<close>. The sum of the durations is kept as the durations in the order in which they
  were added; \<open>request_seconds\<close> is the \<open>atomicFloat\<close> that comes of them.\<close>

record metrics =
  metricRequests :: int
  metricServerErrors :: int
  metricRateLimited :: int
  metricNZBFetches :: int
  metricNZBCacheHits :: int
  metricNZBFailures :: int
  metricNNTPDialFail :: int
  metricAuthFailures :: int
  metricDurations :: "duration list"

definition no_metrics :: metrics where
  "no_metrics = \<lparr>metricRequests = 0, metricServerErrors = 0, metricRateLimited = 0, metricNZBFetches = 0,
     metricNZBCacheHits = 0, metricNZBFailures = 0, metricNNTPDialFail = 0, metricAuthFailures = 0, metricDurations = []\<rparr>"

definition request_seconds :: "'f float_ops \<Rightarrow> metrics \<Rightarrow> 'f" where
  "request_seconds F m = foldl (\<lambda>acc d. f_add F acc (f_seconds F d)) (f_int F 0) (metricDurations m)"

record api_io =
  adb :: database
  asess :: session_store
  gives :: "conn option list"
  returned :: "(conn \<times> bool) list"
  counters :: metrics

text \<open>\<open>Add(1)\<close> on one of them.\<close>

definition Add1 :: "((int \<Rightarrow> int) \<Rightarrow> metrics \<Rightarrow> metrics) \<Rightarrow> api_io \<Rightarrow> api_io" where
  "Add1 counter s = s\<lparr>counters := counter (\<lambda>n. n + 1) (counters s)\<rparr>"

record outside =
  now_at :: gotime
  took :: duration
  os_random :: string
  x_user_key :: "string \<Rightarrow> (string \<times> string) option"
  x_spot :: "string \<Rightarrow> Posting option"
  inflater :: "string \<Rightarrow> string \<times> bool"
  fts5 :: "string \<Rightarrow> fts_doc \<Rightarrow> bool"
  sab_outside :: sab_world

record 'f app =
  cfg :: "'f Config"
  apiKey :: string
  sab :: "Client option"

record feed_item =
  it_Title :: string
  it_GUID :: string
  it_PubDate :: gotime
  it_URL :: string
  it_Length :: int
  it_Category :: string
  it_Poster :: string

datatype payload =
    PError string
  | PSpots "Spot list" int int int "int option"
  | PSpot Spot string
  | PNZB string string
  | PImage string string
  | PQueued "string list"
  | PAuth bool bool
  | PLogin bool "http_cookie option"
  | PFeed "feed_item list" int int
  | PCaps string
  | PNewznabError int
  | PCategories "Category list"
  | PConfig bool bool bool string
  | PSabCategories "string list"
  | PQueue QueueResponse
  | PMetrics metrics int int
  | PText string

type_synonym response = "int \<times> payload"

definition api_db :: "'a sql \<Rightarrow> api_io \<Rightarrow> (sql_error + 'a) \<times> api_io" where
  "api_db f s = (case f (adb s) of (r, d) \<Rightarrow> (r, s\<lparr>adb := d\<rparr>))"

definition parseIntOr :: "string \<Rightarrow> int \<Rightarrow> int" where
  "parseIntOr s def = (case parse_int s of (n, None) \<Rightarrow> n | (_, Some _) \<Rightarrow> def)"

section \<open>Fetching from Usenet\<close>

datatype fetch_error =
    LeaseFailed
  | FetchFailed nntp_error
  | EnrichFailed enrich_error
  | NZBFailed nzb_error
  | TooManySegments nat

definition leaseNNTP :: "'f app \<Rightarrow> api_io \<Rightarrow> conn option \<times> api_io" where
  "leaseNNTP A s =
     (case gives s of
        [] \<Rightarrow> (None, Add1 metricNNTPDialFail_update s)
      | None # gs \<Rightarrow> (None, Add1 metricNNTPDialFail_update (s\<lparr>gives := gs\<rparr>))
      | Some c # gs \<Rightarrow> (Some (SetMaxArticleBytes (MaxArticleBytes (cfg A)) c), s\<lparr>gives := gs\<rparr>))"

definition hand_back :: "conn \<Rightarrow> bool \<Rightarrow> api_io \<Rightarrow> api_io" where
  "hand_back c broken s = s\<lparr>returned := (c, broken) # returned s\<rparr>"

definition enrichSpot ::
  "'f app \<Rightarrow> outside \<Rightarrow> Spot \<Rightarrow> api_io \<Rightarrow> (fetch_error option \<times> Spot) \<times> api_io" where
  "enrichSpot A X spot s =
     (case leaseNNTP A s of
        (None, s1) \<Rightarrow> ((Some LeaseFailed, spot), s1)
      | (Some c, s1) \<Rightarrow>
          (case Head (sp_MessageID spot) c of
             (Inl e, c1) \<Rightarrow> ((Some (FetchFailed e), spot), hand_back c1 True s1)
           | (Inr hdrs, c1) \<Rightarrow>
               (case EnrichFromHeaders (x_user_key X) (x_spot X) spot hdrs of
                  (None, spot1) \<Rightarrow> ((None, spot1), hand_back c1 False s1)
                | (Some _, spot1) \<Rightarrow>
                    (case Body (sp_MessageID spot1) c1 of
                       (Inl e, c2) \<Rightarrow> ((Some (FetchFailed e), spot1), hand_back c2 True s1)
                     | (Inr body, c2) \<Rightarrow>
                         (case EnrichFromBody (x_spot X) spot1 body of
                            (err, spot2) \<Rightarrow> ((map_option EnrichFailed err, spot2), hand_back c2 False s1))))))"

definition fetchNZBSegment ::
  "'f app \<Rightarrow> outside \<Rightarrow> string \<Rightarrow> api_io \<Rightarrow> (fetch_error + string) \<times> api_io" where
  "fetchNZBSegment A X nzbID s =
     (case leaseNNTP A s of
        (None, s1) \<Rightarrow> (Inl LeaseFailed, s1)
      | (Some c, s1) \<Rightarrow>
          (case BinaryBody nzbID c of
             (Inl e, c1) \<Rightarrow> (Inl (FetchFailed e), hand_back c1 True s1)
           | (Inr body, c1) \<Rightarrow>
               (case DecodeNZBBodyLimit (inflater X) body (MaxNZBBytes (cfg A)) of
                  Inl e \<Rightarrow> (Inl (NZBFailed e), hand_back c1 False s1)
                | Inr nzb \<Rightarrow> (Inr nzb, hand_back c1 False s1))))"

definition maxImageSegments :: nat where "maxImageSegments = 16"

text \<open>The loop over the segments, each appended while the whole stays under the article limit.\<close>

fun image_loop :: "int \<Rightarrow> string list \<Rightarrow> string \<Rightarrow> conn \<Rightarrow> (nntp_error + string) \<times> conn \<times> bool" where
  "image_loop limit [] all c = (Inr all, c, False)"
| "image_loop limit (seg # segs) all c =
     (case BinaryBody seg c of
        (Inl e, c1) \<Rightarrow> (Inl e, c1, True)
      | (Inr body, c1) \<Rightarrow>
          if limit < int (length all) + int (length body) then (Inl ArticleTooLarge, c1, False)
          else image_loop limit segs (all @ body) c1)"

definition fetchImageSegments :: "'f app \<Rightarrow> string list \<Rightarrow> api_io \<Rightarrow> (fetch_error + string) \<times> api_io" where
  "fetchImageSegments A segments s =
     (if maxImageSegments < length segments then (Inl (TooManySegments (length segments)), s)
      else (case leaseNNTP A s of
              (None, s1) \<Rightarrow> (Inl LeaseFailed, s1)
            | (Some c, s1) \<Rightarrow>
                (case image_loop (MaxArticleBytes (cfg A)) segments [] c of
                   (Inl e, c1, broken) \<Rightarrow> (Inl (FetchFailed e), hand_back c1 broken s1)
                 | (Inr all, c1, broken) \<Rightarrow> (Inr (DecodeImageBody all), hand_back c1 broken s1))))"

definition detectImageMIME :: "string \<Rightarrow> string" where
  "detectImageMIME dat =
     (if has_prefix dat [CHR 0xFF, CHR 0xD8] then ''image/jpeg''
      else if has_prefix dat [CHR 0x89, CHR 0x50, CHR 0x4E, CHR 0x47, CHR 0x0D, CHR 0x0A, CHR 0x1A, CHR 0x0A]
      then ''image/png''
      else if has_prefix dat ''GIF87a'' \<or> has_prefix dat ''GIF89a'' then ''image/gif''
      else ''image/jpeg'')"

definition sanitizeFilename :: "string \<Rightarrow> string" where
  "sanitizeFilename s =
     take 80 (map (\<lambda>c. if c \<in> set [CHR ''/'', CHR 0x5C, CHR '':'', CHR ''*'', CHR ''?'', CHR 0x22, CHR ''<'',
       CHR ''>'', CHR ''|''] then CHR ''-'' else c) s)"

section \<open>Listings\<close>

definition clampPaging :: "'f Config \<Rightarrow> int \<Rightarrow> int \<Rightarrow> int \<times> int" where
  "clampPaging c limit0 offset0 =
     (let limit1 = (if limit0 < 1 then 25 else limit0);
          limit = (if MaxPageSize c < limit1 then MaxPageSize c else limit1);
          offset1 = (if offset0 < 0 then 0 else offset0);
          offset = (if MaxOffset c < offset1 then MaxOffset c else offset1)
      in (limit, offset))"

definition includeAdult :: "bool \<Rightarrow> int list \<Rightarrow> bool" where
  "includeAdult serverAllows ks \<longleftrightarrow> serverAllows \<and> length ks = 1 \<and> hd ks = KindErotic"

definition hiddenAdult :: "'f Config \<Rightarrow> Spot option \<Rightarrow> bool" where
  "hiddenAdult c spot \<longleftrightarrow> (case spot of None \<Rightarrow> False | Some s \<Rightarrow> sp_IsAdult s \<and> \<not> cfg_AllowAdult c)"

definition no_params :: SearchParams where
  "no_params = \<lparr>Query = [], Categories = [], q_Poster = [], MinSize = 0, MaxSize = 0, Since = zero_time,
     Limit = 0, Offset = 0, Before = zero_time, SortBy = [], AllowAdult = False, Kinds = [],
     AdultOnly = False, AnyOf = [], q_Tag = [], SubCodes = []\<rparr>"

text \<open>The parameters \<open>listSpots\<close> makes of a query.\<close>

definition list_params :: "'f Config \<Rightarrow> (string \<Rightarrow> string) \<Rightarrow> SearchParams" where
  "list_params c q =
     (let (limit, offset) = clampPaging c (parseIntOr (q ''limit'') 25) (parseIntOr (q ''offset'') 0);
          before = parseIntOr (q ''before'') 0;
          cats = (if q ''cat'' = [] then []
                  else List.map_filter (\<lambda>x. case parse_int x of (n, None) \<Rightarrow> Some n | _ \<Rightarrow> None)
                         (split_on (CHR '','') (q ''cat'')));
          subs = (if q ''sub'' = [] then []
                  else filter ValidSubCode
                         (map (\<lambda>x. to_lower (trim_space x)) (split_on (CHR '','') (q ''sub''))));
          ks = (if q ''kind'' = [] then []
                else List.map_filter (\<lambda>k. KindNames (trim_space k)) (split_on (CHR '','') (q ''kind'')));
          adult = includeAdult (cfg_AllowAdult c) ks
      in no_params\<lparr>Query := q ''q'', q_Poster := q ''poster'', Limit := limit, Offset := offset,
           Before := (if 0 < before then unix_time before else zero_time), Categories := cats,
           q_Tag := trim_space (q ''tag''), SubCodes := subs, Kinds := ks, AllowAdult := adult,
           AdultOnly := adult, SortBy := q ''sort''\<rparr>)"

definition listSpots :: "'f app \<Rightarrow> outside \<Rightarrow> request \<Rightarrow> api_io \<Rightarrow> response \<times> api_io" where
  "listSpots A X r s =
     (let p = list_params (cfg A) (rq_query r)
      in case api_db (SearchSpots (fts5 X) p) s of
           (Inl _, s1) \<Rightarrow> ((500, PError ''search failed''), s1)
         | (Inr (ss, cnt), s1) \<Rightarrow>
             ((200, PSpots ss cnt (Limit p) (Offset p)
                      (if ss = [] then None else Some (to_unix (sp_PostedAt (last ss))))), s1))"

section \<open>Newznab\<close>

definition img :: "int \<Rightarrow> int \<times> int" where "img kind = (0, kind)"
definition anyKind :: "int \<Rightarrow> int \<times> int" where "anyKind category = (category, -1)"

text \<open>What one entry of \<open>cat=\<close> adds: the pairs, whether it asks for 18+, and whether for something else.\<close>

definition newznab_cat :: "string \<Rightarrow> (int \<times> int) list \<times> bool \<times> bool" where
  "newznab_cat c0 =
     (let c = trim_space c0
      in if c = [] then ([], False, False)
         else if c = ''7030'' then ([img KindComic], False, True)
         else if c = ''7020'' then ([img KindBook], False, True)
         else if has_prefix c ''7'' then ([img KindBook, img KindComic], False, True)
         else if has_prefix c ''2'' then ([img KindMovie], False, True)
         else if has_prefix c ''5'' then ([img KindSeries], False, True)
         else if has_prefix c ''3'' then ([anyKind 1], False, True)
         else if has_prefix c ''1'' then ([anyKind 2], False, True)
         else if has_prefix c ''4'' then ([anyKind 2, anyKind 3], False, True)
         else if has_prefix c ''6'' then ([], True, False)
         else ([], False, False))"

definition newznabFilter :: "string \<Rightarrow> bool \<Rightarrow> (int \<times> int) list \<times> bool" where
  "newznabFilter cat allowAdult =
     (let cs = map newznab_cat (split_on (CHR '','') cat);
          anyOf = concat (map fst cs);
          adultAsked = list_ex (\<lambda>(_, a, _). a) cs;
          otherAsked = list_ex (\<lambda>(_, _, ot). ot) cs
      in if adultAsked \<and> \<not> otherAsked
         then if \<not> allowAdult then ([(-1, -1)], False) else ([img KindErotic], True)
         else (anyOf, False))"

definition newznabCatID :: "Spot \<Rightarrow> string" where
  "newznabCatID s =
     (if sp_Category s = 0
      then if sp_Kind s = KindSeries then ''5000'' else if sp_Kind s = KindBook then ''7020''
           else if sp_Kind s = KindComic then ''7030'' else if sp_Kind s = KindErotic then ''6000'' else ''2000''
      else if sp_Category s = 1 then ''3000''
      else if sp_Category s = 2 then ''1000''
      else if sp_Category s = 3 then ''4000''
      else ''8000'')"

definition newznab_params :: "'f Config \<Rightarrow> (string \<Rightarrow> string) \<Rightarrow> SearchParams" where
  "newznab_params c q =
     (let (limit0, offset) = clampPaging c (parseIntOr (q ''limit'') 25) (parseIntOr (q ''offset'') 0);
          limit = (if 100 < limit0 then 100 else limit0);
          (anyOf, adultOnly) = newznabFilter (q ''cat'') (cfg_AllowAdult c)
      in no_params\<lparr>Query := q ''q'', Limit := limit, Offset := offset, AnyOf := anyOf, AdultOnly := adultOnly,
           AllowAdult := adultOnly\<rparr>)"

definition feed_of :: "'f app \<Rightarrow> string \<Rightarrow> Spot \<Rightarrow> feed_item" where
  "feed_of A base s =
     \<lparr>it_Title = sp_Title s, it_GUID = sp_MessageID s, it_PubDate = sp_PostedAt s,
      it_URL = base @ ''/v1/spots/'' @ show_int (sp_ID s) @ ''/nzb?apikey='' @ QueryEscape (apiKey A),
      it_Length = sp_Size s, it_Category = newznabCatID s, it_Poster = sp_Poster s\<rparr>"

definition newznabSearch :: "'f app \<Rightarrow> outside \<Rightarrow> peerInfo \<Rightarrow> request \<Rightarrow> api_io \<Rightarrow> response \<times> api_io" where
  "newznabSearch A X info r s =
     (let p = newznab_params (cfg A) (rq_query r)
      in case api_db (SearchSpots (fts5 X) p) s of
           (Inl _, s1) \<Rightarrow> ((200, PNewznabError 300), s1)
         | (Inr (ss, cnt), s1) \<Rightarrow>
             ((200, PFeed (map (feed_of A (requestScheme (Some info) r @ ''://'' @ rq_Host r)) ss)
                      (Offset p) cnt), s1))"

text \<open>The capabilities; a release build overwrites the version.\<close>

definition Version :: string where "Version = ''dev''"

definition newznabCaps :: string where
  "newznabCaps = go_join
     [''<?xml version=\"1.0\" encoding=\"UTF-8\"?>'',
      ''<caps>'',
      ''  <server version=\"'' @ Version @ ''\" title=\"Spottr\" strapline=\"Modern Spotnet indexer\" url=\"\" email=\"\" image=\"\"/>'',
      ''  <limits max=\"100\" default=\"25\"/>'',
      ''  <retention days=\"3000\"/>'',
      ''  <registration available=\"no\" open=\"no\"/>'',
      ''  <searching>'',
      ''    <search available=\"yes\" supportedParams=\"q,cat\"/>'',
      ''    <tv-search available=\"yes\" supportedParams=\"q\"/>'',
      ''    <movie-search available=\"yes\" supportedParams=\"q\"/>'',
      ''  </searching>'',
      ''  <categories>'',
      ''    <category id=\"1000\" name=\"Console\"/>'',
      ''    <category id=\"2000\" name=\"Movies\"/>'',
      ''    <category id=\"3000\" name=\"Audio\">'',
      ''      <subcat id=\"3030\" name=\"Audiobook\"/>'',
      ''    </category>'',
      ''    <category id=\"4000\" name=\"PC\"/>'',
      ''    <category id=\"5000\" name=\"TV\"/>'',
      ''    <category id=\"6000\" name=\"XXX\"/>'',
      ''    <category id=\"7000\" name=\"Books\">'',
      ''      <subcat id=\"7020\" name=\"Ebook\"/>'',
      ''      <subcat id=\"7030\" name=\"Comics\"/>'',
      ''    </category>'',
      ''  </categories>'',
      ''</caps>''] [LF]"

definition newznabHandler :: "'f app \<Rightarrow> outside \<Rightarrow> peerInfo \<Rightarrow> request \<Rightarrow> api_io \<Rightarrow> response \<times> api_io" where
  "newznabHandler A X info r s =
     (let t = rq_query r ''t''
      in if t = ''caps'' then ((200, PCaps newznabCaps), s)
         else if t = ''search'' \<or> t = ''tvsearch'' \<or> t = ''movie'' \<or> t = [] then newznabSearch A X info r s
         else ((200, PNewznabError 202), s))"

section \<open>A spot, its NZB and its image\<close>

text \<open>\<open>chi.URLParam\<close> and \<open>strconv.ParseInt\<close>.\<close>

definition path_id :: "request \<Rightarrow> int option" where
  "path_id r = (case parse_int (rq_id r) of (n, None) \<Rightarrow> Some n | (_, Some _) \<Rightarrow> None)"

text \<open>A panic of a handler ends in \<open>middleware.Recoverer\<close>.\<close>

definition recovered :: response where "recovered = (500, PError [])"

definition getSpot :: "'f app \<Rightarrow> outside \<Rightarrow> request \<Rightarrow> api_io \<Rightarrow> response \<times> api_io" where
  "getSpot A X r s =
     (case path_id r of
        None \<Rightarrow> ((400, PError ''invalid id''), s)
      | Some i \<Rightarrow>
          (case api_db (GetSpotByID i) s of
             (Inl _, s1) \<Rightarrow> ((500, PError ''db error''), s1)
           | (Inr found, s1) \<Rightarrow>
               if found = None \<or> hiddenAdult (cfg A) found then ((404, PError ''not found''), s1)
               else let spot = the found
                    in if sp_NzbID spot = [] \<or> sp_Description spot = []
                       then (case enrichSpot A X spot s1 of
                               ((Some (EnrichFailed EnrichPanic), _), s2) \<Rightarrow> (recovered, s2)
                             | ((Some _, spot1), s2) \<Rightarrow>
                                 ((200, PSpot spot1 (PasswordHint (sp_Description spot1))), s2)
                             | ((None, spot1), s2) \<Rightarrow>
                                 (case api_db (UpdateSpotEnrichment spot1) s2 of
                                    (_, s3) \<Rightarrow> ((200, PSpot spot1 (PasswordHint (sp_Description spot1))), s3)))
                       else ((200, PSpot spot (PasswordHint (sp_Description spot))), s1)))"

text \<open>The failures of \<open>resolveNZB\<close>, with the status they are answered with.\<close>

datatype nzb_failure = NZBStatus int string | NZBPanic

definition resolve_cached ::
  "'f app \<Rightarrow> outside \<Rightarrow> Spot \<Rightarrow> api_io \<Rightarrow> (nzb_failure + Spot \<times> string) \<times> api_io" where
  "resolve_cached A X spot s =
     (if sp_NzbID spot = [] then (Inl (NZBStatus 404 ''NZB not available for this spot''), s)
      else (case api_db (GetCachedNZB (sp_NzbID spot)) s of
              (c, s1) \<Rightarrow>
                let cached = (case c of Inr (Some b) \<Rightarrow> b | _ \<Rightarrow> [])
                in if cached \<noteq> [] then (Inr (spot, cached), Add1 metricNZBCacheHits_update s1)
                   else (case fetchNZBSegment A X (sp_NzbID spot) (Add1 metricNZBFetches_update s1) of
                           (Inl _, s2) \<Rightarrow> (Inl (NZBStatus 502 ''NZB fetch failed''), Add1 metricNZBFailures_update s2)
                         | (Inr nzb, s2) \<Rightarrow>
                             (case api_db (CacheNZB (sp_NzbID spot) nzb) s2 of
                                (_, s3) \<Rightarrow> (Inr (spot, nzb), s3)))))"

definition resolveNZB ::
  "'f app \<Rightarrow> outside \<Rightarrow> int \<Rightarrow> api_io \<Rightarrow> (nzb_failure + Spot \<times> string) \<times> api_io" where
  "resolveNZB A X i s =
     (case api_db (GetSpotByID i) s of
        (Inl _, s1) \<Rightarrow> (Inl (NZBStatus 404 ''spot not found''), s1)
      | (Inr found, s1) \<Rightarrow>
          if found = None \<or> hiddenAdult (cfg A) found then (Inl (NZBStatus 404 ''spot not found''), s1)
          else let spot = the found
               in if sp_NzbID spot = []
                  then (case enrichSpot A X spot s1 of
                          ((Some (EnrichFailed EnrichPanic), _), s2) \<Rightarrow> (Inl NZBPanic, s2)
                        | ((Some _, _), s2) \<Rightarrow> (Inl (NZBStatus 502 ''could not fetch spot metadata''), s2)
                        | ((None, spot1), s2) \<Rightarrow>
                            (case api_db (UpdateSpotEnrichment spot1) s2 of
                               (_, s3) \<Rightarrow> resolve_cached A X spot1 s3))
                  else resolve_cached A X spot s1)"

definition writeNZBError :: "nzb_failure \<Rightarrow> response" where
  "writeNZBError e = (case e of NZBStatus st msg \<Rightarrow> (st, PError msg) | NZBPanic \<Rightarrow> recovered)"

definition downloadNZB :: "'f app \<Rightarrow> outside \<Rightarrow> request \<Rightarrow> api_io \<Rightarrow> response \<times> api_io" where
  "downloadNZB A X r s =
     (case path_id r of
        None \<Rightarrow> ((400, PError ''invalid id''), s)
      | Some i \<Rightarrow>
          (case resolveNZB A X i s of
             (Inl e, s1) \<Rightarrow> (writeNZBError e, s1)
           | (Inr (spot, nzb), s1) \<Rightarrow> ((200, PNZB (sanitizeFilename (sp_Title spot) @ ''.nzb'') nzb), s1)))"

text \<open>The request body is the argument \<open>body\<close>: \<open>None\<close> where its JSON does not decode, the empty strings
  where there is none.\<close>

definition sendToSAB ::
  "'f app \<Rightarrow> outside \<Rightarrow> (string \<times> string \<times> string) option \<Rightarrow> request \<Rightarrow> api_io \<Rightarrow> response \<times> api_io" where
  "sendToSAB A X body r s =
     (case sab A of
        None \<Rightarrow> ((503, PError ''SABnzbd not configured''), s)
      | Some client \<Rightarrow>
          (case path_id r of
             None \<Rightarrow> ((400, PError ''invalid id''), s)
           | Some i \<Rightarrow>
               (case body of
                  None \<Rightarrow> ((400, PError ''bad request''), s)
                | Some (name0, category, password) \<Rightarrow>
                    (case resolveNZB A X i s of
                       (Inl e, s1) \<Rightarrow> (writeNZBError e, s1)
                     | (Inr (spot, nzb), s1) \<Rightarrow>
                         let name = (if name0 = [] then sp_Title spot else name0)
                         in (case AddNZBContent client nzb (sanitizeFilename name) category (trim_space password)
                                    (sab_outside X) of
                               Inl _ \<Rightarrow> ((502, PError ''SABnzbd error''), s1)
                             | Inr ids \<Rightarrow> ((200, PQueued ids), s1))))))"

definition sabCategories :: "'f app \<Rightarrow> outside \<Rightarrow> request \<Rightarrow> api_io \<Rightarrow> response \<times> api_io" where
  "sabCategories A X r s =
     (case sab A of
        None \<Rightarrow> ((503, PError ''SABnzbd not configured''), s)
      | Some client \<Rightarrow>
          (case sab_Categories client (sab_outside X) of
             Inl _ \<Rightarrow> ((502, PError ''SABnzbd error''), s)
           | Inr cats \<Rightarrow> ((200, PSabCategories cats), s)))"

definition sabQueue :: "'f app \<Rightarrow> outside \<Rightarrow> request \<Rightarrow> api_io \<Rightarrow> response \<times> api_io" where
  "sabQueue A X r s =
     (case sab A of
        None \<Rightarrow> ((503, PError ''SABnzbd not configured''), s)
      | Some client \<Rightarrow>
          (case GetQueue client 0 20 (sab_outside X) of
             Inl _ \<Rightarrow> ((502, PError ''SABnzbd error''), s)
           | Inr q \<Rightarrow> ((200, PQueue q), s)))"

definition getImage :: "'f app \<Rightarrow> outside \<Rightarrow> request \<Rightarrow> api_io \<Rightarrow> response \<times> api_io" where
  "getImage A X r s =
     (case path_id r of
        None \<Rightarrow> ((404, PError ''404''), s)
      | Some i \<Rightarrow>
          (case api_db (GetSpotByID i) s of
             (Inl _, s1) \<Rightarrow> ((404, PError ''404''), s1)
           | (Inr None, s1) \<Rightarrow> ((404, PError ''404''), s1)
           | (Inr (Some spot), s1) \<Rightarrow>
               if sp_ImageURL spot = [] \<or> hiddenAdult (cfg A) (Some spot) then ((404, PError ''404''), s1)
               else let imageURL = sp_ImageURL spot
                    in if has_prefix imageURL ''http://'' \<or> has_prefix imageURL ''https://'' then ((404, PError ''404''), s1)
                       else if \<not> has_prefix imageURL ''<nntp:'' then ((404, PError ''404''), s1)
                       else let segments = split_on (CHR ''|'') (trim_suffix (trim_prefix imageURL ''<nntp:'') ''>'');
                                cacheKey = hd segments
                            in (case api_db (GetCachedImage cacheKey) s1 of
                                  (c, s2) \<Rightarrow>
                                    let (cached, mime) = (case c of Inr (Some bm) \<Rightarrow> bm | _ \<Rightarrow> ([], []))
                                    in if cached \<noteq> [] then ((200, PImage mime cached), s2)
                                       else (case fetchImageSegments A segments s2 of
                                               (Inl _, s3) \<Rightarrow> ((502, PError ''image unavailable''), s3)
                                             | (Inr dat, s3) \<Rightarrow>
                                                 (case api_db (CacheImage cacheKey dat (detectImageMIME dat)) s3 of
                                                    (_, s4) \<Rightarrow> ((200, PImage (detectImageMIME dat) dat), s4))))))"

section \<open>Authentication\<close>

definition authenticated :: "'f app \<Rightarrow> outside \<Rightarrow> request \<Rightarrow> api_io \<Rightarrow> bool" where
  "authenticated A X r s \<longleftrightarrow> \<not> AuthEnforced (cfg A) \<or> Valid (now_at X) (TokenFromRequest (rq_cookies r)) (asess s)"

definition authStatus :: "'f app \<Rightarrow> outside \<Rightarrow> request \<Rightarrow> api_io \<Rightarrow> response \<times> api_io" where
  "authStatus A X r s = ((200, PAuth (AuthEnforced (cfg A)) (authenticated A X r s)), s)"

definition appConfig :: "'f app \<Rightarrow> outside \<Rightarrow> request \<Rightarrow> api_io \<Rightarrow> response \<times> api_io" where
  "appConfig A X r s =
     ((200, PConfig (cfg_AllowAdult (cfg A)) (AuthEnforced (cfg A)) (authenticated A X r s) Version), s)"

definition authLogin :: "'f app \<Rightarrow> outside \<Rightarrow> string option \<Rightarrow> request \<Rightarrow> api_io \<Rightarrow> response \<times> api_io" where
  "authLogin A X body r s =
     (if \<not> AuthEnforced (cfg A) then ((200, PLogin True None), s)
      else let ip = hostOnly (RemoteAddr r)
           in if Locked (now_at X) ip (asess s) then ((429, PError ''too many attempts, try again later''), s)
              else (case body of
                      None \<Rightarrow> ((400, PError ''invalid request''), s)
                    | Some password \<Rightarrow>
                        if \<not> CheckPassword password (AppPassword (cfg A))
                        then ((401, PError ''invalid credentials''),
                              Add1 metricAuthFailures_update (s\<lparr>asess := RecordFailure (now_at X) ip (asess s)\<rparr>))
                        else (case Create (os_random X) (now_at X) (RecordSuccess ip (asess s)) of
                                (token, ss) \<Rightarrow>
                                  ((200, PLogin True (Some (SetCookie token (SessionDuration (cfg A)) (SecureCookie (cfg A))))),
                                   s\<lparr>asess := ss\<rparr>))))"

definition authLogout :: "request \<Rightarrow> api_io \<Rightarrow> response \<times> api_io" where
  "authLogout r s = ((200, PLogin False (Some ClearCookie)), s\<lparr>asess := Delete (TokenFromRequest (rq_cookies r)) (asess s)\<rparr>)"

type_synonym handler = "request \<Rightarrow> api_io \<Rightarrow> response \<times> api_io"

definition requireAuth :: "'f app \<Rightarrow> outside \<Rightarrow> handler \<Rightarrow> handler" where
  "requireAuth A X next_handler r s =
     (if \<not> AuthEnforced (cfg A) then next_handler r s
      else if Valid (now_at X) (TokenFromRequest (rq_cookies r)) (asess s) then next_handler r s
      else ((401, PError ''unauthorized''), Add1 metricAuthFailures_update s))"

definition validAPIKey :: "'f app \<Rightarrow> request \<Rightarrow> bool" where
  "validAPIKey A r \<longleftrightarrow>
     (let provided = (if rq_query r ''apikey'' = [] then rq_header r ''X-Api-Key'' else rq_query r ''apikey'')
      in apiKey A \<noteq> [] \<and> CheckPassword provided (apiKey A))"

definition signedIn :: "'f app \<Rightarrow> outside \<Rightarrow> peerInfo \<Rightarrow> request \<Rightarrow> api_io \<Rightarrow> bool" where
  "signedIn A X info r s \<longleftrightarrow>
     (if AuthMode (cfg A) = AuthModeOpen then True
      else if AuthMode (cfg A) = AuthModeProxy
      then ProxyAuthHeader (cfg A) \<noteq> [] \<and> fromTrustedProxy (Some info)
           \<and> trim_space (rq_header r (ProxyAuthHeader (cfg A))) \<noteq> []
      else Valid (now_at X) (TokenFromRequest (rq_cookies r)) (asess s))"

definition nzbAccess :: "'f app \<Rightarrow> outside \<Rightarrow> peerInfo \<Rightarrow> handler \<Rightarrow> handler" where
  "nzbAccess A X info next_handler r s =
     (if validAPIKey A r \<or> signedIn A X info r s then next_handler r s
      else ((401, PError ''unauthorized: sign in, or pass the API key''), Add1 metricAuthFailures_update s))"

definition requireAPIKey :: "'f app \<Rightarrow> handler \<Rightarrow> handler" where
  "requireAPIKey A next_handler r s =
     (if \<not> validAPIKey A r then ((401, PNewznabError 100), Add1 metricAuthFailures_update s) else next_handler r s)"

section \<open>Health and metrics\<close>

text \<open>The counters and what is read from the database, where an error leaves 0.\<close>

definition metricsHandler :: "request \<Rightarrow> api_io \<Rightarrow> response \<times> api_io" where
  "metricsHandler r s =
     (case api_db CountSpots s of
        (n, s1) \<Rightarrow> (case api_db CacheBytes s1 of
          (b, s2) \<Rightarrow> ((200, PMetrics (counters s2) (case n of Inr k \<Rightarrow> k | Inl _ \<Rightarrow> 0) (case b of Inr k \<Rightarrow> k | Inl _ \<Rightarrow> 0)), s2)))"

definition healthz :: "request \<Rightarrow> api_io \<Rightarrow> response \<times> api_io" where
  "healthz r s = ((200, PText ''ok''), s)"

definition readyz :: "request \<Rightarrow> api_io \<Rightarrow> response \<times> api_io" where
  "readyz r s =
     (case api_db (query (\<lambda>d. ())) s of
        (Inl _, s1) \<Rightarrow> ((503, PText ''database unavailable''), s1)
      | (Inr _, s1) \<Rightarrow> ((200, PText ''ready''), s1))"

section \<open>The router\<close>

text \<open>The routes but the static files, with the bodies of those that read one. The rate limiter, which
  stands before the routes of \<open>/api\<close> and \<open>/v1\<close>, has let the request through.\<close>

datatype route =
    Newznab
  | AuthStatus
  | AuthLogin "string option"
  | AuthLogout
  | ListSpots
  | GetSpot
  | DownloadNZB
  | GetImage
  | ListCategories
  | SendToSAB "(string \<times> string \<times> string) option"
  | Queue
  | SabCategories
  | Metrics
  | AppConfig
  | Healthz
  | Readyz

definition handle :: "'f app \<Rightarrow> outside \<Rightarrow> peerInfo \<Rightarrow> route \<Rightarrow> handler" where
  "handle A X info rt =
     (case rt of
        Newznab \<Rightarrow> requireAPIKey A (newznabHandler A X info)
      | AuthStatus \<Rightarrow> authStatus A X
      | AuthLogin body \<Rightarrow> authLogin A X body
      | AuthLogout \<Rightarrow> authLogout
      | ListSpots \<Rightarrow> listSpots A X
      | GetSpot \<Rightarrow> getSpot A X
      | DownloadNZB \<Rightarrow> nzbAccess A X info (downloadNZB A X)
      | GetImage \<Rightarrow> getImage A X
      | ListCategories \<Rightarrow> (\<lambda>r s. ((200, PCategories MainCategories), s))
      | SendToSAB body \<Rightarrow> requireAuth A X (sendToSAB A X body)
      | Queue \<Rightarrow> requireAuth A X (sabQueue A X)
      | SabCategories \<Rightarrow> requireAuth A X (sabCategories A X)
      | Metrics \<Rightarrow> requireAuth A X metricsHandler
      | AppConfig \<Rightarrow> appConfig A X
      | Healthz \<Rightarrow> healthz
      | Readyz \<Rightarrow> readyz)"

definition Router ::
  "(string \<Rightarrow> ip_addr option) \<Rightarrow> 'f app \<Rightarrow> outside \<Rightarrow> route \<Rightarrow> handler" where
  "Router pa A X rt r s =
     (case realIP pa (TrustedProxies (cfg A)) r of (info, r1) \<Rightarrow> handle A X info rt r1 s)"

end
