(* ===== verification/Browse.thy ===== *)
theory Browse
  imports Progress Api
begin

text \<open>
  From the news server to the listing: what a chunk of the forward sync indexes is found again by paging
  through the search, with the fields it was parsed with.
\<close>

section \<open>The whole result of a search\<close>

text \<open>Every matching row is on a page.\<close>

lemma on_some_page:
  assumes "faults d = []" "0 < l" "row \<in> set (spots d)" "search_where m p d row"
  shows "\<exists>k. scanSpot row \<in> set (search_page m p d (int k * l) l)"
proof -
  let ?all = "search_page m p d 0 (-1)"
  have "?all = map scanSpot (sort_key (search_order p) (matching m p d))"
    using page_result[OF assms(1), of "-1" m p 0] by (simp add: sql_limit_def)
  then have "scanSpot row \<in> set ?all" using assms(3,4) by (auto simp: matching_def)
  moreover have "take (length ?all * nat l) ?all = ?all" using assms(2) by (cases "nat l") auto
  ultimately have "scanSpot row \<in> set (concat (map (\<lambda>k. search_page m p d (int k * l) l) [0..<length ?all]))"
    by (simp only: search_pages_cover_the_result[OF assms(1,2)])
  then show ?thesis by auto
qed

lemma unfiltered_where: "search_where m no_params d r \<longleftrightarrow> \<not> r_moderated r \<and> \<not> r_is_adult r"
proof -
  have "SanitizeFTSQuery [] = []" by code_simp
  then show ?thesis by (simp add: search_where_def no_params_def)
qed

section \<open>From the news server to the listing\<close>

lemma rows_from_spots: "s \<in> set ss \<Longrightarrow> \<exists>i. row_of_spot s i t \<in> set (rows_from j t ss)"
  by (induction ss arbitrary: j) auto

lemma new_spots_first:
  assumes "s \<in> set ss" "sp_MessageID s \<notin> seen" "\<forall>x\<in>set ss. sp_MessageID x = sp_MessageID s \<longrightarrow> x = s"
  shows "s \<in> set (new_spots seen ss)"
  using assms by (induction ss arbitrary: seen) auto

lemma passing_unmoderated: "passing L wcfg ai = Some s \<Longrightarrow> \<not> sp_Moderated s"
  by (auto simp: passing_def ParseFromOverview_def build_spot_def Let_def split: sum.splits prod.splits option.splits if_splits)



end
