(* ===== verification/Front.thy ===== *)
theory Front
  imports Api
begin

text \<open>
  What stands before the handlers of \<open>router.go\<close>: the rate limiter as a middleware, keyed on the client's
  address, the static files of the frontend and the security headers. The limiter's arithmetic is the
  argument \<open>F\<close>, its clock that of the request; the file system of the frontend says which names open.
\<close>

section \<open>The rate limiter before the routes\<close>

definition limited :: "route \<Rightarrow> bool" where
  "limited rt \<longleftrightarrow> rt \<noteq> Healthz \<and> rt \<noteq> Readyz \<and> rt \<noteq> AppConfig"

definition limiter_middleware ::
  "'f float_ops \<Rightarrow> gotime \<Rightarrow> handler \<Rightarrow> request \<Rightarrow> api_io \<times> 'f rateLimiter \<Rightarrow> response \<times> api_io \<times> 'f rateLimiter" where
  "limiter_middleware F now next_handler r st =
     (case allow F now (hostOnly (RemoteAddr r)) (snd st) of
        (False, rl) \<Rightarrow> ((429, PError ''rate limit exceeded''), Add1 metricRateLimited_update (fst st), rl)
      | (True, rl) \<Rightarrow> (case next_handler r (fst st) of (resp, s1) \<Rightarrow> (resp, s1, rl)))"

text \<open>\<open>requestLogger\<close>, of which the counters are kept. It stands inside \<open>middleware.Recoverer\<close> and counts after
  the handler returned, which a panicking one does not; only a panic is answered with an empty text.\<close>

definition add_duration :: "duration \<Rightarrow> api_io \<Rightarrow> api_io" where
  "add_duration dur s = s\<lparr>counters := metricDurations_update (\<lambda>ds. ds @ [dur]) (counters s)\<rparr>"

definition requestLogger ::
  "duration \<Rightarrow> (request \<Rightarrow> api_io \<times> 'f rateLimiter \<Rightarrow> response \<times> api_io \<times> 'f rateLimiter)
   \<Rightarrow> request \<Rightarrow> api_io \<times> 'f rateLimiter \<Rightarrow> response \<times> api_io \<times> 'f rateLimiter" where
  "requestLogger dur next_handler r st =
     (case next_handler r st of
        (resp, s1, rl) \<Rightarrow>
          if resp = recovered then (resp, s1, rl)
          else let s2 = add_duration dur (Add1 metricRequests_update s1)
               in (resp, if 500 \<le> fst resp then Add1 metricServerErrors_update s2 else s2, rl))"

definition Front ::
  "'f float_ops \<Rightarrow> (string \<Rightarrow> ip_addr option) \<Rightarrow> 'f app \<Rightarrow> outside \<Rightarrow> route \<Rightarrow> request \<Rightarrow> api_io \<times> 'f rateLimiter
   \<Rightarrow> response \<times> api_io \<times> 'f rateLimiter" where
  "Front F pa A X rt r st =
     (case realIP pa (TrustedProxies (cfg A)) r of
        (info, r1) \<Rightarrow>
          requestLogger (took X)
            (\<lambda>r st. if limited rt then limiter_middleware F (now_at X) (handle A X info rt) r st
                     else (case handle A X info rt r (fst st) of (resp, s1) \<Rightarrow> (resp, s1, snd st)))
            r1 st)"

section \<open>Static files\<close>

text \<open>\<open>path.Ext\<close>: from the last dot of the last element.\<close>

definition path_Ext :: "string \<Rightarrow> string" where
  "path_Ext p =
     (let base = rev (takeWhile (\<lambda>c. c \<noteq> CHR ''/'') (rev p))
      in case last_index base ''.'' of None \<Rightarrow> [] | Some i \<Rightarrow> drop i base)"

datatype static_reply = ServeFile string | ServeIndex | NotFound

definition spaHandler :: "(string \<Rightarrow> bool) \<Rightarrow> string \<Rightarrow> static_reply" where
  "spaHandler opens urlPath =
     (let name = trim_prefix urlPath ''/''
      in if opens name then ServeFile name
         else if path_Ext name \<noteq> [] then NotFound
         else if \<not> opens ''index.html'' then NotFound
         else ServeIndex)"

section \<open>Security headers\<close>

definition securityHeaders :: "string \<Rightarrow> (string \<times> string) list" where
  "securityHeaders policy =
     [(''X-Content-Type-Options'', ''nosniff''), (''X-Frame-Options'', ''DENY''),
      (''Referrer-Policy'', ''strict-origin-when-cross-origin''), (''X-XSS-Protection'', ''0''),
      (''Content-Security-Policy'', policy), (''Cross-Origin-Opener-Policy'', ''same-origin''),
      (''Cross-Origin-Resource-Policy'', ''same-origin'')]"

section \<open>The front refines the router\<close>

lemma requestLogger_counts:
  assumes "requestLogger dur next_handler r st = (resp, s1, rl)"
  shows "\<exists>s0 m. next_handler r st = (resp, s0, rl) \<and> s1 = s0\<lparr>counters := m\<rparr>"
proof -
  obtain resp0 s0 rl0 where n: "next_handler r st = (resp0, s0, rl0)" by (metis prod_cases3)
  show ?thesis
  proof (cases "resp0 = recovered")
    case True
    with assms n have "next_handler r st = (resp, s0, rl) \<and> s1 = s0\<lparr>counters := counters s0\<rparr>"
      by (simp add: requestLogger_def)
    then show ?thesis by blast
  next
    case False
    with assms n show ?thesis by (auto simp: requestLogger_def Add1_def add_duration_def Let_def split: if_splits)
  qed
qed

lemma Front_cases:
  assumes "Front F pa A X rt r (s, rl) = (resp, s', rl')"
  shows "\<exists>s1 m. s' = s1\<lparr>counters := m\<rparr>
    \<and> ((resp, s1) = Router pa A X rt r s
       \<or> limited rt \<and> resp = (429, PError ''rate limit exceeded'') \<and> s1 = Add1 metricRateLimited_update s)"
proof -
  obtain info r1 where r1: "realIP pa (TrustedProxies (cfg A)) r = (info, r1)" by fastforce
  let ?route = "\<lambda>r st. if limited rt then limiter_middleware F (now_at X) (handle A X info rt) r st
    else (case handle A X info rt r (fst st) of (resp, s1) \<Rightarrow> (resp, s1, snd st))"
  from assms r1 have "requestLogger (took X) ?route r1 (s, rl) = (resp, s', rl')" by (simp add: Front_def)
  from requestLogger_counts[OF this] obtain s1 m where "?route r1 (s, rl) = (resp, s1, rl')" "s' = s1\<lparr>counters := m\<rparr>"
    by blast
  with r1 show ?thesis
    by (intro exI[of _ s1] exI[of _ m]) (auto simp: Router_def limiter_middleware_def split: prod.splits bool.splits if_splits)
qed

text \<open>A run of requests, each with what it meets outside, and what was answered.\<close>

fun run_front ::
  "'f float_ops \<Rightarrow> (string \<Rightarrow> ip_addr option) \<Rightarrow> 'f app \<Rightarrow> (outside \<times> route \<times> request) list \<Rightarrow> api_io \<times> 'f rateLimiter
   \<Rightarrow> response list" where
  "run_front F pa A [] st = []"
| "run_front F pa A ((X, rt, r) # reqs) st =
     (case Front F pa A X rt r st of (resp, st1) \<Rightarrow> resp # run_front F pa A reqs st1)"

end
