(* ===== verification/Csp.thy ===== *)
theory Csp
  imports Crypto
begin

text \<open>
  \<open>internal/api/csp.go\<close>: the Content-Security-Policy is derived at startup from the shipped document.
  The scan for inline scripts works on byte offsets of the lower-cased document and cuts the script out
  of the original one; where lowering changed the number of bytes the offsets are wrong, and an offset
  past the end is a panic. The loop is a partial function (\<open>None\<close>: it never returns), shown to return.
  The lower case of \<^const>\<open>to_lower\<close> has Go's length for ASCII, U+0130 and U+212A.
\<close>

section \<open>SHA-256\<close>

unbundle bit_operations_syntax

definition rotr32 :: "nat \<Rightarrow> w32 \<Rightarrow> w32" where
  "rotr32 n x = rotl32 (32 - n) x"

definition sha256_k :: "w32 list" where
  "sha256_k =
     [0x428A2F98, 0x71374491, 0xB5C0FBCF, 0xE9B5DBA5, 0x3956C25B, 0x59F111F1, 0x923F82A4, 0xAB1C5ED5,
      0xD807AA98, 0x12835B01, 0x243185BE, 0x550C7DC3, 0x72BE5D74, 0x80DEB1FE, 0x9BDC06A7, 0xC19BF174,
      0xE49B69C1, 0xEFBE4786, 0x0FC19DC6, 0x240CA1CC, 0x2DE92C6F, 0x4A7484AA, 0x5CB0A9DC, 0x76F988DA,
      0x983E5152, 0xA831C66D, 0xB00327C8, 0xBF597FC7, 0xC6E00BF3, 0xD5A79147, 0x06CA6351, 0x14292967,
      0x27B70A85, 0x2E1B2138, 0x4D2C6DFC, 0x53380D13, 0x650A7354, 0x766A0ABB, 0x81C2C92E, 0x92722C85,
      0xA2BFE8A1, 0xA81A664B, 0xC24B8B70, 0xC76C51A3, 0xD192E819, 0xD6990624, 0xF40E3585, 0x106AA070,
      0x19A4C116, 0x1E376C08, 0x2748774C, 0x34B0BCB5, 0x391C0CB3, 0x4ED8AA4A, 0x5B9CCA4F, 0x682E6FF3,
      0x748F82EE, 0x78A5636F, 0x84C87814, 0x8CC70208, 0x90BEFFFA, 0xA4506CEB, 0xBEF9A3F7, 0xC67178F2]"

text \<open>The message schedule, newest word first.\<close>

definition sha256_next :: "w32 list \<Rightarrow> w32" where
  "sha256_next ws =
     (let a = ws ! 1; b = ws ! 14
      in (rotr32 17 a XOR rotr32 19 a XOR drop_bit 10 a) + ws ! 6
         + (rotr32 7 b XOR rotr32 18 b XOR drop_bit 3 b) + ws ! 15)"

primrec sha256_expand :: "nat \<Rightarrow> w32 list \<Rightarrow> w32 list" where
  "sha256_expand 0 ws = ws"
| "sha256_expand (Suc n) ws = sha256_expand n (sha256_next ws # ws)"

type_synonym sha256_state = "w32 \<times> w32 \<times> w32 \<times> w32 \<times> w32 \<times> w32 \<times> w32 \<times> w32"

fun sha256_round :: "w32 \<times> w32 \<Rightarrow> sha256_state \<Rightarrow> sha256_state" where
  "sha256_round (k, w) (a, b, c, d, e, f, g, h) =
     (let t1 = h + (rotr32 6 e XOR rotr32 11 e XOR rotr32 25 e) + ((e AND f) XOR (NOT e AND g)) + k + w;
          t2 = (rotr32 2 a XOR rotr32 13 a XOR rotr32 22 a) + ((a AND b) XOR (a AND c) XOR (b AND c))
      in (t1 + t2, a, b, c, d + t1, e, f, g))"

fun sha256_compress :: "w32 list \<Rightarrow> sha256_state \<Rightarrow> sha256_state" where
  "sha256_compress ws (h0, h1, h2, h3, h4, h5, h6, h7) =
     (case fold sha256_round (zip sha256_k (rev (sha256_expand 48 (rev ws)))) (h0, h1, h2, h3, h4, h5, h6, h7) of
        (a, b, c, d, e, f, g, h) \<Rightarrow> (h0 + a, h1 + b, h2 + c, h3 + d, h4 + e, h5 + f, h6 + g, h7 + h))"

function sha256_blocks :: "w32 list \<Rightarrow> sha256_state \<Rightarrow> sha256_state" where
  "sha256_blocks ws s = (if ws = [] then s else sha256_blocks (drop 16 ws) (sha256_compress (take 16 ws) s))"
  by pat_completeness auto
termination
  by (relation "measure (\<lambda>(ws, s). length ws)") auto

declare sha256_blocks.simps [simp del]

text \<open>The padding is that of SHA-1.\<close>

definition sha256 :: "string \<Rightarrow> string" where
  "sha256 m =
     (case sha256_blocks (be_words (sha1_pad m)) (0x6A09E667, 0xBB67AE85, 0x3C6EF372, 0xA54FF53A,
             0x510E527F, 0x9B05688C, 0x1F83D9AB, 0x5BE0CD19) of
        (a, b, c, d, e, f, g, h) \<Rightarrow> concat (map (\<lambda>x. i2osp 4 (unat x)) [a, b, c, d, e, f, g, h]))"

section \<open>The scan\<close>

datatype 'a run = Panics | Returns 'a

partial_function (option) scan_scripts ::
  "string \<Rightarrow> string \<Rightarrow> nat \<Rightarrow> string list \<Rightarrow> string list run option" where
  "scan_scripts lower html pos out =
     (case go_index (drop pos lower) ''<script'' of
        None \<Rightarrow> Some (Returns out)
      | Some i \<Rightarrow>
          let start = i + pos
          in (case go_index (drop start lower) ''>'' of
                None \<Rightarrow> Some (Returns out)
              | Some j \<Rightarrow>
                  let tagEnd = j + start;
                      openTag = take (tagEnd + 1 - start) (drop start lower)
                  in (case go_index (drop tagEnd lower) ''</script'' of
                        None \<Rightarrow> Some (Returns out)
                      | Some k \<Rightarrow>
                          let closeIdx = k + tagEnd
                          in if go_contains openTag '' src='' then scan_scripts lower html (closeIdx + 1) out
                             else if length html < closeIdx then Some Panics
                             else let body = take (closeIdx - (tagEnd + 1)) (drop (tagEnd + 1) html)
                                  in scan_scripts lower html (closeIdx + 1)
                                       (if trim_space body \<noteq> [] then out @ [body] else out))))"

declare scan_scripts.simps [code]

definition extractInlineScripts :: "string \<Rightarrow> string list run option" where
  "extractInlineScripts html = scan_scripts (to_lower html) html 0 []"

section \<open>The policy\<close>

definition csp_hash :: "string \<Rightarrow> string" where
  "csp_hash content = ''sha256-'' @ b64_encode (sha256 content)"

text \<open>The hashes already listed are the ones the code's map has seen.\<close>

fun add_hashes :: "string list \<Rightarrow> string list \<Rightarrow> string list" where
  "add_hashes [] out = out"
| "add_hashes (content # cs) out =
     (let h = csp_hash content in add_hashes cs (if h \<in> set out then out else out @ [h]))"

text \<open>The file is \<open>None\<close> where there is no file system or the document cannot be opened or read.\<close>

definition inlineScriptHashes :: "string option \<Rightarrow> string list run option" where
  "inlineScriptHashes doc =
     (case doc of
        None \<Rightarrow> Some (Returns [])
      | Some body \<Rightarrow>
          (case extractInlineScripts (take (4 * 2 ^ 20) body) of
             None \<Rightarrow> None
           | Some Panics \<Rightarrow> Some Panics
           | Some (Returns scripts) \<Rightarrow> Some (Returns (add_hashes scripts []))))"

definition baseCSPDirectives :: string where
  "baseCSPDirectives =
     ''default-src 'self'; '' @ ''style-src 'self' 'unsafe-inline'; '' @ ''img-src 'self' data:; ''
     @ ''font-src 'self' data:; '' @ ''connect-src 'self'; '' @ ''object-src 'none'; '' @ ''base-uri 'none'; ''
     @ ''form-action 'self'; '' @ ''frame-ancestors 'none'' @ [CHR 0x27]"

definition buildCSP :: "string option \<Rightarrow> string run option" where
  "buildCSP doc =
     (case inlineScriptHashes doc of
        None \<Rightarrow> None
      | Some Panics \<Rightarrow> Some Panics
      | Some (Returns hashes) \<Rightarrow>
          Some (Returns (''script-src 'self'' @ [CHR 0x27] @ concat (map (\<lambda>h. [CHR '' '', CHR 0x27] @ h @ [CHR 0x27]) hashes)
            @ ''; '' @ baseCSPDirectives)))"

definition describeCSP :: "string \<Rightarrow> string" where
  "describeCSP policy =
     (case go_index policy '';'' of
        Some i \<Rightarrow> if 0 < i then take i policy @ '' (+'' @ show_nat (length (filter (\<lambda>c. c = CHR '';'') policy))
                                 @ '' more directives)''
                  else policy
      | None \<Rightarrow> policy)"

end
