(* ===== verification/Pool.thy ===== *)
theory Pool
  imports Prelude
begin

text \<open>
  \<open>internal/nntp/pool.go\<close>: the bounded pool of connections, at the granularity of its lock. The
  channel \<open>sem\<close> is the number of tokens in it; a goroutine inside \<open>Get\<close> that has its token is counted
  in \<open>getting\<close>, one inside \<open>Dial\<close> in \<open>dialing\<close>, one in \<open>Release\<close> that has given its connection back but
  not yet its token in \<open>returning\<close>. \<open>Close\<close> and \<open>Reap\<close> take connections out under the lock and close them
  after it; in between these are in \<open>closing\<close>. Any number of goroutines interleave: \<open>pool_step\<close> is one
  atomic action of any of them.
\<close>

section \<open>State\<close>

definition idleTimeout :: duration where "idleTimeout = 2 * minute"

record 'c pool =
  cap :: int
  slots :: int
  idle :: "('c \<times> gotime) list"
  getting :: nat
  dialing :: nat
  leased :: "('c \<times> bool) list"
  returning :: nat
  closing :: "'c list"
  closed :: "'c list"

definition NewPool :: "int \<Rightarrow> 'c pool" where
  "NewPool maxConns =
     \<lparr>cap = (if maxConns < 1 then 1 else maxConns), slots = 0, idle = [], getting = 0, dialing = 0,
      leased = [], returning = 0, closing = [], closed = []\<rparr>"

section \<open>Actions\<close>

text \<open>\<open>Get\<close>: taking the token, \<open>None\<close> where the send on \<open>sem\<close> blocks.\<close>

definition get_slot :: "'c pool \<Rightarrow> 'c pool option" where
  "get_slot p = (if slots p < cap p then Some (p\<lparr>slots := slots p + 1, getting := getting p + 1\<rparr>) else None)"

definition stale :: "gotime \<Rightarrow> 'c \<times> gotime \<Rightarrow> bool" where
  "stale now ic \<longleftrightarrow> idleTimeout < time_sub now (snd ic)"

text \<open>One turn of the loop that looks for a warm connection: the last one put back is taken, closed when
  it has been idle too long, and leased otherwise; with none left the goroutine dials.\<close>

definition get_turn :: "gotime \<Rightarrow> 'c pool \<Rightarrow> 'c pool" where
  "get_turn now p =
     (if idle p = [] then p\<lparr>getting := getting p - 1, dialing := dialing p + 1\<rparr>
      else let ic = last (idle p); p1 = p\<lparr>idle := butlast (idle p)\<rparr>
           in if stale now ic then p1\<lparr>closed := fst ic # closed p\<rparr>
              else p1\<lparr>getting := getting p - 1, leased := (fst ic, False) # leased p\<rparr>)"

definition dial_ok :: "'c \<Rightarrow> 'c pool \<Rightarrow> 'c pool" where
  "dial_ok c p = p\<lparr>dialing := dialing p - 1, leased := (c, False) # leased p\<rparr>"

definition dial_failed :: "'c pool \<Rightarrow> 'c pool" where
  "dial_failed p = p\<lparr>dialing := dialing p - 1, slots := slots p - 1\<rparr>"

definition MarkBroken :: "'c \<Rightarrow> 'c pool \<Rightarrow> 'c pool" where
  "MarkBroken c p = p\<lparr>leased := map (\<lambda>(d, b). (d, b \<or> d = c)) (leased p)\<rparr>"

text \<open>\<open>Release\<close> up to the return of the token.\<close>

definition Release :: "gotime \<Rightarrow> 'c \<times> bool \<Rightarrow> 'c pool \<Rightarrow> 'c pool" where
  "Release now l p =
     (let p1 = p\<lparr>leased := remove1 l (leased p), returning := returning p + 1\<rparr>
      in if snd l then p1\<lparr>closed := fst l # closed p\<rparr> else p1\<lparr>idle := idle p @ [(fst l, now)]\<rparr>)"

definition return_slot :: "'c pool \<Rightarrow> 'c pool" where
  "return_slot p = p\<lparr>returning := returning p - 1, slots := slots p - 1\<rparr>"

definition pool_Close :: "'c pool \<Rightarrow> 'c pool" where
  "pool_Close p = p\<lparr>idle := [], closing := map fst (idle p) @ closing p\<rparr>"

definition Reap :: "gotime \<Rightarrow> 'c pool \<Rightarrow> 'c pool" where
  "Reap now p =
     p\<lparr>idle := filter (\<lambda>ic. \<not> stale now ic) (idle p), closing := map fst (filter (stale now) (idle p)) @ closing p\<rparr>"

text \<open>\<open>client.Close()\<close> on a connection that was taken out.\<close>

definition close_client :: "'c \<Rightarrow> 'c pool \<Rightarrow> 'c pool" where
  "close_client c p = p\<lparr>closing := remove1 c (closing p), closed := c # closed p\<rparr>"

text \<open>\<open>RunReaper\<close> by itself: a \<open>Reap\<close> at each tick, and \<open>Close\<close> when the context is done.\<close>

definition RunReaper :: "gotime list \<Rightarrow> 'c pool \<Rightarrow> 'c pool" where
  "RunReaper ticks p = pool_Close (fold Reap ticks p)"

text \<open>A dialled connection is a new socket.\<close>

definition known_conns :: "'c pool \<Rightarrow> 'c set" where
  "known_conns p = fst ` set (idle p) \<union> fst ` set (leased p) \<union> set (closing p) \<union> set (closed p)"

inductive pool_step :: "'c pool \<Rightarrow> 'c pool \<Rightarrow> bool" where
  slot: "get_slot p = Some p' \<Longrightarrow> pool_step p p'"
| turn: "0 < getting p \<Longrightarrow> pool_step p (get_turn now p)"
| dialled: "0 < dialing p \<Longrightarrow> c \<notin> known_conns p \<Longrightarrow> pool_step p (dial_ok c p)"
| dial_err: "0 < dialing p \<Longrightarrow> pool_step p (dial_failed p)"
| broken: "pool_step p (MarkBroken c p)"
| release: "l \<in> set (leased p) \<Longrightarrow> pool_step p (Release now l p)"
| token: "0 < returning p \<Longrightarrow> pool_step p (return_slot p)"
| close_all: "pool_step p (pool_Close p)"
| reap: "pool_step p (Reap now p)"
| closed: "c \<in> set (closing p) \<Longrightarrow> pool_step p (close_client c p)"

inductive_cases pool_stepE: "pool_step p p'"

section \<open>The invariant\<close>

definition pool_inv :: "'c pool \<Rightarrow> bool" where
  "pool_inv p \<longleftrightarrow>
     slots p = int (getting p + dialing p + length (leased p) + returning p) \<and> slots p \<le> cap p
     \<and> int (dialing p + length (leased p) + length (idle p)) \<le> cap p
     \<and> distinct (map fst (idle p) @ map fst (leased p))
     \<and> (set (closing p) \<union> set (closed p)) \<inter> (fst ` set (idle p) \<union> fst ` set (leased p)) = {}"

lemma inv_slot: "pool_inv p \<Longrightarrow> get_slot p = Some p' \<Longrightarrow> pool_inv p'"
  unfolding get_slot_def
  by (cases "slots p < cap p") (clarsimp simp add: pool_inv_def, simp)

lemma inv_turn: "pool_inv p \<Longrightarrow> 0 < getting p \<Longrightarrow> pool_inv (get_turn now p)"
proof (cases "idle p" rule: rev_cases)
  case Nil
  assume "pool_inv p" "0 < getting p"
  with Nil show ?thesis by (auto simp: pool_inv_def get_turn_def)
next
  case (snoc ics ic)
  assume "pool_inv p" "0 < getting p"
  with snoc show ?thesis by (auto simp: pool_inv_def get_turn_def Let_def)
qed

lemma inv_dialled: "pool_inv p \<Longrightarrow> 0 < dialing p \<Longrightarrow> c \<notin> known_conns p \<Longrightarrow> pool_inv (dial_ok c p)"
  by (auto simp: pool_inv_def dial_ok_def known_conns_def)

lemma inv_dial_failed: "pool_inv p \<Longrightarrow> 0 < dialing p \<Longrightarrow> pool_inv (dial_failed p)"
  by (auto simp: pool_inv_def dial_failed_def)

lemma fst_mark: "fst \<circ> (\<lambda>(d, b). (d, b \<or> d = c)) = fst"
  by auto

lemma inv_broken: "pool_inv p \<Longrightarrow> pool_inv (MarkBroken c p)"
  by (simp add: pool_inv_def MarkBroken_def image_comp fst_mark)

lemma inv_release:
  assumes "pool_inv p" "l \<in> set (leased p)"
  shows "pool_inv (Release now l p)"
proof -
  from split_list[OF assms(2)] obtain xs ys where l: "leased p = xs @ l # ys" by blast
  then have "l \<notin> set xs" using assms(1) by (auto simp: pool_inv_def)
  with l have r: "remove1 l (leased p) = xs @ ys" by (simp add: remove1_append)
  show ?thesis using assms(1) l unfolding pool_inv_def Release_def Let_def r
    by (cases l; cases "snd l") auto
qed

lemma inv_return: "pool_inv p \<Longrightarrow> 0 < returning p \<Longrightarrow> pool_inv (return_slot p)"
  by (auto simp: pool_inv_def return_slot_def)

lemma inv_close: "pool_inv p \<Longrightarrow> pool_inv (pool_Close p)"
  by (auto simp: pool_inv_def pool_Close_def)

lemma inv_reap: "pool_inv p \<Longrightarrow> pool_inv (Reap now p)"
proof -
  assume p: "pool_inv p"
  have bound: "int (dialing p + length (leased p) + length (filter (\<lambda>ic. \<not> stale now ic) (idle p))) \<le> cap p"
    using p length_filter_le[of "\<lambda>ic. \<not> stale now ic" "idle p"] unfolding pool_inv_def by linarith
  moreover have "x = y" if "x \<in> set (idle p)" "y \<in> set (idle p)" "fst x = fst y" for x y
    using p that by (auto simp: pool_inv_def distinct_map inj_on_def)
  then have "fst ` {x \<in> set (idle p). stale now x} \<inter> fst ` {x \<in> set (idle p). \<not> stale now x} = {}"
    by blast
  moreover have "fst ` set (idle p) \<inter> fst ` set (leased p) = {}"
    "(set (closing p) \<union> set (closed p)) \<inter> (fst ` set (idle p) \<union> fst ` set (leased p)) = {}"
    using p by (simp_all add: pool_inv_def)
  ultimately have "(set (closing (Reap now p)) \<union> set (closed (Reap now p))) \<inter> (fst ` set (idle (Reap now p)) \<union> fst ` set (leased (Reap now p))) = {}"
    "distinct (map fst (idle (Reap now p)) @ map fst (leased (Reap now p)))"
    using p by (simp add: Reap_def, blast) (use p in \<open>simp add: pool_inv_def Reap_def distinct_map_filter, blast\<close>)
  with p bound show ?thesis by (simp add: pool_inv_def Reap_def)
qed

lemma inv_closed: "pool_inv p \<Longrightarrow> c \<in> set (closing p) \<Longrightarrow> pool_inv (close_client c p)"
proof -
  assume a: "pool_inv p" "c \<in> set (closing p)"
  then have "set (remove1 c (closing p)) \<union> set (c # closed p) \<subseteq> set (closing p) \<union> set (closed p)"
    using set_remove1_subset[of c "closing p"] by auto
  with a(1) show ?thesis unfolding pool_inv_def close_client_def by (simp, blast)
qed

lemma pool_step_inv: "pool_step p p' \<Longrightarrow> pool_inv p \<Longrightarrow> pool_inv p'"
  by (induction rule: pool_step.induct)
    (auto intro: inv_slot inv_turn inv_dialled inv_dial_failed inv_broken inv_release inv_return
      inv_close inv_reap inv_closed)

lemma NewPool_inv: "pool_inv (NewPool n)"
  by (simp add: pool_inv_def NewPool_def)

interpretation conn_pool: invariant "\<lambda>p. p = NewPool n" pool_step pool_inv for n
  by unfold_locales (auto intro: NewPool_inv pool_step_inv)

lemma pool_step_cap: "pool_step p p' \<Longrightarrow> cap p' = cap p"
  by (induction rule: pool_step.induct)
    (auto simp: get_slot_def get_turn_def dial_ok_def dial_failed_def MarkBroken_def Release_def
      return_slot_def pool_Close_def Reap_def close_client_def Let_def split: if_splits)

lemma pool_steps_cap: "pool_step\<^sup>*\<^sup>* p p' \<Longrightarrow> cap p' = cap p"
  by (induction rule: rtranclp_induct) (auto dest: pool_step_cap)


text \<open>Two goroutines and a limit of one: the second waits until the first has given its token back.\<close>

definition demo_pool :: "nat pool" where
  "demo_pool = Release 5 (0, False) (dial_ok 0 (get_turn 0 (the (get_slot (NewPool 1)))))"

lemma demo_pool_eq: "demo_pool = \<lparr>cap = 1, slots = 1, idle = [(0, 5)], getting = 0, dialing = 0, leased = [],
    returning = 1, closing = [], closed = []\<rparr>"
  by (simp add: demo_pool_def Release_def dial_ok_def get_turn_def get_slot_def NewPool_def)

lemma demo_pool_steps: "pool_step\<^sup>*\<^sup>* (NewPool 1) demo_pool"
proof -
  let ?p1 = "the (get_slot (NewPool 1 :: nat pool))" and ?p2 = "get_turn 0 (the (get_slot (NewPool 1 :: nat pool)))"
  have p1: "?p1 = (NewPool 1)\<lparr>slots := 1, getting := 1\<rparr>" by (simp add: get_slot_def NewPool_def)
  have p2: "?p2 = (NewPool 1)\<lparr>slots := 1, getting := 0, dialing := 1\<rparr>"
    unfolding p1 by (simp add: get_turn_def NewPool_def)
  have s1: "pool_step (NewPool 1) ?p1" by (rule pool_step.slot) (simp add: get_slot_def NewPool_def)
  have s2: "pool_step ?p1 ?p2" by (rule pool_step.turn) (simp add: p1)
  have s3: "pool_step ?p2 (dial_ok 0 ?p2)"
    by (rule pool_step.dialled) (simp_all only: p2, simp_all add: known_conns_def NewPool_def)
  have s4: "pool_step (dial_ok 0 ?p2) demo_pool" unfolding demo_pool_def
    by (rule pool_step.release) (simp add: dial_ok_def)
  show ?thesis 
    by (rule converse_rtranclp_into_rtranclp[of pool_step, OF s1], rule converse_rtranclp_into_rtranclp[of pool_step, OF s2],
        rule converse_rtranclp_into_rtranclp[of pool_step, OF s3], rule r_into_rtranclp[of pool_step, OF s4])
qed


section \<open>Connections on their way out\<close>

text \<open>The bound is not one on the provider's side: what \<open>Reap\<close> has taken out under the lock is still open until
  it gets round to closing it, and the pool dials again in the meantime.\<close>

definition demo_reaped :: "nat pool" where
  "demo_reaped = get_turn 999000000000 (the (get_slot (Reap 999000000000 (return_slot demo_pool))))"

lemma reaped_connections_overlap:
  "pool_step\<^sup>*\<^sup>* (NewPool 1) demo_reaped \<and> dialing demo_reaped = 1 \<and> length (closing demo_reaped) = 1"
proof -
  let ?p1 = "return_slot demo_pool" and ?now = "999000000000"
  let ?p2 = "Reap ?now ?p1" and ?p3 = "the (get_slot (Reap ?now (return_slot demo_pool)))"
  note d = demo_pool_eq
  have p2: "?p2 = (NewPool 1)\<lparr>closing := [0]\<rparr>"
    by (simp add: d return_slot_def Reap_def NewPool_def stale_def idleTimeout_def minute_def second_def time_sub_def
        min_int64_def max_int64_def)
  then have p3: "?p3 = (NewPool 1)\<lparr>closing := [0], slots := 1, getting := 1\<rparr>" by (simp add: get_slot_def NewPool_def)
  have "pool_step demo_pool ?p1" by (rule pool_step.token) (simp add: d)
  moreover have "pool_step ?p1 ?p2" by (rule pool_step.reap)
  moreover have "pool_step ?p2 ?p3" by (rule pool_step.slot) (simp add: p2 get_slot_def NewPool_def)
  moreover have "pool_step ?p3 demo_reaped" unfolding demo_reaped_def by (rule pool_step.turn) (simp add: p3)
  ultimately have "pool_step\<^sup>*\<^sup>* demo_pool demo_reaped"
    by (intro converse_rtranclp_into_rtranclp[of pool_step, OF _ converse_rtranclp_into_rtranclp[of pool_step,
          OF _ converse_rtranclp_into_rtranclp[of pool_step, OF _ r_into_rtranclp[of pool_step]]]])
  moreover have "dialing demo_reaped = 1 \<and> length (closing demo_reaped) = 1"
    unfolding demo_reaped_def p3 by (simp add: get_turn_def NewPool_def)
  ultimately show ?thesis using rtranclp_trans[OF demo_pool_steps] by blast
qed

end
