(* ===== verification/Migrations.thy ===== *)
theory Migrations
  imports StoreInv
begin

text \<open>
  \<open>internal/db/migrations.go\<close>: bringing the file of an older version up to date. A file is the tables,
  the version SQLite's \<open>PRAGMA user_version\<close> holds, the columns that were added to the tables the base
  schema creates, and which form of the trigger \<open>spots_au\<close> it has. A column that does not exist yet has
  a field in the row all the same; its content means nothing until \<open>ALTER TABLE\<close> sets the default.
  Every statement may fail (\<open>faults\<close>). The texts of errors are left out but for the one that is read.
\<close>

section \<open>Files and statements\<close>

datatype trigger = NoTrigger | OnAnyUpdate | OnIndexedUpdate

record dbfile =
  fdb :: database
  user_version :: int
  has_tables :: bool
  columns :: "(string \<times> string) list"
  spots_au :: trigger

datatype stmt_error = DuplicateColumn string | StatementFailed

datatype statement =
    AddSpotColumn string "spot_row \<Rightarrow> spot_row"
  | AddSyncColumn string "sync_row \<Rightarrow> sync_row"
  | UpdateSpots bool "spot_row \<Rightarrow> bool" "spot_row \<Rightarrow> spot_row"
  | DeleteSpots "spot_row \<Rightarrow> bool"
  | UpdateSync "spot_row list \<Rightarrow> string \<Rightarrow> sync_row \<Rightarrow> sync_row"
  | DropTrigger
  | CreateTrigger
  | CreateIndex string

definition fails :: "dbfile \<Rightarrow> bool \<times> dbfile" where
  "fails f =
     (case faults (fdb f) of
        [] \<Rightarrow> (False, f)
      | b # bs \<Rightarrow> (b, f\<lparr>fdb := (fdb f)\<lparr>faults := bs\<rparr>\<rparr>))"

text \<open>Whether an update of \<open>spots\<close> rewrites the full-text documents of the rows; \<open>indexed\<close> says that it
  sets an indexed column.\<close>

definition fires :: "trigger \<Rightarrow> bool \<Rightarrow> bool" where
  "fires tr indexed = (case tr of NoTrigger \<Rightarrow> False | OnAnyUpdate \<Rightarrow> True | OnIndexedUpdate \<Rightarrow> indexed)"

definition update_sync :: "(string \<Rightarrow> sync_row \<Rightarrow> sync_row) \<Rightarrow> database \<Rightarrow> database" where
  "update_sync g d = d\<lparr>sync_state := (\<lambda>grp. map_option (g grp) (sync_state d grp))\<rparr>"

definition effect :: "statement \<Rightarrow> dbfile \<Rightarrow> stmt_error option \<times> dbfile" where
  "effect st f =
     (case st of
        AddSpotColumn c def \<Rightarrow>
          if (''spots'', c) \<in> set (columns f) then (Some (DuplicateColumn c), f)
          else (None, f\<lparr>columns := (''spots'', c) # columns f,
                        fdb := (fdb f)\<lparr>spots := map def (spots (fdb f))\<rparr>\<rparr>)
      | AddSyncColumn c def \<Rightarrow>
          if (''sync_state'', c) \<in> set (columns f) then (Some (DuplicateColumn c), f)
          else (None, f\<lparr>columns := (''sync_state'', c) # columns f, fdb := update_sync (\<lambda>_. def) (fdb f)\<rparr>)
      | UpdateSpots indexed P g \<Rightarrow>
          (None, f\<lparr>fdb := snd (update_spots (fires (spots_au f) indexed) P g (fdb f))\<rparr>)
      | DeleteSpots P \<Rightarrow> (None, f\<lparr>fdb := snd (delete_spots P (fdb f))\<rparr>)
      | UpdateSync g \<Rightarrow> (None, f\<lparr>fdb := update_sync (g (spots (fdb f))) (fdb f)\<rparr>)
      | DropTrigger \<Rightarrow> (None, f\<lparr>spots_au := NoTrigger\<rparr>)
      | CreateTrigger \<Rightarrow> (None, if spots_au f = NoTrigger then f\<lparr>spots_au := OnIndexedUpdate\<rparr> else f)
      | CreateIndex _ \<Rightarrow> (None, f))"

definition run_statement :: "statement \<Rightarrow> dbfile \<Rightarrow> stmt_error option \<times> dbfile" where
  "run_statement st f =
     (case fails f of (True, f1) \<Rightarrow> (Some StatementFailed, f1) | (False, f1) \<Rightarrow> effect st f1)"

section \<open>The repair of 8-bit text\<close>

definition redecode_fixes :: "spot_row list \<Rightarrow> (int \<times> string \<times> string \<times> string) list" where
  "redecode_fixes rows =
     map (\<lambda>r. (r_id r, toUTF8 (r_title r), toUTF8 (r_tag r), toUTF8 (r_poster r)))
       (filter (\<lambda>r. \<not> (utf8_valid (r_title r) \<and> utf8_valid (r_tag r) \<and> utf8_valid (r_poster r))) rows)"

fun apply_fixes :: "(int \<times> string \<times> string \<times> string) list \<Rightarrow> dbfile \<Rightarrow> stmt_error option \<times> dbfile" where
  "apply_fixes [] f = (None, f)"
| "apply_fixes ((i, title, tag, poster) # fixes) f =
     (case run_statement (UpdateSpots True (\<lambda>r. r_id r = i)
              (\<lambda>r. r\<lparr>r_title := title, r_tag := tag, r_poster := poster\<rparr>)) f of
        (Some e, f1) \<Rightarrow> (Some e, f1)
      | (None, f1) \<Rightarrow> apply_fixes fixes f1)"

definition redecodeEightBitText :: "dbfile \<Rightarrow> stmt_error option \<times> dbfile" where
  "redecodeEightBitText f =
     (case fails f of
        (True, f1) \<Rightarrow> (Some StatementFailed, f1)
      | (False, f1) \<Rightarrow>
          let fixes = redecode_fixes (spots (fdb f1))
          in (case fails f1 of
                (True, f2) \<Rightarrow> (Some StatementFailed, f2)
              | (False, f2) \<Rightarrow> apply_fixes fixes f2))"

section \<open>The migrations\<close>

record migration =
  version :: int
  stmts :: "statement list"
  fn :: "(dbfile \<Rightarrow> stmt_error option \<times> dbfile) option"

text \<open>\<open>LIKE '%z3%'\<close>, and the kind of a row by the SQL expression.\<close>

definition like_z3 :: "string \<Rightarrow> bool" where
  "like_z3 s = go_contains (map lower_char s) ''z3''"

definition set_kind :: statement where
  "set_kind = UpdateSpots False (\<lambda>r. r_category r = 0)
     (\<lambda>r. r\<lparr>r_kind := kindCaseSQL (r_category r) (r_sub_cat_a r) (r_sub_cat_b r) (r_sub_cat_d r)\<rparr>)"

definition migration_1 :: migration where
  "migration_1 = \<lparr>version = 1, stmts =
     [AddSpotColumn ''is_adult'' (r_is_adult_update (\<lambda>_. False)),
      AddSpotColumn ''spotter_id'' (r_spotter_id_update (\<lambda>_. [])),
      UpdateSpots False (\<lambda>r. like_z3 (r_sub_cat_d r)) (r_is_adult_update (\<lambda>_. True)),
      CreateIndex ''idx_spots_browse'', CreateIndex ''idx_spots_browse_adult'', CreateIndex ''idx_spots_spotter_id''],
     fn = None\<rparr>"

definition migration_2 :: migration where
  "migration_2 = \<lparr>version = 2, stmts =
     [AddSyncColumn ''backfill_article_num'' (backfill_article_num_update (\<lambda>_. 0)),
      UpdateSync (\<lambda>rows _ s. if backfill_article_num s = 0 then s\<lparr>backfill_article_num := min_article rows\<rparr> else s)],
     fn = None\<rparr>"

definition migration_3 :: migration where
  "migration_3 = \<lparr>version = 3, stmts = [DeleteSpots (\<lambda>r. control_title (r_title r))], fn = None\<rparr>"

definition dated_at_index_time :: "spot_row \<Rightarrow> bool" where
  "dated_at_index_time r \<longleftrightarrow> \<bar>r_posted_at r - r_created_at r\<bar> \<le> 60"

definition migration_4 :: migration where
  "migration_4 = \<lparr>version = 4, stmts =
     [DeleteSpots dated_at_index_time,
      UpdateSync (\<lambda>rows grp s. if grp = ''free.pt'' then s\<lparr>last_article_num := min_article rows\<rparr> else s)],
     fn = None\<rparr>"

definition migration_5 :: migration where
  "migration_5 = \<lparr>version = 5, stmts =
     [DropTrigger, CreateTrigger, AddSpotColumn ''kind'' (r_kind_update (\<lambda>_. 0)), set_kind,
      CreateIndex ''idx_spots_kind'', CreateIndex ''idx_spots_category_browse''], fn = None\<rparr>"

definition migration_6 :: migration where
  "migration_6 = \<lparr>version = 6, stmts = [], fn = Some redecodeEightBitText\<rparr>"

definition migration_7 :: migration where
  "migration_7 = \<lparr>version = 7, stmts =
     [AddSyncColumn ''dispose_sweep_article_num'' (dispose_sweep_article_num_update (\<lambda>_. 0))], fn = None\<rparr>"

definition migration_8 :: migration where
  "migration_8 = \<lparr>version = 8, stmts =
     [UpdateSync (\<lambda>_ _ s. s\<lparr>dispose_sweep_article_num := 0\<rparr>)], fn = None\<rparr>"

definition migration_9 :: migration where
  "migration_9 = \<lparr>version = 9, stmts =
     [UpdateSpots False (\<lambda>r. r_category r \<noteq> 0 \<and> r_is_adult r) (r_is_adult_update (\<lambda>_. False))], fn = None\<rparr>"

definition migration_10 :: migration where
  "migration_10 = \<lparr>version = 10, stmts = [CreateIndex ''idx_spots_kind_adult''], fn = None\<rparr>"

definition migration_11 :: migration where
  "migration_11 = \<lparr>version = 11, stmts =
     [set_kind,
      UpdateSpots False (\<lambda>r. r_category r = 0 \<and> r_is_adult r \<noteq> (r_kind r = 5)) (\<lambda>r. r\<lparr>r_is_adult := (r_kind r = 5)\<rparr>)],
     fn = None\<rparr>"

definition migrations :: "migration list" where
  "migrations = [migration_1, migration_2, migration_3, migration_4, migration_5, migration_6, migration_7,
     migration_8, migration_9, migration_10, migration_11]"

section \<open>Applying them\<close>

definition isDuplicateColumn :: "stmt_error \<Rightarrow> bool" where
  "isDuplicateColumn e = (case e of DuplicateColumn _ \<Rightarrow> True | StatementFailed \<Rightarrow> False)"

fun run_statements :: "statement list \<Rightarrow> dbfile \<Rightarrow> stmt_error option \<times> dbfile" where
  "run_statements [] f = (None, f)"
| "run_statements (s # ss) f =
     (case run_statement s f of
        (Some e, f1) \<Rightarrow> if isDuplicateColumn e then run_statements ss f1 else (Some e, f1)
      | (None, f1) \<Rightarrow> run_statements ss f1)"

definition migration_body :: "migration \<Rightarrow> dbfile \<Rightarrow> stmt_error option \<times> dbfile" where
  "migration_body m f =
     (case run_statements (stmts m) f of
        (Some e, f1) \<Rightarrow> (Some e, f1)
      | (None, f1) \<Rightarrow>
          (case (case fn m of None \<Rightarrow> (None, f1) | Some g \<Rightarrow> g f1) of
             (Some e, f2) \<Rightarrow> (Some e, f2)
           | (None, f2) \<Rightarrow>
               (case fails f2 of
                  (True, f3) \<Rightarrow> (Some StatementFailed, f3)
                | (False, f3) \<Rightarrow> (None, f3\<lparr>user_version := version m\<rparr>))))"

text \<open>The rollback undoes everything but the passage of faults.\<close>

definition applyMigration :: "migration \<Rightarrow> dbfile \<Rightarrow> stmt_error option \<times> dbfile" where
  "applyMigration m f =
     (let rollback = (\<lambda>f1 f2. f1\<lparr>fdb := (fdb f1)\<lparr>faults := faults (fdb f2)\<rparr>\<rparr>)
      in case fails f of
           (True, f1) \<Rightarrow> (Some StatementFailed, f1)
         | (False, f1) \<Rightarrow>
             (case migration_body m f1 of
                (Some e, f2) \<Rightarrow> (Some e, rollback f1 f2)
              | (None, f2) \<Rightarrow>
                  (case fails f2 of
                     (True, f3) \<Rightarrow> (Some StatementFailed, rollback f1 f3)
                   | (False, f3) \<Rightarrow> (None, f3))))"

fun run_migrations :: "int \<Rightarrow> migration list \<Rightarrow> dbfile \<Rightarrow> stmt_error option \<times> dbfile" where
  "run_migrations current [] f = (None, f)"
| "run_migrations current (m # ms) f =
     (if version m \<le> current then run_migrations current ms f
      else (case applyMigration m f of
              (Some e, f1) \<Rightarrow> (Some e, f1)
            | (None, f1) \<Rightarrow> run_migrations current ms f1))"

text \<open>The base schema: a new file gets its tables, with the columns added to them since; nothing in it
  changes a file that has them.\<close>

definition base_schema :: "dbfile \<Rightarrow> dbfile" where
  "base_schema f =
     (if has_tables f then f else f\<lparr>has_tables := True, columns := [(''sync_state'', ''backfill_article_num'')]\<rparr>)"

definition migrate :: "dbfile \<Rightarrow> stmt_error option \<times> dbfile" where
  "migrate f =
     (case fails f of
        (True, f1) \<Rightarrow> (Some StatementFailed, f1)
      | (False, f1) \<Rightarrow>
          (case fails (base_schema f1) of
             (True, f2) \<Rightarrow> (Some StatementFailed, f2)
           | (False, f2) \<Rightarrow> run_migrations (user_version f2) migrations f2))"

end
