(* ===== verification/Startup.thy ===== *)
theory Startup
  imports Front Csp Pool Migrations
begin

text \<open>
  \<open>cmd/spottr/main.go\<close>, \<open>internal/api/apikey.go\<close>, and what they call to open the file: the order in which
  the program reads its configuration, opens and upgrades its file, settles the API key, and builds the
  server. \<open>crypto/rand\<close> is the argument \<open>rand\<close> (\<open>None\<close> where it fails). The log, the ping of SABnzbd,
  which is only logged, the timeouts of the HTTP server and the shutdown are left out.
\<close>

section \<open>Settings and the API key\<close>

definition Setting :: "string \<Rightarrow> string sql" where
  "Setting key = query (\<lambda>d. case app_settings d key of None \<Rightarrow> [] | Some v \<Rightarrow> v)"

definition SetSetting :: "string \<Rightarrow> string \<Rightarrow> unit sql" where
  "SetSetting key v = exec (\<lambda>d. ((), d\<lparr>app_settings := (app_settings d)(key \<mapsto> v)\<rparr>))"

definition SettingAPIKey :: string where "SettingAPIKey = ''newznab_api_key''"

definition randomHex :: "(nat \<Rightarrow> string option) \<Rightarrow> nat \<Rightarrow> string option" where
  "randomHex rand n = map_option hex_encode (rand n)"

datatype key_error = ReadFailed | RandFailed | PersistFailed

definition ResolveAPIKey ::
  "'f Config \<Rightarrow> (nat \<Rightarrow> string option) \<Rightarrow> database \<Rightarrow> (key_error + string \<times> bool) \<times> database" where
  "ResolveAPIKey c rand d =
     (if cfg_APIKey c \<noteq> [] then (Inr (cfg_APIKey c, False), d)
      else (case Setting SettingAPIKey d of
              (Inl _, d1) \<Rightarrow> (Inl ReadFailed, d1)
            | (Inr found, d1) \<Rightarrow>
                if found \<noteq> [] then (Inr (found, False), d1)
                else (case randomHex rand 16 of
                        None \<Rightarrow> (Inl RandFailed, d1)
                      | Some generated \<Rightarrow>
                          (case SetSetting SettingAPIKey generated d1 of
                             (Inl _, d2) \<Rightarrow> (Inl PersistFailed, d2)
                           | (Inr _, d2) \<Rightarrow> (Inr (generated, True), d2)))))"

section \<open>Opening the file\<close>

definition open_dsn :: "string \<Rightarrow> string" where
  "open_dsn path =
     (if go_contains path ''?'' then path
      else ''file:'' @ path @ ''?_pragma=busy_timeout(15000)'' @ ''&_pragma=journal_mode(WAL)''
           @ ''&_pragma=foreign_keys(1)'' @ ''&_pragma=synchronous(1)'' @ ''&_txlock=immediate'')"

definition pragmas :: "string list" where
  "pragmas = [''PRAGMA journal_mode=WAL'', ''PRAGMA foreign_keys=ON'', ''PRAGMA synchronous=NORMAL'',
     ''PRAGMA temp_store=MEMORY'']"

fun run_pragmas :: "string list \<Rightarrow> dbfile \<Rightarrow> bool \<times> dbfile" where
  "run_pragmas [] f = (True, f)"
| "run_pragmas (p # ps) f = (case fails f of (True, f1) \<Rightarrow> (False, f1) | (False, f1) \<Rightarrow> run_pragmas ps f1)"

text \<open>The result is the data source name and the bound of the connection pool. \<open>sql.Open\<close> only fails for a
  driver that is not registered.\<close>

definition Open :: "string \<Rightarrow> int \<Rightarrow> dbfile \<Rightarrow> (string \<times> int) option \<times> dbfile" where
  "Open path maxConns f =
     (let conns = (if maxConns < 1 then 1 else maxConns)
      in case run_pragmas pragmas f of
           (False, f1) \<Rightarrow> (None, f1)
         | (True, f1) \<Rightarrow>
             (case migrate f1 of
                (Some _, f2) \<Rightarrow> (None, f2)
              | (None, f2) \<Rightarrow> (Some (open_dsn path, conns), f2)))"

section \<open>The server\<close>

datatype start_error = BadConfig config_error | OpenFailed | KeyFailed key_error | CSPPanic

record 'f server =
  srv_app :: "'f app"
  srv_sessions :: session_store
  srv_limiter :: "'f rateLimiter"
  srv_csp :: string
  srv_pool :: "conn pool"
  srv_db :: "string \<times> int"
  srv_backfill :: bool

text \<open>\<open>NewHandler\<close>; \<open>None\<close> where building the policy panics.\<close>

definition NewHandler ::
  "'f float_ops \<Rightarrow> 'f Config \<Rightarrow> Client option \<Rightarrow> string option \<Rightarrow> string
   \<Rightarrow> ('f app \<times> session_store \<times> 'f rateLimiter \<times> string) option" where
  "NewHandler F c client doc key =
     (case buildCSP doc of
        Some (Returns policy) \<Rightarrow>
          Some (\<lparr>cfg = c, apiKey = key, sab = client\<rparr>, New_store (SessionDuration c),
                newRateLimiter F (RateLimitRPS c) (RateLimitBurst c), policy)
      | _ \<Rightarrow> None)"

definition start_program ::
  "'f float_ops \<Rightarrow> 'f stdlib \<Rightarrow> env \<Rightarrow> (nat \<Rightarrow> string option) \<Rightarrow> string option \<Rightarrow> dbfile
   \<Rightarrow> (start_error + 'f server) \<times> dbfile" where
  "start_program F std e rand doc f =
     (case Load std e of
        Inl err \<Rightarrow> (Inl (BadConfig err), f)
      | Inr c \<Rightarrow>
          (case Open (DBPath c) (NNTPMaxConns c + 4) f of
             (None, f1) \<Rightarrow> (Inl OpenFailed, f1)
           | (Some dbh, f1) \<Rightarrow>
               (case ResolveAPIKey c rand (fdb f1) of
                  (Inl err, d) \<Rightarrow> (Inl (KeyFailed err), f1\<lparr>fdb := d\<rparr>)
                | (Inr (key, _), d) \<Rightarrow>
                    let client = (if SABHost c \<noteq> [] then Some (New_client c) else None)
                    in (case NewHandler F c client doc key of
                          None \<Rightarrow> (Inl CSPPanic, f1\<lparr>fdb := d\<rparr>)
                        | Some (a, ss, rl, policy) \<Rightarrow>
                            (Inr \<lparr>srv_app = a, srv_sessions = ss, srv_limiter = rl, srv_csp = policy,
                                  srv_pool = NewPool (NNTPMaxConns c), srv_db = dbh,
                                  srv_backfill = BackfillEnabled c\<rparr>,
                             f1\<lparr>fdb := d\<rparr>)))))"

end
