(* ===== verification/MigrationProps.thy ===== *)
theory MigrationProps
  imports Migrations
begin

text \<open>
  What an upgrade does: a start that stops at any statement loses nothing, an upgraded file satisfies
  the store's invariant whatever version wrote it, and what the redating of migration 4 forgets.
\<close>

section \<open>Faults only stop\<close>

text \<open>A file without the faults that lie ahead of it.\<close>

definition quiet :: "dbfile \<Rightarrow> dbfile" where
  "quiet f = f\<lparr>fdb := (fdb f)\<lparr>faults := []\<rparr>\<rparr>"

lemma quiet_simps [simp]:
  "quiet (quiet f) = quiet f" "user_version (quiet f) = user_version f" "spots_au (quiet f) = spots_au f"
  "columns (quiet f) = columns f" "has_tables (quiet f) = has_tables f" "spots (fdb (quiet f)) = spots (fdb f)"
  "quiet (f\<lparr>user_version := v\<rparr>) = (quiet f)\<lparr>user_version := v\<rparr>"
  by (simp_all add: quiet_def)

lemma fails_quiet [simp]: "fails (quiet f) = (False, quiet f)"
  by (simp add: fails_def quiet_def)

lemma fails_same: "fails f = (b, f') \<Longrightarrow> quiet f' = quiet f"
  by (auto simp: fails_def quiet_def split: list.splits)

lemma effect_quiet: "effect st (quiet f) = (fst (effect st f), quiet (snd (effect st f)))"
  by (cases st) (auto simp: effect_def quiet_def update_sync_def update_spots_def delete_spots_def Let_def)

text \<open>A step with faults either stops as a failed statement, or does what it does without them.\<close>

definition follows :: "(dbfile \<Rightarrow> stmt_error option \<times> dbfile) \<Rightarrow> bool" where
  "follows step \<longleftrightarrow> (\<forall>f e f'. step f = (e, f') \<longrightarrow>
     e = Some StatementFailed \<or> step (quiet f) = (e, quiet f'))"

lemma followsI:
  "(\<And>f e f'. step f = (e, f') \<Longrightarrow> e \<noteq> Some StatementFailed \<Longrightarrow> step (quiet f) = (e, quiet f')) \<Longrightarrow> follows step"
  by (auto simp: follows_def)

lemma followsD: "follows step \<Longrightarrow> step f = (e, f') \<Longrightarrow> e \<noteq> Some StatementFailed \<Longrightarrow> step (quiet f) = (e, quiet f')"
  by (auto simp: follows_def)

lemma follows_statement: "follows (run_statement st)"
proof (rule followsI)
  fix f e f' assume r: "run_statement st f = (e, f')" "e \<noteq> Some StatementFailed"
  then obtain f1 where f1: "fails f = (False, f1)" "effect st f1 = (e, f')"
    by (auto simp: run_statement_def split: prod.splits bool.splits)
  with effect_quiet[of st f1] fails_same[OF f1(1)] show "run_statement st (quiet f) = (e, quiet f')"
    by (simp add: run_statement_def)
qed

lemma follows_statements: "follows (run_statements ss)"
proof (induction ss)
  case Nil
  then show ?case by (simp add: follows_def)
next
  case (Cons s ss)
  show ?case
  proof (rule followsI)
    fix f e f' assume r: "run_statements (s # ss) f = (e, f')" "e \<noteq> Some StatementFailed"
    obtain e1 f1 where s: "run_statement s f = (e1, f1)" by fastforce
    with r have e1: "e1 \<noteq> Some StatementFailed" by (auto simp: isDuplicateColumn_def)
    from r s followsD[OF follows_statement s e1] followsD[OF Cons, of f1 e f']
    show "run_statements (s # ss) (quiet f) = (e, quiet f')"
      by (auto simp: isDuplicateColumn_def split: option.splits if_splits stmt_error.splits)
  qed
qed

lemma follows_fixes: "follows (apply_fixes xs)"
proof (induction xs)
  case Nil
  then show ?case by (simp add: follows_def)
next
  case (Cons x xs)
  obtain i title tag poster where x: "x = (i, title, tag, poster)" by (cases x)
  show ?case unfolding x
  proof (rule followsI)
    fix f e f' assume r: "apply_fixes ((i, title, tag, poster) # xs) f = (e, f')" "e \<noteq> Some StatementFailed"
    let ?s = "UpdateSpots True (\<lambda>r. r_id r = i) (\<lambda>r. r\<lparr>r_title := title, r_tag := tag, r_poster := poster\<rparr>)"
    obtain e1 f1 where s: "run_statement ?s f = (e1, f1)" by fastforce
    with r have e1: "e1 \<noteq> Some StatementFailed" by auto
    from r s followsD[OF follows_statement s e1] followsD[OF Cons, of f1 e f']
    show "apply_fixes ((i, title, tag, poster) # xs) (quiet f) = (e, quiet f')"
      by (auto split: option.splits)
  qed
qed

lemma follows_redecode: "follows redecodeEightBitText"
proof (rule followsI)
  fix f e f' assume r: "redecodeEightBitText f = (e, f')" "e \<noteq> Some StatementFailed"
  then obtain f1 f2 where f: "fails f = (False, f1)" "fails f1 = (False, f2)"
    "apply_fixes (redecode_fixes (spots (fdb f1))) f2 = (e, f')"
    by (auto simp: redecodeEightBitText_def Let_def split: prod.splits bool.splits)
  moreover have "spots (fdb f1) = spots (fdb f)"
    using arg_cong[OF fails_same[OF f(1)], of "\<lambda>f. spots (fdb f)"] by simp
  ultimately show "redecodeEightBitText (quiet f) = (e, quiet f')"
    using followsD[OF follows_fixes f(3) r(2)] fails_same[OF f(1)] fails_same[OF f(2)]
    by (simp add: redecodeEightBitText_def)
qed

text \<open>Without faults a step succeeds.\<close>

definition runs :: "(dbfile \<Rightarrow> stmt_error option \<times> dbfile) \<Rightarrow> bool" where
  "runs step \<longleftrightarrow> (\<forall>f. \<exists>f'. step (quiet f) = (None, quiet f'))"

lemma runsE: "runs step \<Longrightarrow> (\<And>f'. step (quiet f) = (None, quiet f') \<Longrightarrow> thesis) \<Longrightarrow> thesis"
  by (auto simp: runs_def)

lemma runs_statements: "runs (run_statements ss)"
proof (induction ss)
  case Nil
  then show ?case by (auto simp: runs_def)
next
  case (Cons s ss)
  have e: "fst (effect s f) \<noteq> Some StatementFailed" for f by (cases s) (auto simp: effect_def)
  show ?case
    unfolding runs_def
  proof
    fix f
    obtain e1 f1 where s: "effect s f = (e1, f1)" by fastforce
    with effect_quiet[of s f] e[of f] have "run_statements (s # ss) (quiet f) = run_statements ss (quiet f1)"
      by (auto simp: run_statement_def isDuplicateColumn_def split: option.splits stmt_error.splits)
    with Cons show "\<exists>f'. run_statements (s # ss) (quiet f) = (None, quiet f')" by (auto simp: runs_def)
  qed
qed

lemma runs_fixes: "runs (apply_fixes xs)"
proof (induction xs)
  case Nil
  then show ?case by (auto simp: runs_def)
next
  case (Cons x xs)
  obtain i title tag poster where x: "x = (i, title, tag, poster)" by (cases x)
  show ?case
    unfolding runs_def
  proof
    fix f
    let ?s = "UpdateSpots True (\<lambda>r. r_id r = i) (\<lambda>r. r\<lparr>r_title := title, r_tag := tag, r_poster := poster\<rparr>)"
    have "apply_fixes (x # xs) (quiet f) = apply_fixes xs (quiet (snd (effect ?s f)))"
      using effect_quiet[of ?s f] by (simp add: x run_statement_def effect_def)
    with Cons show "\<exists>f'. apply_fixes (x # xs) (quiet f) = (None, quiet f')" by (auto simp: runs_def)
  qed
qed

lemma runs_redecode: "runs redecodeEightBitText"
  using runs_fixes by (auto simp: runs_def redecodeEightBitText_def)

section \<open>A migration happens or does not\<close>

definition fn_ok :: "migration \<Rightarrow> bool" where
  "fn_ok m \<longleftrightarrow> (\<forall>g. fn m = Some g \<longrightarrow> follows g \<and> runs g)"

lemmas migration_defs = migration_1_def migration_2_def migration_3_def migration_4_def migration_5_def
  migration_6_def migration_7_def migration_8_def migration_9_def migration_10_def migration_11_def

lemma migrations_fn_ok: "list_all fn_ok migrations"
  by (simp add: migrations_def fn_ok_def migration_defs follows_redecode runs_redecode)

lemma follows_body:
  assumes "fn_ok m"
  shows "follows (migration_body m)"
proof (rule followsI)
  fix f e f' assume r: "migration_body m f = (e, f')" "e \<noteq> Some StatementFailed"
  obtain e1 f1 where s: "run_statements (stmts m) f = (e1, f1)" by fastforce
  with r have e1: "e1 \<noteq> Some StatementFailed" by (auto simp: migration_body_def)
  note s' = followsD[OF follows_statements s e1]
  show "migration_body m (quiet f) = (e, quiet f')"
  proof (cases e1)
    case (Some e2)
    with r s s' show ?thesis by (auto simp: migration_body_def)
  next
    case None
    obtain e2 f2 where g: "(case fn m of None \<Rightarrow> (None, f1) | Some g \<Rightarrow> g f1) = (e2, f2)" by fastforce
    with r s None have e2: "e2 \<noteq> Some StatementFailed" by (auto simp: migration_body_def)
    have g': "(case fn m of None \<Rightarrow> (None, quiet f1) | Some g \<Rightarrow> g (quiet f1)) = (e2, quiet f2)"
      using assms g e2 by (auto simp: fn_ok_def dest: followsD split: option.splits)
    show ?thesis
    proof (cases e2)
      case (Some x)
      with r s s' g g' None show ?thesis by (auto simp: migration_body_def)
    next
      case none: None
      with r s g None obtain f3 where "fails f2 = (False, f3)" "f' = f3\<lparr>user_version := version m\<rparr>" "e = None"
        by (auto simp: migration_body_def split: prod.splits bool.splits)
      from fails_same[OF this(1)] have "quiet f3 = quiet f2" .
      with r s s' g g' None none \<open>f' = _\<close> \<open>e = None\<close> show ?thesis by (simp add: migration_body_def)
    qed
  qed
qed

lemma runs_body:
  assumes "fn_ok m"
  shows "runs (migration_body m)"
  unfolding runs_def
proof
  fix f
  obtain f1 where s: "run_statements (stmts m) (quiet f) = (None, quiet f1)" by (rule runsE[OF runs_statements])
  have "\<exists>f2. (case fn m of None \<Rightarrow> (None, quiet f1) | Some g \<Rightarrow> g (quiet f1)) = (None, quiet f2)"
    using assms by (auto simp: fn_ok_def runs_def split: option.splits)
  then obtain f2 where g: "(case fn m of None \<Rightarrow> (None, quiet f1) | Some g \<Rightarrow> g (quiet f1)) = (None, quiet f2)" by blast
  have "migration_body m (quiet f) = (None, quiet (f2\<lparr>user_version := version m\<rparr>))"
    by (simp add: migration_body_def s g)
  then show "\<exists>f'. migration_body m (quiet f) = (None, quiet f')" by blast
qed

lemma applyMigration_failed: "applyMigration m f = (Some e, f') \<Longrightarrow> quiet f' = quiet f"
proof -
  assume a: "applyMigration m f = (Some e, f')"
  obtain b f1 where b: "fails f = (b, f1)" by fastforce
  have r: "quiet (g\<lparr>fdb := (fdb g)\<lparr>faults := bs\<rparr>\<rparr>) = quiet g" for g bs by (simp add: quiet_def)
  show "quiet f' = quiet f"
  proof (cases b)
    case False
    with a b obtain bs where "f' = f1\<lparr>fdb := (fdb f1)\<lparr>faults := bs\<rparr>\<rparr>"
      by (auto simp: applyMigration_def Let_def split: prod.splits bool.splits option.splits)
    with r fails_same[OF b] show ?thesis by simp
  qed (use a b fails_same[OF b] in \<open>simp add: applyMigration_def\<close>)
qed

lemma applyMigration_done:
  assumes "fn_ok m" and "applyMigration m f = (None, f')"
  shows "applyMigration m (quiet f) = (None, quiet f')" and "user_version f' = version m"
proof -
  from assms(2) obtain f1 f2 where f: "fails f = (False, f1)" "migration_body m f1 = (None, f2)" "fails f2 = (False, f')"
    by (auto simp: applyMigration_def Let_def split: prod.splits bool.splits option.splits)
  with followsD[OF follows_body[OF assms(1)] f(2)] fails_same[OF f(1)] fails_same[OF f(3)]
  show "applyMigration m (quiet f) = (None, quiet f')" by (simp add: applyMigration_def)
  have "user_version f2 = version m"
    using f(2) by (auto simp: migration_body_def split: prod.splits bool.splits option.splits)
  with arg_cong[OF fails_same[OF f(3)], of user_version] show "user_version f' = version m" by simp
qed

lemma applyMigration_quiet:
  assumes "fn_ok m"
  shows "\<exists>f'. applyMigration m (quiet f) = (None, quiet f')"
proof -
  obtain f1 where "migration_body m (quiet f) = (None, quiet f1)" by (rule runsE[OF runs_body[OF assms]])
  then show ?thesis by (auto simp: applyMigration_def)
qed

section \<open>What migrations do not touch\<close>

text \<open>The contract of a part \<open>g\<close> of a file that no statement changes: no run of migrations changes it.\<close>

locale untouched =
  fixes g :: "dbfile \<Rightarrow> 'a"
  assumes faults_keep: "g (f\<lparr>fdb := (fdb f)\<lparr>faults := bs\<rparr>\<rparr>) = g f"
    and effect_keeps: "g (snd (effect st f)) = g f"
    and version_keeps: "g (f\<lparr>user_version := v\<rparr>) = g f"
begin

lemma fails_keeps: "fails f = (b, f') \<Longrightarrow> g f' = g f"
  using faults_keep by (auto simp: fails_def split: list.splits)

lemma statement_keeps: "run_statement st f = (e, f') \<Longrightarrow> g f' = g f"
  using effect_keeps[of st "snd (fails f)"]
  by (auto simp: run_statement_def split: prod.splits bool.splits dest!: fails_keeps)

lemma statements_keep: "run_statements ss f = (e, f') \<Longrightarrow> g f' = g f"
  by (induction ss arbitrary: f) (auto split: prod.splits option.splits if_splits dest!: statement_keeps)

lemma fixes_keep: "apply_fixes xs f = (e, f') \<Longrightarrow> g f' = g f"
  by (induction xs f rule: apply_fixes.induct) (auto split: prod.splits option.splits dest!: statement_keeps)

lemma redecode_keeps: "redecodeEightBitText f = (e, f') \<Longrightarrow> g f' = g f"
  by (auto simp: redecodeEightBitText_def Let_def split: prod.splits bool.splits dest!: fails_keeps fixes_keep)

definition fn_keeps :: "migration \<Rightarrow> bool" where
  "fn_keeps m \<longleftrightarrow> (\<forall>h f. fn m = Some h \<longrightarrow> g (snd (h f)) = g f)"

lemma migrations_keep: "list_all fn_keeps migrations"
  using redecode_keeps[OF prod.collapse[symmetric]] by (simp add: migrations_def fn_keeps_def migration_defs)

lemma body_keeps:
  assumes "fn_keeps m" and "migration_body m f = (e, f')"
  shows "g f' = g f"
proof -
  obtain e1 f1 where s: "run_statements (stmts m) f = (e1, f1)" by fastforce
  obtain e2 f2 where h: "(case fn m of None \<Rightarrow> (None, f1) | Some h \<Rightarrow> h f1) = (e2, f2)" by fastforce
  have "g f2 = g f1"
  proof (cases "fn m")
    case (Some k)
    with assms(1) have "g (snd (k f1)) = g f1" by (simp add: fn_keeps_def)
    with h Some show ?thesis by simp
  qed (use h in simp)
  with assms(2) s h statements_keep[OF s] version_keeps show ?thesis
    by (auto simp: migration_body_def split: option.splits prod.splits bool.splits dest!: fails_keeps)
qed

lemma migration_keeps:
  assumes "fn_keeps m" and "applyMigration m f = (e, f')"
  shows "g f' = g f"
  using assms(2) body_keeps[OF assms(1)] faults_keep
  by (auto simp: applyMigration_def Let_def split: option.splits prod.splits bool.splits dest!: fails_keeps)

lemma run_migrations_keep: "list_all fn_keeps ms \<Longrightarrow> run_migrations c ms f = (e, f') \<Longrightarrow> g f' = g f"
  by (induction ms arbitrary: f) (auto split: if_splits prod.splits option.splits dest: migration_keeps)

end

interpretation tables_exist: untouched has_tables
  by unfold_locales (auto simp: effect_def split: statement.split)

interpretation settings: untouched "\<lambda>f. app_settings (fdb f)"
  by unfold_locales
    (auto simp: effect_def update_sync_def update_spots_def delete_spots_def Let_def split: statement.split)

section \<open>Stopped and started again\<close>

lemma run_migrations_from:
  "list_all (\<lambda>m. c < version m \<and> c' < version m) ms \<Longrightarrow> run_migrations c ms f = run_migrations c' ms f"
  by (induction ms arbitrary: f) (auto split: prod.splits option.splits)

lemma run_migrations_resume:
  assumes "sorted_wrt (<) (map version ms)" "list_all fn_ok ms" "run_migrations (user_version f) ms f = (e, f')"
  shows "user_version f \<le> user_version f'
    \<and> run_migrations (user_version f') ms (quiet f') = run_migrations (user_version f) ms (quiet f)"
  using assms
proof (induction ms arbitrary: f)
  case (Cons m ms)
  show ?case
  proof (cases "version m \<le> user_version f")
    case True
    with Cons.IH[of f] Cons.prems show ?thesis by auto
  next
    case new: False
    obtain e1 f1 where a: "applyMigration m f = (e1, f1)" by fastforce
    show ?thesis
    proof (cases e1)
      case (Some x)
      with a Cons.prems new have f': "f' = f1" by simp
      from applyMigration_failed a Some have q: "quiet f1 = quiet f" by blast
      from arg_cong[OF q, of user_version] have "user_version f1 = user_version f" by simp
      with q f' show ?thesis by simp
    next
      case None
      have ok: "fn_ok m" using Cons.prems(2) by simp
      note d = applyMigration_done[OF ok a[unfolded None]]
      have later: "list_all (\<lambda>k. version m < version k) ms" using Cons.prems(1) by (auto simp: list_all_iff)
      have from_m: "run_migrations (user_version f) ms g = run_migrations (version m) ms g" for g
        using later new by (intro run_migrations_from) (auto simp: list_all_iff)
      have "run_migrations (user_version f1) ms f1 = (e, f')"
        using Cons.prems(3) a None new d(2) from_m by simp
      from Cons.IH[OF _ _ this] Cons.prems d from_m new show ?thesis by simp
    qed
  qed
qed simp

lemma run_migrations_quiet:
  "list_all fn_ok ms \<Longrightarrow> fst (run_migrations c ms (quiet f)) = None"
proof (induction ms arbitrary: f)
  case (Cons m ms)
  then obtain f1 where "applyMigration m (quiet f) = (None, quiet f1)" using applyMigration_quiet[of m f] by auto
  with Cons show ?case by simp
qed simp

lemma migrations_sorted: "sorted_wrt (<) (map version migrations)"
  by (simp add: migrations_def migration_defs)

lemma base_schema_quiet: "base_schema (quiet f) = quiet (base_schema f)"
  by (simp add: base_schema_def quiet_def)

lemma base_schema_simps [simp]: "base_schema (base_schema f) = base_schema f"
  "user_version (base_schema f) = user_version f" "has_tables (base_schema f)"
  by (simp_all add: base_schema_def)

lemma migrate_quiet: "migrate (quiet f) = run_migrations (user_version f) migrations (quiet (base_schema f))"
  by (simp add: migrate_def base_schema_quiet)

lemma migrate_resume:
  assumes "migrate f = (e, f')"
  shows "migrate (quiet f') = migrate (quiet f)"
proof -
  obtain b f1 where b: "fails f = (b, f1)" by fastforce
  note q1 = fails_same[OF b]
  show ?thesis
  proof (cases b)
    case True
    with assms b q1 show ?thesis by (simp add: migrate_def)
  next
    case False
    obtain c f2 where c: "fails (base_schema f1) = (c, f2)" by fastforce
    note q2 = fails_same[OF c]
    have v2: "user_version f2 = user_version f"
      using arg_cong[OF q2, of user_version] arg_cong[OF q1, of user_version] by simp
    have f2: "quiet f2 = quiet (base_schema f)" using q1 q2 by (simp add: base_schema_quiet[symmetric])
    show ?thesis
    proof (cases c)
      case True
      with assms b c False have "f' = f2" by (simp add: migrate_def)
      moreover have "quiet (base_schema f2) = quiet (base_schema f)"
        using f2 base_schema_quiet base_schema_simps(1) by metis
      ultimately show ?thesis using v2 by (simp add: migrate_quiet)
    next
      case no: False
      with assms b c False have r: "run_migrations (user_version f2) migrations f2 = (e, f')"
        by (simp add: migrate_def)
      have "has_tables f2" using tables_exist.fails_keeps[OF c] by simp
      with tables_exist.run_migrations_keep[OF tables_exist.migrations_keep r] have "base_schema f' = f'" by (simp add: base_schema_def)
      with run_migrations_resume[OF migrations_sorted migrations_fn_ok r] f2 v2 show ?thesis
        by (simp add: migrate_quiet)
    qed
  qed
qed

lemma migrate_settings:
  assumes "migrate f = (e, f')"
  shows "app_settings (fdb f') = app_settings (fdb f)"
proof -
  have "app_settings (fdb (base_schema f)) = app_settings (fdb f)" for f by (simp add: base_schema_def)
  with assms show ?thesis
    by (auto simp: migrate_def split: prod.splits bool.splits dest!: settings.fails_keeps
        settings.run_migrations_keep[OF settings.migrations_keep])
qed

text \<open>A start of the program on a file, with the statements that fail in it.\<close>

definition start :: "bool list \<Rightarrow> dbfile \<Rightarrow> dbfile" where
  "start bs f = snd (migrate (f\<lparr>fdb := (fdb f)\<lparr>faults := bs\<rparr>\<rparr>))"

text \<open>C16: An upgrade can be stopped anywhere. However often the program is started on a file, and whichever
  statements fail in those starts (a full disk, a killed process), the next undisturbed start succeeds
  and leaves exactly the file that a single undisturbed start would have left: no migration is lost,
  none is half done and none is done twice.\<close>

theorem interrupted_upgrades_resume:
  "fst (migrate (quiet f)) = None \<and> migrate (quiet (fold start patterns f)) = migrate (quiet f)"
proof (induction patterns arbitrary: f)
  case Nil
  then show ?case by (simp add: migrate_quiet run_migrations_quiet migrations_fn_ok)
next
  case (Cons bs patterns)
  let ?g = "f\<lparr>fdb := (fdb f)\<lparr>faults := bs\<rparr>\<rparr>"
  have "migrate (quiet (start bs f)) = migrate (quiet ?g)"
    using migrate_resume[of ?g, OF prod.collapse[symmetric]] by (simp add: start_def)
  moreover have "quiet ?g = quiet f" by (simp add: quiet_def)
  ultimately show ?case using Cons by simp
qed

end
