(* ===== verification/Upgrade.thy ===== *)
theory Upgrade
  imports MigrationProps StoreOps
begin

text \<open>
  What holds of an upgraded file. \<open>legacy v\<close> says what a file of version \<open>v\<close> may look like; every
  migration takes it one version further, and at the current version it gives the store's invariant.
\<close>

section \<open>Files of older versions\<close>

definition cols_ok :: "spot_row \<Rightarrow> bool" where
  "cols_ok r \<longleftrightarrow> col_ok {CHR ''a''} (r_sub_cat_a r) \<and> col_ok {CHR ''b''} (r_sub_cat_b r)
     \<and> col_ok {CHR ''d'', CHR ''z''} (r_sub_cat_d r)"

definition texts_valid :: "spot_row \<Rightarrow> bool" where
  "texts_valid r \<longleftrightarrow> utf8_valid (r_title r) \<and> utf8_valid (r_tag r) \<and> utf8_valid (r_poster r)"

definition added_columns :: "(int \<times> string \<times> string) list" where
  "added_columns = [(1, ''spots'', ''is_adult''), (1, ''spots'', ''spotter_id''),
     (2, ''sync_state'', ''backfill_article_num''), (5, ''spots'', ''kind''),
     (7, ''sync_state'', ''dispose_sweep_article_num'')]"

text \<open>A row of a file of version \<open>v\<close>, \<open>k\<close> saying that the column \<open>kind\<close> exists.\<close>

definition row_legacy :: "int \<Rightarrow> bool \<Rightarrow> spot_row \<Rightarrow> bool" where
  "row_legacy v k r \<longleftrightarrow> cols_ok r \<and> (6 \<le> v \<longrightarrow> texts_valid r)
     \<and> (k \<and> r_category r \<noteq> 0 \<longrightarrow> r_kind r = 0) \<and> (9 \<le> v \<and> r_category r \<noteq> 0 \<longrightarrow> \<not> r_is_adult r)
     \<and> (11 \<le> v \<longrightarrow> row_kind_ok r)"

definition keys :: "dbfile \<Rightarrow> bool" where
  "keys f \<longleftrightarrow> keys_ok (spots (fdb f)) (next_id (fdb f)) (spots_fts (fdb f)) (ring_ids (fdb f))"

definition shape :: "int \<Rightarrow> dbfile \<Rightarrow> bool" where
  "shape v f \<longleftrightarrow> (5 \<le> v \<longrightarrow> spots_au f = OnIndexedUpdate)
     \<and> list_all (\<lambda>(w, c). w \<le> v \<longrightarrow> c \<in> set (columns f)) added_columns"

definition rows_legacy :: "int \<Rightarrow> dbfile \<Rightarrow> bool" where
  "rows_legacy v f \<longleftrightarrow> list_all (row_legacy v ((''spots'', ''kind'') \<in> set (columns f))) (spots (fdb f))"

definition legacy :: "int \<Rightarrow> dbfile \<Rightarrow> bool" where
  "legacy v f \<longleftrightarrow> keys f \<and> shape v f \<and> rows_legacy v f"

lemma legacy_quiet [simp]: "legacy v (quiet f) = legacy v f"
  by (simp add: legacy_def keys_def shape_def rows_legacy_def quiet_def)

section \<open>Statements\<close>

definition effects :: "statement list \<Rightarrow> dbfile \<Rightarrow> dbfile" where
  "effects ss f = fold (\<lambda>s f. snd (effect s f)) ss f"

lemma effects_simps [simp]: "effects [] f = f" "effects (s # ss) f = effects ss (snd (effect s f))"
  by (simp_all add: effects_def)

lemma run_statements_effects: "run_statements ss (quiet f) = (None, quiet (effects ss f))"
proof (induction ss arbitrary: f)
  case (Cons s ss)
  have "fst (effect s f) \<noteq> Some StatementFailed" by (cases s) (auto simp: effect_def)
  with Cons effect_quiet[of s f] show ?case
    by (auto simp: run_statement_def isDuplicateColumn_def split: option.split stmt_error.split)
qed simp

lemma effect_rows:
  "spots (fdb (snd (effect (UpdateSpots i P g) f))) = map (\<lambda>r. if P r then g r else r) (spots (fdb f))"
  "spots (fdb (snd (effect (DeleteSpots P) f))) = filter (\<lambda>r. \<not> P r) (spots (fdb f))"
  "spots (fdb (snd (effect (AddSpotColumn c def) f)))
     = (if (''spots'', c) \<in> set (columns f) then spots (fdb f) else map def (spots (fdb f)))"
  "spots (fdb (snd (effect (AddSyncColumn c df) f))) = spots (fdb f)"
  "spots (fdb (snd (effect (UpdateSync h) f))) = spots (fdb f)"
  "spots (fdb (snd (effect DropTrigger f))) = spots (fdb f)"
  "spots (fdb (snd (effect CreateTrigger f))) = spots (fdb f)"
  "spots (fdb (snd (effect (CreateIndex n) f))) = spots (fdb f)"
  by (simp_all add: effect_def update_spots_def delete_spots_def update_sync_def Let_def)

lemma effect_shape:
  "columns (snd (effect (UpdateSpots i P g) f)) = columns f"
  "columns (snd (effect (DeleteSpots P) f)) = columns f"
  "set (columns (snd (effect (AddSpotColumn c def) f))) = insert (''spots'', c) (set (columns f))"
  "set (columns (snd (effect (AddSyncColumn c df) f))) = insert (''sync_state'', c) (set (columns f))"
  "columns (snd (effect (UpdateSync h) f)) = columns f"
  "columns (snd (effect DropTrigger f)) = columns f"
  "columns (snd (effect CreateTrigger f)) = columns f"
  "columns (snd (effect (CreateIndex n) f)) = columns f"
  "spots_au (snd (effect (UpdateSpots i P g) f)) = spots_au f"
  "spots_au (snd (effect (DeleteSpots P) f)) = spots_au f"
  "spots_au (snd (effect (AddSpotColumn c def) f)) = spots_au f"
  "spots_au (snd (effect (AddSyncColumn c df) f)) = spots_au f"
  "spots_au (snd (effect (UpdateSync h) f)) = spots_au f"
  "spots_au (snd (effect DropTrigger f)) = NoTrigger"
  "spots_au (snd (effect CreateTrigger f)) = (if spots_au f = NoTrigger then OnIndexedUpdate else spots_au f)"
  "spots_au (snd (effect (CreateIndex n) f)) = spots_au f"
  by (auto simp: effect_def)

text \<open>What a statement may do to a row for the keys to stay, and what it may do without the trigger.\<close>

definition same_keys :: "(spot_row \<Rightarrow> spot_row) \<Rightarrow> bool" where
  "same_keys g \<longleftrightarrow> (\<forall>r. r_id (g r) = r_id r \<and> r_message_id (g r) = r_message_id r \<and> r_moderated (g r) = r_moderated r)"

lemma keys_update:
  assumes "keys f" and "same_keys g" and "(\<forall>r. fts_doc_of (g r) = fts_doc_of r) \<or> i \<and> spots_au f \<noteq> NoTrigger"
  shows "keys (snd (effect (UpdateSpots i P g) f))"
proof -
  let ?fire = "fires (spots_au f) i"
  have "?fire \<or> (\<forall>r. fts_doc_of (g r) = fts_doc_of r)"
    using assms(3) by (auto simp: fires_def split: trigger.splits)
  from keys_ok_update[OF assms(1)[unfolded keys_def], of g ?fire P] this assms(2)
  show ?thesis by (auto simp: keys_def effect_def update_spots_def same_keys_def Let_def)
qed

lemma keys_delete: "keys f \<Longrightarrow> keys (snd (effect (DeleteSpots P) f))"
  by (simp add: keys_def effect_def delete_spots_def Let_def keys_ok_filter)

lemma keys_column:
  assumes "keys f" and "same_keys g" and "\<forall>r. fts_doc_of (g r) = fts_doc_of r"
  shows "keys (snd (effect (AddSpotColumn c g) f))"
proof -
  let ?f = "f\<lparr>spots_au := NoTrigger\<rparr>"
  have "keys ?f" using assms(1) by (simp add: keys_def)
  from keys_update[OF this assms(2), of False "\<lambda>_. True"] assms
  show ?thesis by (auto simp: keys_def effect_def update_spots_def fires_def Let_def)
qed

lemma keys_other:
  "keys f \<Longrightarrow> keys (snd (effect (AddSyncColumn c df) f))" "keys f \<Longrightarrow> keys (snd (effect (UpdateSync h) f))"
  "keys f \<Longrightarrow> keys (snd (effect DropTrigger f))" "keys f \<Longrightarrow> keys (snd (effect CreateTrigger f))"
  "keys f \<Longrightarrow> keys (snd (effect (CreateIndex n) f))"
  by (simp_all add: keys_def effect_def update_sync_def ring_ids_def)

section \<open>Each migration takes a file one version further\<close>

definition keeps_keys :: "statement \<Rightarrow> bool" where
  "keeps_keys st \<longleftrightarrow> (\<forall>f. keys f \<longrightarrow> keys (snd (effect st f)))"

lemma keeps_keys_update: "same_keys g \<Longrightarrow> (\<And>r. fts_doc_of (g r) = fts_doc_of r) \<Longrightarrow> keeps_keys (UpdateSpots i P g)"
  by (simp add: keeps_keys_def keys_update)

lemma keeps_keys_column: "same_keys g \<Longrightarrow> (\<And>r. fts_doc_of (g r) = fts_doc_of r) \<Longrightarrow> keeps_keys (AddSpotColumn c g)"
  by (simp add: keeps_keys_def keys_column)

lemma keeps_keys_other:
  "keeps_keys (DeleteSpots P)" "keeps_keys (AddSyncColumn c df)" "keeps_keys (UpdateSync h)"
  "keeps_keys DropTrigger" "keeps_keys CreateTrigger" "keeps_keys (CreateIndex n)"
  by (simp_all add: keeps_keys_def keys_delete keys_other)

lemma migrations_keep_keys: "list_all (\<lambda>m. list_all keeps_keys (stmts m)) migrations"
  by (simp add: migrations_def migration_defs set_kind_def keeps_keys_other keeps_keys_update keeps_keys_column
      same_keys_def fts_doc_of_def)

lemma keys_effects: "list_all keeps_keys ss \<Longrightarrow> keys f \<Longrightarrow> keys (effects ss f)"
  by (induction ss arbitrary: f) (auto simp: keeps_keys_def)

text \<open>The migrations in SQL; the sixth is in Go.\<close>

lemma row_kind_ok_iff:
  "cols_ok r \<Longrightarrow> row_kind_ok r \<longleftrightarrow>
     r_kind r = kindCaseSQL (r_category r) (r_sub_cat_a r) (r_sub_cat_b r) (r_sub_cat_d r) \<and> r_is_adult r = (r_kind r = 5)"
  by (simp add: row_kind_ok_def cols_ok_def KindOf_kindCaseSQL KindErotic_def)

lemma kind_elsewhere: "c \<noteq> 0 \<Longrightarrow> kindCaseSQL c a b d = 0"
  by (simp add: kindCaseSQL_def)

lemma shape_migrations:
  "shape 0 f \<Longrightarrow> shape 1 (effects (stmts migration_1) f)"
  "shape 1 f \<Longrightarrow> shape 2 (effects (stmts migration_2) f)"
  "shape 2 f \<Longrightarrow> shape 3 (effects (stmts migration_3) f)"
  "shape 3 f \<Longrightarrow> shape 4 (effects (stmts migration_4) f)"
  "shape 4 f \<Longrightarrow> shape 5 (effects (stmts migration_5) f)"
  "shape 6 f \<Longrightarrow> shape 7 (effects (stmts migration_7) f)"
  "shape 7 f \<Longrightarrow> shape 8 (effects (stmts migration_8) f)"
  "shape 8 f \<Longrightarrow> shape 9 (effects (stmts migration_9) f)"
  "shape 9 f \<Longrightarrow> shape 10 (effects (stmts migration_10) f)"
  "shape 10 f \<Longrightarrow> shape 11 (effects (stmts migration_11) f)"
  by (simp_all add: migration_defs set_kind_def shape_def added_columns_def effect_shape)

lemma rows_migrations:
  "rows_legacy 0 f \<Longrightarrow> rows_legacy 1 (effects (stmts migration_1) f)"
  "rows_legacy 1 f \<Longrightarrow> rows_legacy 2 (effects (stmts migration_2) f)"
  "rows_legacy 2 f \<Longrightarrow> rows_legacy 3 (effects (stmts migration_3) f)"
  "rows_legacy 3 f \<Longrightarrow> rows_legacy 4 (effects (stmts migration_4) f)"
  "rows_legacy 4 f \<Longrightarrow> rows_legacy 5 (effects (stmts migration_5) f)"
  "rows_legacy 6 f \<Longrightarrow> rows_legacy 7 (effects (stmts migration_7) f)"
  "rows_legacy 7 f \<Longrightarrow> rows_legacy 8 (effects (stmts migration_8) f)"
  "rows_legacy 8 f \<Longrightarrow> rows_legacy 9 (effects (stmts migration_9) f)"
  "rows_legacy 9 f \<Longrightarrow> rows_legacy 10 (effects (stmts migration_10) f)"
  "shape 10 f \<Longrightarrow> rows_legacy 10 f \<Longrightarrow> rows_legacy 11 (effects (stmts migration_11) f)"
  by (simp_all add: rows_legacy_def migration_defs set_kind_def effect_rows effect_shape list.pred_map
        del: set_map map_map)
    (auto elim!: list.pred_mono_strong simp: row_legacy_def cols_ok_def texts_valid_def row_kind_ok_iff kind_elsewhere
      list_all_iff shape_def added_columns_def)

section \<open>The repair of 8-bit text\<close>

definition fix_row :: "int \<times> string \<times> string \<times> string \<Rightarrow> spot_row \<Rightarrow> spot_row" where
  "fix_row x r = (case x of (i, title, tag, poster) \<Rightarrow>
     if r_id r = i then r\<lparr>r_title := title, r_tag := tag, r_poster := poster\<rparr> else r)"

definition fixed :: "(int \<times> string \<times> string \<times> string) list \<Rightarrow> dbfile \<Rightarrow> dbfile" where
  "fixed xs f = fold (\<lambda>(i, title, tag, poster) f. snd (effect (UpdateSpots True (\<lambda>r. r_id r = i)
     (\<lambda>r. r\<lparr>r_title := title, r_tag := tag, r_poster := poster\<rparr>)) f)) xs f"

lemma apply_fixes_fixed: "apply_fixes xs (quiet f) = (None, quiet (fixed xs f))"
proof (induction xs arbitrary: f)
  case (Cons x xs)
  obtain i title tag poster where x: "x = (i, title, tag, poster)" by (cases x)
  let ?s = "UpdateSpots True (\<lambda>r. r_id r = i) (\<lambda>r. r\<lparr>r_title := title, r_tag := tag, r_poster := poster\<rparr>)"
  have "fst (effect ?s f) = None" by (simp add: effect_def)
  with Cons effect_quiet[of ?s f] show ?case by (simp add: x fixed_def run_statement_def)
qed (simp add: fixed_def)

lemma fixed_keeps:
  "keys f \<Longrightarrow> spots_au f = OnIndexedUpdate \<Longrightarrow> keys (fixed xs f) \<and> spots_au (fixed xs f) = spots_au f
     \<and> columns (fixed xs f) = columns f \<and> spots (fdb (fixed xs f)) = map (fold fix_row xs) (spots (fdb f))"
proof (induction xs arbitrary: f)
  case (Cons x xs)
  obtain i title tag poster where x: "x = (i, title, tag, poster)" by (cases x)
  let ?g = "snd (effect (UpdateSpots True (\<lambda>r. r_id r = i)
     (\<lambda>r. r\<lparr>r_title := title, r_tag := tag, r_poster := poster\<rparr>)) f)"
  have "keys ?g" using Cons.prems by (intro keys_update) (simp_all add: same_keys_def)
  moreover have "spots_au ?g = OnIndexedUpdate" "columns ?g = columns f" using Cons.prems by (simp_all add: effect_shape)
  moreover have "spots (fdb ?g) = map (fix_row x) (spots (fdb f))" by (simp add: effect_rows x fix_row_def)
  ultimately show ?case using Cons.IH[of ?g] Cons.prems by (simp add: x fixed_def comp_def)
qed (simp add: fixed_def comp_def)

lemma fix_row_keeps: "row_legacy 5 k r \<Longrightarrow> row_legacy 5 k (fold fix_row xs r)"
proof (induction xs arbitrary: r)
  case (Cons x xs)
  then have "row_legacy 5 k (fix_row x r)"
    by (auto simp: row_legacy_def fix_row_def cols_ok_def split: prod.splits)
  with Cons.IH show ?case by simp
qed simp

lemma fix_row_valid:
  assumes "list_all (\<lambda>(i, title, tag, poster). utf8_valid title \<and> utf8_valid tag \<and> utf8_valid poster) xs"
    and "texts_valid r \<or> r_id r \<in> fst ` set xs"
  shows "texts_valid (fold fix_row xs r)"
  using assms
proof (induction xs arbitrary: r)
  case (Cons x xs)
  have "r_id (fix_row x r) = r_id r" by (simp add: fix_row_def split: prod.split)
  moreover have "texts_valid (fix_row x r) \<or> r_id r \<in> fst ` set xs"
    using Cons.prems by (auto simp: fix_row_def texts_valid_def split: prod.splits)
  ultimately show ?case using Cons by simp
qed simp

lemma redecode_valid: "texts_valid (fold fix_row (redecode_fixes rows) r)" if "r \<in> set rows"
proof (rule fix_row_valid)
  have "utf8_valid (toUTF8 b)" for b by (simp add: toUTF8_def toUTF8_loop_Windows1252 utf8_valid_Windows1252)
  then show "list_all (\<lambda>(i, title, tag, poster). utf8_valid title \<and> utf8_valid tag \<and> utf8_valid poster) (redecode_fixes rows)"
    by (simp add: redecode_fixes_def list_all_iff)
  show "texts_valid r \<or> r_id r \<in> fst ` set (redecode_fixes rows)"
    using that by (force simp: redecode_fixes_def texts_valid_def)
qed

lemma redecode_legacy:
  assumes "legacy 5 f"
  shows "\<exists>g. redecodeEightBitText (quiet f) = (None, quiet g) \<and> legacy 6 g"
proof -
  let ?g = "fixed (redecode_fixes (spots (fdb f))) f"
  have "redecodeEightBitText (quiet f) = (None, quiet ?g)"
    by (simp add: redecodeEightBitText_def apply_fixes_fixed)
  moreover have k: "keys f" "spots_au f = OnIndexedUpdate" "rows_legacy 5 f"
    using assms by (auto simp: legacy_def shape_def)
  have "row_legacy 6 k (fold fix_row (redecode_fixes (spots (fdb f))) r)"
    if "r \<in> set (spots (fdb f))" "row_legacy 5 k r" for r k
    using fix_row_keeps[OF that(2), of "redecode_fixes (spots (fdb f))"] redecode_valid[OF that(1)]
    by (simp add: row_legacy_def)
  with k fixed_keeps[OF k(1,2), of "redecode_fixes (spots (fdb f))"] assms have "legacy 6 ?g"
    by (auto simp: legacy_def shape_def rows_legacy_def list_all_iff added_columns_def)
  ultimately show ?thesis by blast
qed

section \<open>The whole upgrade\<close>

lemma fails_quiet_version [simp]:
  "fails ((quiet f)\<lparr>user_version := v\<rparr>) = (False, (quiet f)\<lparr>user_version := v\<rparr>)"
  by (simp add: fails_def quiet_def)

lemma sql_migration:
  assumes "fn m = None"
  shows "applyMigration m (quiet f) = (None, quiet ((effects (stmts m) f)\<lparr>user_version := version m\<rparr>))"
  by (simp add: applyMigration_def migration_body_def assms run_statements_effects)

lemma legacy_version [simp]: "legacy v (f\<lparr>user_version := w\<rparr>) = legacy v f"
  by (simp add: legacy_def keys_def shape_def rows_legacy_def)

lemma keys_sql: "m \<in> set migrations \<Longrightarrow> keys f \<Longrightarrow> keys (effects (stmts m) f)"
  using migrations_keep_keys keys_effects by (auto simp: list_all_iff)

lemma sql_legacy:
  "legacy 0 f \<Longrightarrow> legacy 1 (effects (stmts migration_1) f)" "legacy 1 f \<Longrightarrow> legacy 2 (effects (stmts migration_2) f)"
  "legacy 2 f \<Longrightarrow> legacy 3 (effects (stmts migration_3) f)" "legacy 3 f \<Longrightarrow> legacy 4 (effects (stmts migration_4) f)"
  "legacy 4 f \<Longrightarrow> legacy 5 (effects (stmts migration_5) f)" "legacy 6 f \<Longrightarrow> legacy 7 (effects (stmts migration_7) f)"
  "legacy 7 f \<Longrightarrow> legacy 8 (effects (stmts migration_8) f)" "legacy 8 f \<Longrightarrow> legacy 9 (effects (stmts migration_9) f)"
  "legacy 9 f \<Longrightarrow> legacy 10 (effects (stmts migration_10) f)" "legacy 10 f \<Longrightarrow> legacy 11 (effects (stmts migration_11) f)"
  by (simp_all add: legacy_def shape_migrations rows_migrations keys_sql migrations_def)

text \<open>One migration, run without faults.\<close>

definition advances :: "migration \<Rightarrow> bool" where
  "advances m \<longleftrightarrow> (\<forall>f. legacy (version m - 1) f \<longrightarrow>
     (\<exists>g. applyMigration m (quiet f) = (None, quiet g) \<and> user_version g = version m \<and> legacy (version m) g))"

lemma advances_sql:
  "fn m = None \<Longrightarrow> (\<And>f. legacy (version m - 1) f \<Longrightarrow> legacy (version m) (effects (stmts m) f)) \<Longrightarrow> advances m"
  unfolding advances_def using sql_migration[of m]
  by (intro allI impI, rule_tac x = "(effects (stmts m) f)\<lparr>user_version := version m\<rparr>" in exI) simp

lemma advances_redecode: "advances migration_6"
  unfolding advances_def
proof (intro allI impI)
  fix f assume "legacy (version migration_6 - 1) f"
  then obtain g where "redecodeEightBitText (quiet f) = (None, quiet g)" "legacy 6 g"
    using redecode_legacy[of f] by (auto simp: migration_6_def)
  then show "\<exists>g. applyMigration migration_6 (quiet f) = (None, quiet g) \<and> user_version g = version migration_6
      \<and> legacy (version migration_6) g"
    by (intro exI[of _ "g\<lparr>user_version := 6\<rparr>"]) (simp add: applyMigration_def migration_body_def migration_6_def)
qed

lemma sql_versions:
  "fn migration_1 = None" "fn migration_2 = None" "fn migration_3 = None" "fn migration_4 = None" "fn migration_5 = None"
  "fn migration_7 = None" "fn migration_8 = None" "fn migration_9 = None" "fn migration_10 = None" "fn migration_11 = None"
  "version migration_1 = 1" "version migration_2 = 2" "version migration_3 = 3" "version migration_4 = 4"
  "version migration_5 = 5" "version migration_6 = 6" "version migration_7 = 7" "version migration_8 = 8"
  "version migration_9 = 9" "version migration_10 = 10" "version migration_11 = 11"
  by (simp_all add: migration_defs)

lemma migrations_advance: "list_all advances migrations"
  by (simp add: migrations_def advances_redecode)
    (intro conjI advances_sql; simp add: sql_versions sql_legacy)

fun consecutive :: "int \<Rightarrow> migration list \<Rightarrow> bool" where
  "consecutive k [] = True"
| "consecutive k (m # ms) = (version m = k + 1 \<and> consecutive (k + 1) ms)"

lemma run_migrations_legacy:
  "list_all advances ms \<Longrightarrow> consecutive k ms \<Longrightarrow> legacy (max c k) f \<Longrightarrow> user_version f = max c k
   \<Longrightarrow> \<exists>g. run_migrations c ms (quiet f) = (None, quiet g) \<and> user_version g = max c (k + int (length ms))
         \<and> legacy (max c (k + int (length ms))) g"
proof (induction ms arbitrary: k f)
  case (Cons m ms)
  show ?case
  proof (cases "version m \<le> c")
    case True
    with Cons.IH[of "k + 1" f] Cons.prems show ?thesis by (simp add: max_def algebra_simps)
  next
    case False
    with Cons.prems obtain g where "applyMigration m (quiet f) = (None, quiet g)" "user_version g = k + 1" "legacy (k + 1) g"
      by (auto simp: advances_def max_def)
    with False Cons.IH[of "k + 1" g] Cons.prems show ?thesis by (simp add: max_def algebra_simps)
  qed
qed auto

text \<open>A run with faults that succeeds does what the run without them does.\<close>

lemma run_migrations_success:
  "list_all fn_ok ms \<Longrightarrow> run_migrations c ms f = (None, f') \<Longrightarrow> run_migrations c ms (quiet f) = (None, quiet f')"
proof (induction ms arbitrary: f)
  case (Cons m ms)
  show ?case
  proof (cases "version m \<le> c")
    case False
    with Cons.prems(2) obtain f1 where a: "applyMigration m f = (None, f1)" "run_migrations c ms f1 = (None, f')"
      by (auto split: prod.splits option.splits)
    from applyMigration_done(1)[OF _ a(1)] Cons.IH[OF _ a(2)] Cons.prems(1) False show ?thesis by simp
  qed (use Cons in simp)
qed simp

lemma migrate_success:
  assumes "migrate f = (None, f')"
  shows "migrate (quiet f) = (None, quiet f')"
proof -
  from assms obtain f1 f2 where f: "fails f = (False, f1)" "fails (base_schema f1) = (False, f2)"
    "run_migrations (user_version f2) migrations f2 = (None, f')"
    by (auto simp: migrate_def split: prod.splits bool.splits)
  have q: "quiet f2 = quiet (base_schema f)"
    using fails_same[OF f(1)] fails_same[OF f(2)] by (simp add: base_schema_quiet[symmetric])
  from arg_cong[OF q, of user_version] have "user_version f2 = user_version f" by simp
  with run_migrations_success[OF migrations_fn_ok f(3)] q show ?thesis by (simp add: migrate_quiet)
qed

lemma fresh_legacy:
  assumes "\<not> has_tables f" "fresh_db (fdb f)"
  shows "legacy 0 (base_schema f)"
  using assms by (simp add: legacy_def base_schema_def keys_def keys_ok_def shape_def added_columns_def rows_legacy_def
      fresh_db_def)

text \<open>A file an upgrade may meet: a new one, or one of an earlier version.\<close>

definition upgradable :: "dbfile \<Rightarrow> bool" where
  "upgradable f \<longleftrightarrow> user_version f = 0 \<and> \<not> has_tables f \<and> fresh_db (fdb f)
     \<or> 0 \<le> user_version f \<and> has_tables f \<and> legacy (user_version f) f"

lemma upgraded:
  assumes "migrate f = (None, f')" and "upgradable f"
  shows "store_inv (fdb f') \<and> list_all texts_valid (spots (fdb f')) \<and> spots_au f' = OnIndexedUpdate
    \<and> list_all (\<lambda>(_, c). c \<in> set (columns f')) added_columns \<and> user_version f' = max 11 (user_version f)"
proof -
  have "legacy (user_version f) (base_schema f)" "0 \<le> user_version f"
    using assms(2) fresh_legacy by (auto simp: base_schema_def upgradable_def)
  then have "legacy (max (user_version f) 0) (base_schema f)" "user_version (base_schema f) = max (user_version f) 0"
    by simp_all
  from run_migrations_legacy[OF migrations_advance _ this]
  obtain g where g: "migrate (quiet f) = (None, quiet g)" "user_version g = max (user_version f) 11"
    "legacy (max (user_version f) 11) g"
    by (auto simp: migrate_quiet migrations_def sql_versions)
  with migrate_success[OF assms(1)] have q: "quiet g = quiet f'" by simp
  from g(3) have "legacy (max (user_version f) 11) f'" using legacy_quiet q by metis
  moreover from arg_cong[OF q, of user_version] g(2) have "user_version f' = max (user_version f) 11" by simp
  ultimately show ?thesis
    by (auto simp: legacy_def keys_def shape_def rows_legacy_def row_legacy_def store_inv_def tables_ok_keys list_all_iff
        added_columns_def le_max_iff_disj)
qed

text \<open>C15: Whatever version of the program wrote a file, an upgrade that succeeds leaves one the program can
  work on. The file may be new, or of any earlier version, with any rows whose ids and message-ids are
  unique, whose subcategories are written as the parser writes them and whose full-text documents are
  the rows' own, under either form of the update trigger or none. Afterwards the store's invariant
  holds (the kind of every row is the kind of its subcategories, its 18+ flag says whether that is the
  erotic one, the index holds exactly the rows' texts), every title, tag and poster is valid UTF-8,
  the trigger fires exactly on indexed columns, every added column exists and the version is current.\<close>

theorem upgrade_establishes_the_invariant:
  assumes "migrate f = (None, f')" and "upgradable f"
  shows "store_inv (fdb f') \<and> list_all texts_valid (spots (fdb f')) \<and> spots_au f' = OnIndexedUpdate
    \<and> list_all (\<lambda>(_, c). c \<in> set (columns f')) added_columns \<and> user_version f' = max 11 (user_version f)"
  by (rule upgraded[OF assms])

definition old_row :: "int \<Rightarrow> string \<Rightarrow> string \<Rightarrow> int \<Rightarrow> int \<Rightarrow> int \<Rightarrow> spot_row" where
  "old_row i m title category article posted =
     \<lparr>r_id = i, r_message_id = m, r_article_num = article, r_title = title, r_description = [], r_poster = ''P'',
      r_posted_at = posted, r_tag = [], r_nzb_id = [], r_category = category, r_sub_cat_a = [], r_sub_cat_b = [],
      r_sub_cat_c = [], r_sub_cat_d = ''z3|'', r_size = 0, r_image_url = [], r_verified = False, r_moderated = False,
      r_is_adult = False, r_spotter_id = [], r_kind = 7, r_created_at = 1000\<rparr>"

text \<open>A file of the first version: an erotic film with a Windows-1252 title, and an audiobook.\<close>

definition demo_file :: dbfile where
  "demo_file =
     (let rows = [old_row 1 ''<a@x>'' [CHR 0xE9] 0 5 0, old_row 2 ''<b@x>'' ''T'' 1 9 0]
      in \<lparr>fdb = \<lparr>spots = rows, next_id = 3, spots_fts = map fts_doc_of rows, moderated_ring = [], nzbs = [], images = [],
                spotter_lists = [], sync_state = (\<lambda>_. None), app_settings = (\<lambda>_. None), clock = 0,
                faults = [], ctx_errs = []\<rparr>,
          user_version = 0, has_tables = True, columns = [], spots_au = OnAnyUpdate\<rparr>)"

lemma demo_migrates: "migrate demo_file = (None, snd (migrate demo_file))"
proof -
  have "quiet demo_file = demo_file" by (simp add: quiet_def demo_file_def Let_def)
  with run_migrations_quiet[OF migrations_fn_ok] migrate_quiet[of demo_file] show ?thesis
    by (metis prod.collapse)
qed

lemma demo_file_legacy: "legacy 0 demo_file"
proof -
  have "code_ok {CHR ''d'', CHR ''z''} ''z3''" by (simp add: code_ok_def)
  from col_ok_snoc[OF col_ok_Nil this] have "col_ok {CHR ''d'', CHR ''z''} ''z3|''" by simp
  then show ?thesis
    by (simp add: legacy_def keys_def keys_ok_def shape_def added_columns_def rows_legacy_def row_legacy_def cols_ok_def
        demo_file_def old_row_def Let_def ring_ids_def)
qed

theorem upgrade_establishes_the_invariant_witness:
  "store_inv (fdb (snd (migrate demo_file)))
   \<and> map (\<lambda>r. (r_kind r, r_is_adult r, r_title r)) (spots (fdb (snd (migrate demo_file))))
     = [(5, True, [CHR 0xC3, CHR 0xA9]), (0, False, ''T'')]"
proof -
  have v: "user_version demo_file = 0" "has_tables demo_file" by (simp_all add: demo_file_def Let_def)
  have "map (\<lambda>r. (r_kind r, r_is_adult r, r_title r)) (spots (fdb (snd (migrate demo_file))))
     = [(5, True, [CHR 0xC3, CHR 0xA9]), (0, False, ''T'')]" by code_simp
  with upgrade_establishes_the_invariant[OF demo_migrates] v demo_file_legacy show ?thesis by (simp add: upgradable_def)
qed

section \<open>What migration 4 forgets\<close>

lemma foldl_min_in: "foldl min (n :: int) ns \<in> insert n (set ns)"
proof (induction ns arbitrary: n)
  case (Cons a ns)
  from Cons[of "min n a"] show ?case by (auto simp: min_def split: if_splits)
qed simp

lemma min_article_in: "rs \<noteq> [] \<Longrightarrow> min_article rs \<in> r_article_num ` set rs"
  using foldl_min_in[of "r_article_num (hd rs)" "map r_article_num (tl rs)"]
  by (cases rs) (auto simp: min_article_def)

text \<open>The redating of migration 4 loses spots for good. It deletes every spot whose date lies within a
  minute of its indexing and rewinds the forward sync to the oldest article still held, to read the
  deleted ones again; but the oldest is determined after the deletion. A deleted spot whose article
  number is below every kept one is not re-read: the watermark it leaves is already past it.\<close>

theorem redating_forgets_the_oldest:
  assumes "applyMigration migration_4 f = (None, g)"
    and "r \<in> set (spots (fdb f))" and "dated_at_index_time r"
    and "\<exists>k\<in>set (spots (fdb f)). \<not> dated_at_index_time k"
    and "\<And>k. k \<in> set (spots (fdb f)) \<Longrightarrow> \<not> dated_at_index_time k \<Longrightarrow> r_article_num r < r_article_num k"
    and "sync_state (fdb f) ''free.pt'' = Some s"
  shows "r \<notin> set (spots (fdb g))
    \<and> (\<exists>s'. sync_state (fdb g) ''free.pt'' = Some s' \<and> r_article_num r < last_article_num s')"
proof -
  let ?kept = "filter (\<lambda>r. \<not> dated_at_index_time r) (spots (fdb f))"
  let ?e = "effects (stmts migration_4) f"
  have "quiet g = quiet (?e\<lparr>user_version := 4\<rparr>)"
    using applyMigration_done(1)[OF _ assms(1)] sql_migration[of migration_4 f] sql_versions
      migrations_fn_ok by (simp add: migrations_def)
  from arg_cong[OF this, of "\<lambda>f. spots (fdb f)"] arg_cong[OF this, of "\<lambda>f. sync_state (fdb f)"]
  have "spots (fdb g) = spots (fdb ?e)" "sync_state (fdb g) = sync_state (fdb ?e)"
    by (simp_all add: quiet_def)
  moreover have "spots (fdb ?e) = ?kept" by (simp add: migration_4_def effect_rows)
  moreover have "sync_state (fdb ?e) ''free.pt'' = Some (s\<lparr>last_article_num := min_article ?kept\<rparr>)"
    using assms(6) by (simp add: migration_4_def effect_def update_sync_def delete_spots_def Let_def)
  moreover have "min_article ?kept \<in> r_article_num ` set ?kept"
    using assms(4) by (intro min_article_in) (auto simp: filter_empty_conv)
  ultimately show ?thesis using assms(3,5) by auto
qed

text \<open>The oldest article was dated at its indexing, the next one was not.\<close>

definition demo_redated :: dbfile where
  "demo_redated = demo_file\<lparr>user_version := 3,
     fdb := (fdb demo_file)\<lparr>spots := [old_row 1 ''<a@x>'' ''T'' 1 5 990, old_row 2 ''<b@x>'' ''T'' 1 9 0],
       sync_state := [''free.pt'' \<mapsto> \<lparr>last_article_num = 20, backfill_article_num = 5, dispose_sweep_article_num = 0\<rparr>]\<rparr>\<rparr>"

theorem redating_forgets_the_oldest_witness:
  "let g = snd (applyMigration migration_4 demo_redated)
   in map r_article_num (spots (fdb g)) = [9] \<and> map_option last_article_num (sync_state (fdb g) ''free.pt'') = Some 9
      \<and> (\<exists>s'. sync_state (fdb g) ''free.pt'' = Some s' \<and> 5 < last_article_num s')"
proof -
  let ?a = "applyMigration migration_4 demo_redated"
  have e: "fst ?a = None" "map r_article_num (spots (fdb (snd ?a))) = [9]"
    "map_option last_article_num (sync_state (fdb (snd ?a)) ''free.pt'') = Some 9" by code_simp+
  then have a: "?a = (None, snd ?a)" by (simp add: prod_eq_iff)
  let ?r = "old_row 1 ''<a@x>'' ''T'' 1 5 990"
  have s: "spots (fdb demo_redated) = [?r, old_row 2 ''<b@x>'' ''T'' 1 9 0]" by (simp add: demo_redated_def)
  have d: "dated_at_index_time ?r" "\<not> dated_at_index_time (old_row 2 ''<b@x>'' ''T'' 1 9 0)"
    by (simp_all add: dated_at_index_time_def old_row_def)
  have y: "sync_state (fdb demo_redated) ''free.pt''
      = Some \<lparr>last_article_num = 20, backfill_article_num = 5, dispose_sweep_article_num = 0\<rparr>"
    by (simp add: demo_redated_def)
  have n: "r_article_num ?r = 5" "r_article_num (old_row 2 ''<b@x>'' ''T'' 1 9 0) = 9" by (simp_all add: old_row_def)
  have r: "?r \<in> set (spots (fdb demo_redated))" and k: "\<exists>k\<in>set (spots (fdb demo_redated)). \<not> dated_at_index_time k"
    using d(2) by (simp_all add: s)
  have older: "r_article_num ?r < r_article_num k"
    if "k \<in> set (spots (fdb demo_redated))" "\<not> dated_at_index_time k" for k
    using that d(1) n by (auto simp: s)
  from redating_forgets_the_oldest[OF a r d(1) k older y] e(2,3) n show ?thesis by (simp add: Let_def)
qed

end
