(* ===== verification/CspProps.thy ===== *)
theory CspProps
  imports Csp
begin

text \<open>
  The policy: the scan returns on every document, on a well-formed one it finds exactly the inline
  scripts, and what a browser reads in the policy are the hashes of those scripts and the fixed
  directives, whatever the document contains.
\<close>

section \<open>Searching\<close>

lemma go_index_bound: "go_index s p = Some i \<Longrightarrow> i + length p \<le> length s"
  using go_index_Some[of s p i] by (auto simp: has_prefix_iff dest!: arg_cong[of "drop i s" _ length])

lemma go_index_single: "go_index s [c] = None \<longleftrightarrow> c \<notin> set s"
  by (induction s) auto

lemma go_index_skip: "x \<notin> set u \<Longrightarrow> go_index (u @ t) (x # q) = map_option ((+) (length u)) (go_index t (x # q))"
  by (cases "go_index t (x # q)"; induction u) auto

text \<open>A pattern whose first byte does not occur again cannot begin before the place where it is put,
  unless it lies before that place altogether.\<close>

lemma has_prefix_straddle:
  assumes "has_prefix (t @ (x # q) @ r) (x # q)" and "t \<noteq> []" and "x \<notin> set q"
  shows "has_prefix t (x # q)"
proof (cases "length (x # q) \<le> length t")
  case True
  then show ?thesis using assms(1) by (simp add: has_prefix_def)
next
  case False
  with assms(1) have "t @ take (length (x # q) - length t) ((x # q) @ r) = x # q" by (simp add: has_prefix_def)
  moreover obtain k where "length (x # q) - length t = Suc k" using False by (metis Suc_diff_le diff_Suc_Suc leI not_less_eq_eq)
  moreover obtain zs where "take (Suc k) ((x # q) @ r) = x # zs" by simp
  ultimately have "t @ x # zs = x # q" by simp
  with assms(2) have "x \<in> set q" by (cases t) auto
  with assms(3) show ?thesis by simp
qed

lemma go_index_first:
  "go_index t (x # q) = None \<Longrightarrow> x \<notin> set q \<Longrightarrow> go_index (t @ (x # q) @ r) (x # q) = Some (length t)"
proof (induction t)
  case (Cons a t)
  then have "\<not> has_prefix (a # t) (x # q)" by (auto split: if_splits)
  with has_prefix_straddle[of "a # t" x q r] Cons.prems(2) have "\<not> has_prefix ((a # t) @ (x # q) @ r) (x # q)" by blast
  with Cons show ?case by (simp del: has_prefix_Cons split: if_splits)
qed simp

section \<open>The scan returns\<close>

lemma scan_scripts_returns: "\<exists>r. scan_scripts lower html pos out = Some r"
proof (induction "length lower - pos" arbitrary: pos out rule: less_induct)
  case less
  have next_turn: "\<exists>r. scan_scripts lower html (Suc (k + (j + (i + pos)))) out' = Some r"
    if "go_index (drop (j + (i + pos)) lower) ''</script'' = Some k" for i j k out'
    using go_index_bound[OF that] by (intro less) simp
  show ?case
    by (subst scan_scripts.simps) (auto simp: Let_def split: option.split intro!: next_turn)
qed


section \<open>The scan finds the inline scripts\<close>

text \<open>A document as its script elements, each with the text before it, and the text after the last.\<close>

record element =
  el_text :: string
  el_open :: string
  el_attrs :: string
  el_body :: string
  el_close :: string

fun render :: "element list \<Rightarrow> string \<Rightarrow> string" where
  "render [] after = after"
| "render (e # es) after =
     el_text e @ el_open e @ el_attrs e @ ''>'' @ el_body e @ el_close e @ render es after"

abbreviation lowered :: "string \<Rightarrow> string" where "lowered \<equiv> map lower_char"

definition element_ok :: "element \<Rightarrow> bool" where
  "element_ok e \<longleftrightarrow> \<not> go_contains (lowered (el_text e)) ''<script'' \<and> lowered (el_open e) = ''<script''
     \<and> CHR ''>'' \<notin> set (el_attrs e) \<and> \<not> go_contains (lowered (el_body e)) ''</script''
     \<and> lowered (el_close e) = ''</script''"

definition inline_script :: "element \<Rightarrow> bool" where
  "inline_script e \<longleftrightarrow> \<not> go_contains (lowered (el_open e @ el_attrs e @ ''>'')) '' src=''"

definition inline_bodies :: "element list \<Rightarrow> string list" where
  "inline_bodies es = filter (\<lambda>b. trim_space b \<noteq> []) (map el_body (filter inline_script es))"

lemma inline_bodies_simps [simp]:
  "inline_bodies [] = []"
  "inline_bodies (e # es) =
     (if inline_script e \<and> trim_space (el_body e) \<noteq> [] then [el_body e] else []) @ inline_bodies es"
  by (simp_all add: inline_bodies_def)

lemma lower_char_gt: "lower_char c = CHR ''>'' \<longleftrightarrow> c = CHR ''>''"
proof -
  have "lower_char c \<noteq> CHR ''>''" if "c \<noteq> CHR ''>''"
  proof
    assume l: "lower_char c = CHR ''>''"
    have "(of_char (CHR ''>'') :: nat) = 62" by simp
    with l that show False
      by (auto simp: lower_char_def Let_def split: if_splits dest!: arg_cong[of _ "CHR ''>''" "of_char :: char \<Rightarrow> nat"])
  qed
  then show ?thesis by (auto simp: lower_char_def)
qed

lemma lower_char_gt_self [simp]: "lower_char (CHR ''>'') = CHR ''>''"
  by (simp add: lower_char_gt)

lemma gt_lowered: "CHR ''>'' \<in> set (lowered s) \<longleftrightarrow> CHR ''>'' \<in> set s"
proof (induction s)
  case (Cons a s)
  have "CHR ''>'' = lower_char a \<longleftrightarrow> CHR ''>'' = a" using lower_char_gt[of a] by metis
  with Cons show ?case by simp
qed simp

lemma go_contains_skip': "x \<notin> set u \<Longrightarrow> go_contains (u @ t) (x # q) = go_contains t (x # q)"
  by (simp add: go_contains_def go_index_skip)

lemma scan_render:
  assumes "list_all element_ok es" and "\<not> go_contains (lowered after) ''<script''"
    and "CHR ''<'' \<notin> set (lowered junk)"
  shows "scan_scripts (lowered (pre @ junk @ render es after)) (pre @ junk @ render es after) (length pre) out
    = Some (Returns (out @ inline_bodies es))"
  using assms
proof (induction es arbitrary: pre junk out)
  case Nil
  then have "go_index (lowered junk @ lowered after) ''<script'' = None"
    using go_contains_skip'[of "CHR ''<''" "lowered junk" "lowered after" "''script''"] by (simp add: go_contains_def)
  then show ?case by (subst scan_scripts.simps) simp
next
  case (Cons e es)
  let ?rest = "render es after"
  let ?html = "pre @ junk @ render (e # es) after"
  let ?start = "length pre + length junk + length (el_text e)"
  let ?tagEnd = "?start + length (el_open e) + length (el_attrs e)"
  let ?close = "?tagEnd + 1 + length (el_body e)"
  from Cons.prems(1) have ok: "element_ok e" by simp
  have open_close: "lowered (el_open e) = ''<script''" "lowered (el_close e) = ''</script''"
    using ok by (simp_all add: element_ok_def)
  have len: "length (el_open e) = 7" "length (el_close e) = 8"
    using arg_cong[OF open_close(1), of length] arg_cong[OF open_close(2), of length] by simp_all
  have 1: "go_index (drop (length pre) (lowered ?html)) ''<script'' = Some (length junk + length (el_text e))"
    using go_index_first[of "lowered (junk @ el_text e)" "CHR ''<''" "''script''"
        "lowered (el_attrs e @ ''>'' @ el_body e @ el_close e @ ?rest)"]
      go_contains_skip'[of "CHR ''<''" "lowered junk" "lowered (el_text e)" "''script''"] ok Cons.prems(3) open_close
    by (simp add: element_ok_def go_contains_def)
  have "CHR ''>'' \<notin> set (lowered (el_open e))" unfolding open_close by simp
  then have no_gt: "CHR ''>'' \<notin> set (lowered (el_open e @ el_attrs e))"
    using ok by (simp add: element_ok_def gt_lowered del: set_map)
  have 2: "go_index (drop ?start (lowered ?html)) ''>'' = Some (length (el_open e) + length (el_attrs e))"
    using go_index_first[of "lowered (el_open e @ el_attrs e)" "CHR ''>''" "[]"
        "lowered (el_body e @ el_close e @ ?rest)"] no_gt
    by (simp add: go_index_single)
  have tag: "take (?tagEnd + 1 - ?start) (drop ?start (lowered ?html)) = lowered (el_open e @ el_attrs e @ ''>'')"
    by simp
  have d: "drop ?tagEnd (lowered ?html) = ''>'' @ lowered (el_body e) @ lowered (el_close e) @ lowered ?rest"
    by simp
  have 3: "go_index (drop ?tagEnd (lowered ?html)) ''</script'' = Some (1 + length (el_body e))"
    using go_index_first[of "lowered (''>'' @ el_body e)" "CHR ''<''" "''/script''" "lowered ?rest"]
      go_contains_skip'[of "CHR ''<''" "lowered ''>''" "lowered (el_body e)" "''/script''"] ok open_close
    unfolding d by (simp add: element_ok_def go_contains_def)
  have body: "take (?close - (?tagEnd + 1)) (drop (?tagEnd + 1) ?html) = el_body e" by simp
  have fits: "\<not> length ?html < ?close" by simp
  obtain c cs where cc: "el_close e = c # cs" "CHR ''<'' \<notin> set (lowered cs)"
    using open_close(2) by (cases "el_close e") auto
  let ?pre = "pre @ junk @ el_text e @ el_open e @ el_attrs e @ ''>'' @ el_body e @ [c]"
  have split: "?html = ?pre @ cs @ ?rest" using cc(1) by simp
  have at: "length ?pre = ?close + 1" by simp
  have IH: "scan_scripts (lowered ?html) ?html (?close + 1) out' = Some (Returns (out' @ inline_bodies es))" for out'
    using Cons.IH[of cs ?pre out'] Cons.prems cc(2) unfolding split at by simp
  have tagEnd: "length (el_open e) + length (el_attrs e) + ?start = ?tagEnd" by simp
  have close: "1 + length (el_body e) + ?tagEnd = ?close" by simp
  have start: "length junk + length (el_text e) + length pre = ?start" by simp
  show ?case
    by (subst scan_scripts.simps)
      (simp only: 1 2 3 tag body fits IH start tagEnd close Let_def option.case if_False if_True
        inline_bodies_simps inline_script_def append_assoc append_Nil append_Cons if_distrib[of "\<lambda>x. out @ x"]
        if_cancel append_Nil2 split: if_split, simp)
qed

lemma render_ascii:
  "list_all is_ascii (render es after) \<Longrightarrow> to_lower (render es after) = lowered (render es after)"
  by (rule to_lower_ascii)

text \<open>The scan finds exactly the inline scripts. Of an ASCII document, seen as script elements with
  texts between them (tags in any case, no tag of a script inside a text or a body), it returns the
  bodies of the elements without a \<open>src\<close> attribute, byte for byte and in order, leaving out the blank
  ones: what the browser will hash.\<close>

lemma scan_finds_the_inline_scripts:
  assumes "list_all element_ok es" and "\<not> go_contains (lowered after) ''<script''"
    and "list_all is_ascii (render es after)"
  shows "extractInlineScripts (render es after) = Some (Returns (inline_bodies es))"
  using scan_render[OF assms(1,2), of "[]" "[]" "[]"] render_ascii[OF assms(3)]
  by (simp add: extractInlineScripts_def)

definition demo_page :: "element list" where
  "demo_page =
     [\<lparr>el_text = ''<html>'', el_open = ''<script'', el_attrs = '' src=x'', el_body = [], el_close = ''</script''\<rparr>,
      \<lparr>el_text = ''> '', el_open = ''<SCRIPT'', el_attrs = '' type=module'', el_body = ''boot(1<2)'',
       el_close = ''</Script''\<rparr>,
      \<lparr>el_text = ''>'', el_open = ''<script'', el_attrs = [], el_body = '' '', el_close = ''</script''\<rparr>]"

theorem scan_finds_the_inline_scripts_witness:
  "extractInlineScripts (render demo_page ''></html>'') = Some (Returns [''boot(1<2)''])"
proof -
  have "list_all element_ok demo_page" by code_simp
  moreover have "\<not> go_contains (lowered ''></html>'') ''<script''" by code_simp
  moreover have "list_all is_ascii (render demo_page ''></html>'')" by code_simp
  ultimately have "extractInlineScripts (render demo_page ''></html>'') = Some (Returns (inline_bodies demo_page))"
    by (rule scan_finds_the_inline_scripts)
  moreover have "inline_bodies demo_page = [''boot(1<2)'']" by code_simp
  ultimately show ?thesis by simp
qed

text \<open>Outside ASCII the offsets can be those of another text: a capital I with a dot, two bytes that become
  one, shifts every script after it, and the hash is that of a text the browser never sees.\<close>

lemma scan_shifts_after_dotted_I:
  "extractInlineScripts ([CHR 0xC4, CHR 0xB0] @ ''<script>boot()</script>'') = Some (Returns [''>boot('' ])"
  by code_simp

section \<open>What the browser reads\<close>

text \<open>The directives of a policy: its parts between semicolons, each a name and its values.\<close>

definition directives :: "string \<Rightarrow> string list list" where
  "directives policy = map (\<lambda>d. filter (\<lambda>w. w \<noteq> []) (split_on (CHR '' '') d)) (split_on (CHR '';'') policy)"

definition quoted :: "string \<Rightarrow> string" where
  "quoted s = [CHR 0x27] @ s @ [CHR 0x27]"

definition fixed_directives :: "string list list" where
  "fixed_directives =
     [[''default-src'', quoted ''self''], [''style-src'', quoted ''self'', quoted ''unsafe-inline''],
      [''img-src'', quoted ''self'', ''data:''], [''font-src'', quoted ''self'', ''data:''],
      [''connect-src'', quoted ''self''], [''object-src'', quoted ''none''], [''base-uri'', quoted ''none''],
      [''form-action'', quoted ''self''], [''frame-ancestors'', quoted ''none'']]"

lemma b64_char_plain: "b64_char n \<noteq> CHR '';'' \<and> b64_char n \<noteq> CHR '' ''"
  using b64_val_char[of n] by (cases "n < 64") (auto simp: b64_val_def b64_char_def)

lemma b64_encode_plain: "CHR '';'' \<notin> set (b64_encode s) \<and> CHR '' '' \<notin> set (b64_encode s)"
  by (induction s rule: b64_encode.induct)
    (simp_all add: Let_def b64_char_plain b64_char_plain[THEN conjunct1, symmetric] b64_char_plain[THEN conjunct2, symmetric])

lemma csp_hash_plain: "CHR '';'' \<notin> set (csp_hash c)" "CHR '' '' \<notin> set (csp_hash c)"
  using b64_encode_plain[of "sha256 c"] by (simp_all add: csp_hash_def)

lemma add_hashes_result:
  "distinct out \<Longrightarrow> distinct (add_hashes cs out) \<and> set (add_hashes cs out) = set out \<union> csp_hash ` set cs"
  by (induction cs arbitrary: out) (auto simp: Let_def)

lemma split_on_words:
  "\<lbrakk>c \<notin> set w; list_all (\<lambda>h. c \<notin> set h) hs\<rbrakk>
   \<Longrightarrow> split_on c (w @ concat (map (\<lambda>h. c # h) hs)) = w # hs"
  by (induction hs arbitrary: w) (simp_all add: split_on_no_sep split_on_append_sep)

lemma directives_policy:
  assumes "list_all (\<lambda>h. CHR '';'' \<notin> set h \<and> CHR '' '' \<notin> set h) hs"
  shows "directives (''script-src 'self'' @ [CHR 0x27] @ concat (map (\<lambda>h. [CHR '' '', CHR 0x27] @ h @ [CHR 0x27]) hs)
            @ ''; '' @ baseCSPDirectives)
    = (''script-src'' # quoted ''self'' # map quoted hs) # fixed_directives"
proof -
  let ?srcs = "concat (map (\<lambda>h. [CHR '' '', CHR 0x27] @ h @ [CHR 0x27]) hs)"
  let ?first = "''script-src 'self'' @ [CHR 0x27] @ ?srcs"
  have srcs: "?srcs = concat (map (\<lambda>h. CHR '' '' # h) (map quoted hs))" by (induction hs) (simp_all add: quoted_def)
  have "CHR '';'' \<notin> set ?first" using assms by (auto simp: list_all_iff)
  then have "split_on (CHR '';'') (?first @ CHR '';'' # CHR '' '' # baseCSPDirectives)
      = ?first # split_on (CHR '';'') (CHR '' '' # baseCSPDirectives)" by (rule split_on_append_sep)
  moreover have "map (\<lambda>d. filter (\<lambda>w. w \<noteq> []) (split_on (CHR '' '') d)) (split_on (CHR '';'') (CHR '' '' # baseCSPDirectives))
      = fixed_directives" by code_simp
  moreover have "filter (\<lambda>w. w \<noteq> []) (split_on (CHR '' '') ?first) = ''script-src'' # quoted ''self'' # map quoted hs"
  proof -
    have "?first = ''script-src'' @ concat (map (\<lambda>h. CHR '' '' # h) (quoted ''self'' # map quoted hs))"
      unfolding srcs by (simp add: quoted_def)
    moreover have "list_all (\<lambda>h. CHR '' '' \<notin> set h) (quoted ''self'' # map quoted hs)"
      using assms by (auto simp: quoted_def list_all_iff)
    moreover have "CHR '' '' \<notin> set ''script-src''" by simp
    ultimately have "split_on (CHR '' '') ?first = ''script-src'' # quoted ''self'' # map quoted hs"
      by (metis split_on_words)
    moreover have "filter (\<lambda>w. w \<noteq> []) (map quoted hs) = map quoted hs" by (induction hs) (simp_all add: quoted_def)
    ultimately show ?thesis by (simp add: quoted_def)
  qed
  ultimately show ?thesis by (simp add: directives_def)
qed

lemma policy_hashes:
  assumes "buildCSP doc = Some (Returns policy)"
  shows "\<exists>hs scripts. directives policy = (''script-src'' # quoted ''self'' # map quoted hs) # fixed_directives
    \<and> distinct hs \<and> set hs = csp_hash ` set scripts
    \<and> (case doc of None \<Rightarrow> scripts = []
       | Some html \<Rightarrow> extractInlineScripts (take (4 * 2 ^ 20) html) = Some (Returns scripts))"
proof -
  obtain hs where h: "inlineScriptHashes doc = Some (Returns hs)"
    and p: "policy = ''script-src 'self'' @ [CHR 0x27] @ concat (map (\<lambda>h. [CHR '' '', CHR 0x27] @ h @ [CHR 0x27]) hs)
      @ ''; '' @ baseCSPDirectives"
    using assms by (auto simp: buildCSP_def split: option.splits run.splits)
  obtain scripts where s: "hs = add_hashes scripts []"
    "case doc of None \<Rightarrow> scripts = []
     | Some html \<Rightarrow> extractInlineScripts (take (4 * 2 ^ 20) html) = Some (Returns scripts)"
  proof (cases doc)
    case None
    with h that[of "[]"] show ?thesis by (simp add: inlineScriptHashes_def)
  next
    case (Some html)
    with h that show ?thesis by (auto simp: inlineScriptHashes_def split: option.splits run.splits)
  qed
  have hs: "distinct hs" "set hs = csp_hash ` set scripts" using add_hashes_result[of "[]" scripts] s(1) by simp_all
  then have "list_all (\<lambda>h. CHR '';'' \<notin> set h \<and> CHR '' '' \<notin> set h) hs" using csp_hash_plain by (auto simp: list_all_iff)
  from directives_policy[OF this] p have "directives policy = (''script-src'' # quoted ''self'' # map quoted hs) # fixed_directives"
    by simp
  with s(2) hs show ?thesis by blast
qed


lemma distinct_one: "distinct xs \<Longrightarrow> set xs = {x} \<Longrightarrow> xs = [x]"
  by (cases xs; cases "tl xs") auto


end
