(* ===== verification/ApiProps.thy ===== *)
theory ApiProps
  imports Api SyncProps StoreSpec
begin

text \<open>
  What the handlers keep. The locale \<open>handler_invariant\<close> is the contract between a property of the
  server's state and the handlers: a property that every store operation they call keeps, and every
  lease handed back again, is kept by every handler, on every branch. It is interpreted twice: the
  handlers act on the database only by store operations, and every leased connection is handed back.
  Then who may see what: 18+ spots on a server that does not allow them, the page size, and what is
  closed to a caller without the password and the key.
\<close>

section \<open>The contract\<close>

lemma api_dbE:
  assumes "api_db f s = (r, s')"
  obtains d where "f (adb s) = (r, d)" "s' = s\<lparr>adb := d\<rparr>"
  using assms by (auto simp: api_db_def split: prod.splits)

lemma query_env: "query f d = (r, d') \<Longrightarrow> \<exists>fs. d' = d\<lparr>faults := fs\<rparr>"
  by (auto dest: query_same)

lemma SearchSpots_env: "SearchSpots m p d = (r, d') \<Longrightarrow> \<exists>fs. d' = d\<lparr>faults := fs\<rparr>"
  by (auto simp: SearchSpots_def Let_def split: prod.splits sum.splits dest!: query_env)

lemma Add1_fields [simp]:
  "adb (Add1 c s) = adb s" "asess (Add1 c s) = asess s" "gives (Add1 c s) = gives s" "returned (Add1 c s) = returned s"
  by (simp_all add: Add1_def)

lemma leaseNNTP_None:
  "leaseNNTP A s = (None, s1) \<longleftrightarrow>
     gives s = [] \<and> s1 = Add1 metricNNTPDialFail_update s
     \<or> (\<exists>gs. gives s = None # gs \<and> s1 = Add1 metricNNTPDialFail_update (s\<lparr>gives := gs\<rparr>))"
  by (auto simp: leaseNNTP_def split: list.splits option.splits)

lemma leaseNNTP_Some:
  "leaseNNTP A s = (Some c, s1) \<longleftrightarrow>
     (\<exists>c0 gs. gives s = Some c0 # gs \<and> c = SetMaxArticleBytes (MaxArticleBytes (cfg A)) c0 \<and> s1 = s\<lparr>gives := gs\<rparr>)"
  by (auto simp: leaseNNTP_def split: list.splits option.splits)

lemmas leaseNNTP_eqs = leaseNNTP_None leaseNNTP_Some

locale handler_invariant =
  fixes Q :: "api_io \<Rightarrow> bool" and A :: "'f app"
  assumes store_keeps: "Q s \<Longrightarrow> store_step (\<lambda>_. False) (adb s) d \<Longrightarrow> Q (s\<lparr>adb := d\<rparr>)"
    and lease_refused: "Q s \<Longrightarrow> leaseNNTP A s = (None, s1) \<Longrightarrow> Q s1"
    and counted: "Q s \<Longrightarrow> f \<in> {metricNZBFetches_update, metricNZBCacheHits_update, metricNZBFailures_update} \<Longrightarrow> Q (Add1 f s)"
    and lease_returned: "Q s \<Longrightarrow> leaseNNTP A s = (Some c, s1) \<Longrightarrow> Q (hand_back c' broken s1)"
begin

lemma Add1_keeps:
  "Q s \<Longrightarrow> Q (Add1 metricNZBFetches_update s)" "Q s \<Longrightarrow> Q (Add1 metricNZBCacheHits_update s)"
  "Q s \<Longrightarrow> Q (Add1 metricNZBFailures_update s)"
  by (simp_all add: counted)

lemma faults_keep: "Q s \<Longrightarrow> Q (s\<lparr>adb := (adb s)\<lparr>faults := fs\<rparr>\<rparr>)"
  using store_keeps[OF _ store_step.env[where d = "adb s" and t = "clock (adb s)" and fs = fs
      and es = "ctx_errs (adb s)"]] by simp

lemma reads_keep:
  "api_db (GetSpotByID i) s = (u1, s') \<Longrightarrow> Q s \<Longrightarrow> Q s'"
  "api_db (GetCachedNZB m) s = (u2, s') \<Longrightarrow> Q s \<Longrightarrow> Q s'"
  "api_db (GetCachedImage m) s = (u3, s') \<Longrightarrow> Q s \<Longrightarrow> Q s'"
  by (auto simp: GetSpotByID_def GetCachedNZB_def GetCachedImage_def
      elim!: api_dbE dest!: query_env split: prod.splits sum.splits intro: faults_keep)

lemma health_keeps:
  "metricsHandler r s = (resp, s') \<Longrightarrow> Q s \<Longrightarrow> Q s'"
  "readyz r s = (resp, s') \<Longrightarrow> Q s \<Longrightarrow> Q s'"
proof -
  have counts: "Q s'" if "api_db CountSpots s = (u, s')" "Q s" for s s' u
    using that by (auto simp: CountSpots_def elim!: api_dbE dest!: query_env intro: faults_keep)
  have bytes: "Q s'" if "api_db CacheBytes s = (u, s')" "Q s" for s s' u
    using that by (auto elim!: api_dbE dest!: CacheBytes_same intro: faults_keep)
  show "metricsHandler r s = (resp, s') \<Longrightarrow> Q s \<Longrightarrow> Q s'"
    by (auto simp: metricsHandler_def split: prod.splits dest!: counts bytes)
  show "readyz r s = (resp, s') \<Longrightarrow> Q s \<Longrightarrow> Q s'"
    by (auto simp: readyz_def split: prod.splits sum.splits elim!: api_dbE dest!: query_env intro: faults_keep)
qed

lemma search_keeps: "api_db (SearchSpots m p) s = (u, s') \<Longrightarrow> Q s \<Longrightarrow> Q s'"
  using SearchSpots_env[of m p "adb s"] faults_keep[of s] by (auto elim!: api_dbE)

lemma writes_keep:
  "api_db (UpdateSpotEnrichment sp) s = (u1, s') \<Longrightarrow> Q s \<Longrightarrow> Q s'"
  "api_db (CacheNZB i c) s = (u1, s') \<Longrightarrow> Q s \<Longrightarrow> Q s'"
  "api_db (CacheImage i c m) s = (u1, s') \<Longrightarrow> Q s \<Longrightarrow> Q s'"
  by (auto elim!: api_dbE intro: store_keeps store_step.enrich store_step.nzb store_step.image)

lemma enrichSpot_keeps: "enrichSpot A X spot s = (r, s') \<Longrightarrow> Q s \<Longrightarrow> Q s'"
  by (auto simp: enrichSpot_def split: prod.splits option.splits sum.splits
      intro: lease_refused lease_returned)

lemma fetchNZBSegment_keeps: "fetchNZBSegment A X i s = (r, s') \<Longrightarrow> Q s \<Longrightarrow> Q s'"
  by (auto simp: fetchNZBSegment_def split: prod.splits option.splits sum.splits
      intro: lease_refused lease_returned)

lemma fetchImageSegments_keeps: "fetchImageSegments A segs s = (r, s') \<Longrightarrow> Q s \<Longrightarrow> Q s'"
  by (auto simp: fetchImageSegments_def split: prod.splits option.splits sum.splits if_splits
      intro: lease_refused lease_returned)

lemma resolve_cached_keeps: "resolve_cached A X spot s = (r, s') \<Longrightarrow> Q s \<Longrightarrow> Q s'"
proof -
  assume r: "resolve_cached A X spot s = (r, s')" and q: "Q s"
  obtain u s1 where g: "api_db (GetCachedNZB (sp_NzbID spot)) s = (u, s1)" by fastforce
  obtain v s2 where f: "fetchNZBSegment A X (sp_NzbID spot) (Add1 metricNZBFetches_update s1) = (v, s2)" by fastforce
  have q1: "Q s1" using reads_keep(2)[OF g q] .
  have q2: "Q s2" using fetchNZBSegment_keeps[OF f Add1_keeps(1)[OF q1]] .
  from r q q1 q2 g f show "Q s'"
    by (auto simp: resolve_cached_def Let_def Add1_keeps split: prod.splits sum.splits option.splits if_splits dest!: writes_keep)
qed

lemma resolveNZB_keeps: "resolveNZB A X i s = (r, s') \<Longrightarrow> Q s \<Longrightarrow> Q s'"
  by (auto simp: resolveNZB_def Let_def
      split: prod.splits sum.splits option.splits if_splits fetch_error.splits enrich_error.splits
      dest!: enrichSpot_keeps resolve_cached_keeps reads_keep writes_keep)

lemma getSpot_keeps: "getSpot A X r s = (resp, s') \<Longrightarrow> Q s \<Longrightarrow> Q s'"
  by (auto simp: getSpot_def Let_def
      split: prod.splits sum.splits option.splits if_splits fetch_error.splits enrich_error.splits
      dest!: enrichSpot_keeps reads_keep writes_keep)

lemma downloadNZB_keeps: "downloadNZB A X r s = (resp, s') \<Longrightarrow> Q s \<Longrightarrow> Q s'"
  by (auto simp: downloadNZB_def split: prod.splits sum.splits option.splits dest: resolveNZB_keeps)

lemma sab_keeps:
  "sendToSAB A X body r s = (resp, s') \<Longrightarrow> Q s \<Longrightarrow> Q s'"
  "sabQueue A X r s = (resp, s') \<Longrightarrow> Q s \<Longrightarrow> Q s'"
  "sabCategories A X r s = (resp, s') \<Longrightarrow> Q s \<Longrightarrow> Q s'"
  by (auto simp: sendToSAB_def sabQueue_def sabCategories_def Let_def
      split: prod.splits sum.splits option.splits if_splits dest: resolveNZB_keeps)

lemma getImage_keeps: "getImage A X r s = (resp, s') \<Longrightarrow> Q s \<Longrightarrow> Q s'"
  by (auto simp: getImage_def Let_def split: prod.splits sum.splits option.splits if_splits
      dest!: fetchImageSegments_keeps reads_keep writes_keep)

lemma searches_keep:
  "listSpots A X r s = (resp, s') \<Longrightarrow> Q s \<Longrightarrow> Q s'"
  "newznabHandler A X info r s = (resp, s') \<Longrightarrow> Q s \<Longrightarrow> Q s'"
  by (auto simp: listSpots_def newznabHandler_def newznabSearch_def Let_def
      split: prod.splits sum.splits if_splits dest!: search_keeps)

end


text \<open>With the session store, whatever the handlers make of it, the whole router keeps the property; so
  does a run of requests, each with the instant and the answers of the outside it meets.\<close>

fun serve ::
  "(string \<Rightarrow> ip_addr option) \<Rightarrow> 'f app \<Rightarrow> (outside \<times> route \<times> request) list \<Rightarrow> api_io \<Rightarrow> response list \<times> api_io" where
  "serve pa A [] s = ([], s)"
| "serve pa A ((X, rt, r) # reqs) s =
     (case Router pa A X rt r s of
        (resp, s1) \<Rightarrow> (case serve pa A reqs s1 of (resps, s2) \<Rightarrow> (resp # resps, s2)))"

locale server_invariant = handler_invariant Q A for Q and A :: "'f app" +
  assumes sessions_keep: "Q s \<Longrightarrow> Q (s\<lparr>asess := ss\<rparr>)"
    and refusals_keep: "Q s \<Longrightarrow> Q (Add1 metricAuthFailures_update s)"
begin

lemma auth_keeps:
  "authLogin A X b r s = (resp, s') \<Longrightarrow> Q s \<Longrightarrow> Q s'"
  "authLogout r s = (resp, s') \<Longrightarrow> Q s \<Longrightarrow> Q s'"
  by (auto simp: authLogin_def authLogout_def Let_def split: prod.splits option.splits if_splits
      intro!: sessions_keep refusals_keep)

lemma handle_keeps: "handle A X info rt r s = (resp, s') \<Longrightarrow> Q s \<Longrightarrow> Q s'"
  by (cases rt) (auto simp: handle_def requireAPIKey_def requireAuth_def nzbAccess_def authStatus_def appConfig_def healthz_def
      split: if_splits prod.splits intro: refusals_keep
      dest: searches_keep auth_keeps getSpot_keeps downloadNZB_keeps getImage_keeps sab_keeps health_keeps)

lemma Router_keeps: "Router pa A X rt r s = (resp, s') \<Longrightarrow> Q s \<Longrightarrow> Q s'"
  by (auto simp: Router_def split: prod.splits dest: handle_keeps)

lemma serve_keeps: "serve pa A reqs s = (resps, s') \<Longrightarrow> Q s \<Longrightarrow> Q s'"
proof (induction reqs arbitrary: s resps)
  case (Cons q reqs)
  then show ?case by (cases q) (fastforce split: prod.splits dest: Router_keeps)
qed simp

end

section \<open>The database and the connections\<close>

interpretation stepping: server_invariant "\<lambda>s. (store_step (\<lambda>_. False))\<^sup>*\<^sup>* d0 (adb s)" A for d0 A
  by unfold_locales
    (auto simp: leaseNNTP_eqs hand_back_def intro: rtranclp.rtrancl_into_rtrancl)

text \<open>C17: The handlers refine the store. Whatever requests arrive, whatever the provider answers and
  whatever statements fail, the handlers act on the database only through sequences of store
  operations, none of which inserts a spot; so what holds of the store and of the engine's steps
  holds with any number of requests in between.\<close>

theorem handlers_refine_store:
  "(store_step (\<lambda>_. False))\<^sup>*\<^sup>* (adb s) (adb (snd (serve pa A reqs s)))
   \<and> (work_step L wcfg)\<^sup>*\<^sup>* (adb s) (adb (snd (serve pa A reqs s)))"
proof -
  obtain resps s' where r: "serve pa A reqs s = (resps, s')" by fastforce
  with stepping.serve_keeps have k: "(store_step (\<lambda>_. False))\<^sup>*\<^sup>* (adb s) (adb s')" by blast
  then have "(work_step L wcfg)\<^sup>*\<^sup>* (adb s) (adb s')"
    by (induction rule: rtranclp_induct)
      (auto intro: rtranclp.rtrancl_into_rtrancl work_step.store store_step_mono)
  with k r show ?thesis by simp
qed

definition leases_balanced :: "conn option list \<Rightarrow> nat \<Rightarrow> api_io \<Rightarrow> bool" where
  "leases_balanced gs n s \<longleftrightarrow>
     (\<exists>k. gives s = drop k gs \<and> length (returned s) = n + length (filter (\<lambda>g. g \<noteq> None) (take k gs)))"

lemma balanced_next:
  assumes "gives s = g # gs'" and "leases_balanced gs n s"
  shows "\<exists>k. gs' = drop k gs \<and> length (returned s) + (if g = None then 0 else 1)
    = n + length (filter (\<lambda>g. g \<noteq> None) (take k gs))"
proof -
  from assms obtain k where k: "g # gs' = drop k gs"
    "length (returned s) = n + length (filter (\<lambda>g. g \<noteq> None) (take k gs))"
    by (auto simp: leases_balanced_def)
  then have "k < length gs" by (metis drop_eq_Nil2 linorder_not_less list.distinct(1))
  moreover from this k(1) have "gs' = drop (Suc k) gs" "g = gs ! k"
    by (simp_all add: Cons_nth_drop_Suc[symmetric])
  ultimately show ?thesis using k(2) by (intro exI[of _ "Suc k"]) (simp add: take_Suc_conv_app_nth)
qed

interpretation leases: server_invariant "leases_balanced gs n" A for gs n A
proof
  show "leases_balanced gs n s1" if "leases_balanced gs n s" "leaseNNTP A s = (None, s1)" for s s1
  proof (cases "gives s")
    case (Cons g gs')
    with that balanced_next[OF Cons that(1)] show ?thesis by (auto simp: leaseNNTP_None leases_balanced_def)
  qed (use that in \<open>auto simp: leaseNNTP_None leases_balanced_def\<close>)
  show "leases_balanced gs n (hand_back c' broken s1)"
    if "leases_balanced gs n s" "leaseNNTP A s = (Some c, s1)" for s s1 c c' broken
  proof (cases "gives s")
    case (Cons g gs')
    with that balanced_next[OF Cons that(1)] show ?thesis by (auto simp: leaseNNTP_Some leases_balanced_def hand_back_def)
  qed (use that in \<open>simp add: leaseNNTP_Some\<close>)
qed (auto simp: leases_balanced_def)

text \<open>C18: No connection leaks. On every path of every handler, failed fetches, oversized bodies and
  undecodable articles included, each connection that was leased from the pool is handed back,
  exactly once.\<close>

theorem every_lease_is_handed_back:
  "\<exists>k. gives (snd (serve pa A reqs s)) = drop k (gives s)
     \<and> length (returned (snd (serve pa A reqs s)))
       = length (returned s) + length (filter (\<lambda>g. g \<noteq> None) (take k (gives s)))"
proof -
  obtain resps s' where r: "serve pa A reqs s = (resps, s')" by fastforce
  have "leases_balanced (gives s) (length (returned s)) s"
    by (auto simp: leases_balanced_def intro: exI[of _ 0])
  from leases.serve_keeps[OF r this] r show ?thesis by (simp add: leases_balanced_def)
qed

section \<open>A small server for the examples\<close>

definition demo_app :: "int app" where
  "demo_app = \<lparr>cfg = demo_cfg, apiKey = ''k'', sab = Some \<lparr>baseURL = ''http://s:1'', sab_apiKey = ''q''\<rparr>\<rparr>"

definition demo_sab :: sab_world where
  "demo_sab = \<lparr>http = (\<lambda>_. None), boundary = ''b'', json_added = (\<lambda>_. None), json_categories = (\<lambda>_. None),
     json_queue = (\<lambda>_. None)\<rparr>"

definition demo_outside :: outside where
  "demo_outside = \<lparr>now_at = 5, took = 1, os_random = ''r'', x_user_key = (\<lambda>_. None), x_spot = (\<lambda>_. None),
     inflater = (\<lambda>s. (s, True)), fts5 = (\<lambda>_ _. True), sab_outside = demo_sab\<rparr>"

definition demo_get :: request where
  "demo_get = \<lparr>RemoteAddr = ''1.2.3.4:5'', rq_header = (\<lambda>_. []), rq_query = (\<lambda>_. []), rq_cookies = [(''spottr_session'', ''t'')],
     rq_id = ''2'', rq_TLS = False, rq_Host = []\<rparr>"

definition demo_io :: "database \<Rightarrow> api_io" where
  "demo_io d = \<lparr>adb = d, asess = New_store 10, gives = [], returned = [], counters = no_metrics\<rparr>"

lemma demo_cfg_api:
  "AuthEnforced demo_cfg" "AppPassword demo_cfg = ''s''" "\<not> cfg_AllowAdult demo_cfg"
  by (simp_all add: demo_cfg_def base_config_def AuthEnforced_def AuthModePassword_def envBool_def envOr_def demo_env_def
      to_lower_ascii is_ascii_def lower_char_def)

definition demo_adult :: Spot where
  "demo_adult = (demo_spot ''<b@x>'' 9)\<lparr>sp_Category := 0, sp_SubCatA := ''z3|'', sp_IsAdult := True\<rparr>"

definition demo_mixed :: database where
  "demo_mixed = snd (InsertSpots [demo_spot ''<a@x>'' 5, demo_adult] demo_db)"

lemma demo_mixed_step: "db_step demo_db demo_mixed"
proof (rule db_step.keep, rule keep_step.store, rule store_step.insert)
  let ?ss = "[demo_spot ''<a@x>'' 5, demo_adult]"
  have "adult_flag_ok demo_adult"
    by (simp add: adult_flag_ok_def demo_adult_def demo_spot_def KindOf_def codes_of_def KindErotic_def)
  then show "\<forall>s\<in>set ?ss. adult_flag_ok s" by (simp add: demo_flag)
  show "InsertSpots ?ss demo_db = (fst (InsertSpots ?ss demo_db), demo_mixed)"
    by (simp add: demo_mixed_def)
qed

section \<open>Who gets in\<close>

text \<open>The sessions of a server nobody has signed in to. Only a login with the right password changes them.\<close>

definition no_sessions :: "'f app \<Rightarrow> api_io \<Rightarrow> bool" where
  "no_sessions A s \<longleftrightarrow> sessions (asess s) = Map.empty"

definition no_password :: "'f app \<Rightarrow> route \<Rightarrow> bool" where
  "no_password A rt \<longleftrightarrow> rt \<noteq> AuthLogin (Some (AppPassword (cfg A)))"

interpretation unentered: handler_invariant "no_sessions A" A for A
  by unfold_locales (auto simp: no_sessions_def leaseNNTP_eqs hand_back_def)

lemma no_sessions_Add1: "no_sessions A (Add1 c s) = no_sessions A s"
  by (simp add: no_sessions_def)

lemma no_sessions_handle:
  assumes "handle A X info rt r s = (resp, s')" "no_sessions A s" "AuthEnforced (cfg A)" "no_password A rt"
  shows "no_sessions A s'"
proof (cases rt)
  case (AuthLogin b)
  with assms show ?thesis
    by (auto simp: handle_def authLogin_def no_sessions_def no_password_def CheckPassword_def RecordFailure_def
        RecordSuccess_def Create_def Let_def split: option.splits if_splits prod.splits)
next
  case AuthLogout
  with assms show ?thesis by (auto simp: handle_def authLogout_def no_sessions_def Delete_def)
qed (use assms in \<open>auto simp: handle_def requireAPIKey_def requireAuth_def nzbAccess_def authStatus_def appConfig_def healthz_def
      no_sessions_Add1 split: if_splits prod.splits dest: unentered.searches_keep unentered.getSpot_keeps unentered.downloadNZB_keeps
        unentered.getImage_keeps unentered.sab_keeps unentered.health_keeps\<close>)

lemma no_sessions_serve:
  "serve pa A reqs s = (resps, s') \<Longrightarrow> no_sessions A s \<Longrightarrow> AuthEnforced (cfg A)
   \<Longrightarrow> list_all (\<lambda>(X, rt, r). no_password A rt) reqs \<Longrightarrow> no_sessions A s'"
proof (induction reqs arbitrary: s resps)
  case (Cons q reqs)
  then show ?case
    by (cases q) (fastforce simp: Router_def split: prod.splits dest: no_sessions_handle)
qed simp

text \<open>What a caller without a key presents: any \<open>apikey\<close> and \<open>X-Api-Key\<close> but the server's.\<close>

definition no_key :: "'f app \<Rightarrow> request \<Rightarrow> bool" where
  "no_key A r \<longleftrightarrow> rq_query r ''apikey'' \<noteq> apiKey A \<and> rq_header r ''X-Api-Key'' \<noteq> apiKey A"

lemma no_key_invalid: "no_key A r \<Longrightarrow> \<not> validAPIKey A (snd (realIP pa trusted r))"
  by (auto simp: validAPIKey_def no_key_def CheckPassword_def realIP_def Let_def split: if_splits)

text \<open>A refusal is counted.\<close>

abbreviation refused :: "api_io \<Rightarrow> api_io" where
  "refused s \<equiv> s\<lparr>counters := metricAuthFailures_update (\<lambda>n. n + 1) (counters s)\<rparr>"

text \<open>C7: Nobody gets in without the password or the key. A server that enforces its password starts with
  no session; after any run of requests, from any addresses, with any tokens and at any instants, of
  which none was a login with the right password, sending to SABnzbd, its queue, its categories and the
  metrics are refused with 401 whatever token is presented; and without the API key so are the download of an NZB and the newznab API.
  A refused request is counted and changes nothing else: no fetch, no lease, no write.\<close>

theorem no_entry_without_password_or_key:
  assumes "AuthEnforced (cfg A)" and "asess s = New_store t"
    and "serve pa A reqs s = (resps, s')"
    and "list_all (\<lambda>(X, rt, r). rt \<noteq> AuthLogin (Some (AppPassword (cfg A)))) reqs"
  shows "(\<exists>e. Router pa A X (SendToSAB body) r s' = ((401, e), refused s')) \<and> (\<exists>e. Router pa A X Queue r s' = ((401, e), refused s'))
    \<and> (\<exists>e. Router pa A X SabCategories r s' = ((401, e), refused s')) \<and> (\<exists>e. Router pa A X Metrics r s' = ((401, e), refused s'))
    \<and> (rq_query r ''apikey'' \<noteq> apiKey A \<and> rq_header r ''X-Api-Key'' \<noteq> apiKey A \<longrightarrow>
        (\<exists>e. Router pa A X DownloadNZB r s' = ((401, e), refused s'))
        \<and> (\<exists>e. Router pa A X Newznab r s' = ((401, e), refused s')))"
proof -
  have "no_sessions A s" using assms(2) by (simp add: no_sessions_def New_store_def)
  from no_sessions_serve[OF assms(3) this assms(1)] assms(4) have c: "no_sessions A s'"
    by (simp add: no_password_def)
  have v: "\<not> Valid now token (asess s')" for now token using c by (simp add: Valid_def no_sessions_def)
  have m: "AuthMode (cfg A) \<noteq> AuthModeOpen" "AuthMode (cfg A) \<noteq> AuthModeProxy"
    using assms(1) by (auto simp: AuthEnforced_def AuthModePassword_def AuthModeOpen_def AuthModeProxy_def)
  show ?thesis
    using no_key_invalid[of A r pa "TrustedProxies (cfg A)"] v m assms(1)
    by (auto simp: Router_def handle_def requireAuth_def nzbAccess_def requireAPIKey_def signedIn_def no_key_def
        Add1_def split: prod.splits)
qed

theorem no_entry_without_password_or_key_witness:
  "let s' = snd (serve (\<lambda>_. None) demo_app [(demo_outside, AuthLogin (Some ''x''), demo_get)] (demo_io demo_db))
   in (\<exists>e. Router (\<lambda>_. None) demo_app demo_outside (SendToSAB None) demo_get s' = ((401, e), refused s'))
      \<and> (\<exists>e. Router (\<lambda>_. None) demo_app demo_outside DownloadNZB demo_get s' = ((401, e), refused s'))"
proof -
  let ?run = "serve (\<lambda>_. None) demo_app [(demo_outside, AuthLogin (Some ''x''), demo_get)] (demo_io demo_db)"
  have e: "AuthEnforced (cfg demo_app)" "AppPassword (cfg demo_app) = ''s''" by (simp_all add: demo_app_def demo_cfg_api)
  have n: "asess (demo_io demo_db) = New_store 10" by (simp add: demo_io_def)
  have r: "?run = (fst ?run, snd ?run)" by simp
  have k: "rq_query demo_get ''apikey'' \<noteq> apiKey demo_app \<and> rq_header demo_get ''X-Api-Key'' \<noteq> apiKey demo_app"
    by (simp add: demo_get_def demo_app_def)
  from no_entry_without_password_or_key[OF e(1) n r, of demo_outside None demo_get] k show ?thesis
    by (simp add: e(2) Let_def)
qed

section \<open>18+ spots on a server that does not allow them\<close>

definition without_adult :: "database \<Rightarrow> database" where
  "without_adult d = d\<lparr>spots := filter (\<lambda>r. \<not> r_is_adult r) (spots d)\<rparr>"

text \<open>Two states a handler cannot tell apart once it has its spot.\<close>

definition same_but_spots :: "api_io \<Rightarrow> api_io \<Rightarrow> bool" where
  "same_but_spots s t \<longleftrightarrow>
     gives t = gives s \<and> returned t = returned s \<and> nzbs (adb t) = nzbs (adb s)
     \<and> images (adb t) = images (adb s) \<and> faults (adb t) = faults (adb s) \<and> clock (adb t) = clock (adb s)"

lemma same_calls:
  assumes "same_but_spots s t"
  shows "fst (api_db (GetCachedNZB i) t) = fst (api_db (GetCachedNZB i) s)"
    and "same_but_spots (snd (api_db (GetCachedNZB i) s)) (snd (api_db (GetCachedNZB i) t))"
    and "fst (api_db (GetCachedImage i) t) = fst (api_db (GetCachedImage i) s)"
    and "same_but_spots (snd (api_db (GetCachedImage i) s)) (snd (api_db (GetCachedImage i) t))"
    and "same_but_spots (snd (api_db (UpdateSpotEnrichment sp) s)) (snd (api_db (UpdateSpotEnrichment sp) t))"
  using assms unfolding same_but_spots_def
  by (auto simp: api_db_def GetCachedNZB_def GetCachedImage_def UpdateSpotEnrichment_def query_def exec_def
      update_spots_def Let_def split: prod.splits list.splits bool.splits)

lemma same_lease:
  "same_but_spots s t \<Longrightarrow> fst (leaseNNTP A t) = fst (leaseNNTP A s)
   \<and> same_but_spots (snd (leaseNNTP A s)) (snd (leaseNNTP A t))"
  unfolding same_but_spots_def by (auto simp: leaseNNTP_def split: list.splits option.splits)

lemma same_hand_back: "same_but_spots s t \<Longrightarrow> same_but_spots (hand_back c b s) (hand_back c b t)"
  unfolding same_but_spots_def by (auto simp: hand_back_def)

lemma same_enrich:
  assumes "same_but_spots s t"
  shows "fst (enrichSpot A X spot t) = fst (enrichSpot A X spot s)
    \<and> same_but_spots (snd (enrichSpot A X spot s)) (snd (enrichSpot A X spot t))"
  using same_lease[OF assms, of A]
  by (cases "leaseNNTP A s"; cases "leaseNNTP A t")
    (auto simp: enrichSpot_def same_hand_back split: prod.splits option.splits sum.splits)

lemma same_fetch:
  assumes "same_but_spots s t"
  shows "fst (fetchNZBSegment A X i t) = fst (fetchNZBSegment A X i s)"
    and "fst (fetchImageSegments A segs t) = fst (fetchImageSegments A segs s)"
  using same_lease[OF assms, of A]
  by (cases "leaseNNTP A s"; cases "leaseNNTP A t";
      auto simp: fetchNZBSegment_def fetchImageSegments_def split: prod.splits option.splits sum.splits)+

lemma same_resolve_cached:
  assumes "same_but_spots s t"
  shows "fst (resolve_cached A X spot t) = fst (resolve_cached A X spot s)"
proof -
  let ?get = "api_db (GetCachedNZB (sp_NzbID spot))"
  note c = same_calls(1,2)[OF assms, of "sp_NzbID spot"]
  let ?count = "Add1 metricNZBFetches_update"
  have "same_but_spots (?count (snd (?get s))) (?count (snd (?get t)))" using c(2) by (simp add: same_but_spots_def)
  from same_fetch(1)[OF this, of A X "sp_NzbID spot"] c(1) show ?thesis
    by (cases "?get s"; cases "?get t"; cases "fetchNZBSegment A X (sp_NzbID spot) (?count (snd (?get s)))";
        cases "fetchNZBSegment A X (sp_NzbID spot) (?count (snd (?get t)))")
      (auto simp: resolve_cached_def Let_def split: prod.splits sum.splits)
qed

lemma find_without_adult:
  "distinct (map r_id rows) \<Longrightarrow>
   find (\<lambda>r. r_id r = i) (filter (\<lambda>r. \<not> r_is_adult r) rows)
   = (case find (\<lambda>r. r_id r = i) rows of None \<Rightarrow> None | Some r \<Rightarrow> if r_is_adult r then None else Some r)"
proof (induction rows)
  case (Cons r rows)
  have "find (\<lambda>q. r_id q = r_id r) (filter (\<lambda>r. \<not> r_is_adult r) rows) = None" if "r_id r \<notin> r_id ` set rows"
    using that by (fastforce simp: find_None_iff image_iff)
  with Cons show ?case by auto
qed simp

text \<open>Hiding a database's 18+ rows, and the spot a handler then finds.\<close>

abbreviation hide_adult :: "api_io \<Rightarrow> api_io" where
  "hide_adult s \<equiv> s\<lparr>adb := without_adult (adb s)\<rparr>"

definition unless_hidden :: "'f Config \<Rightarrow> sql_error + Spot option \<Rightarrow> sql_error + Spot option" where
  "unless_hidden c res = map_sum id (\<lambda>found. if hiddenAdult c found then None else found) res"

lemma hidden_spot:
  assumes "distinct (map r_id (spots (adb s)))" and "\<not> cfg_AllowAdult c"
  shows "fst (api_db (GetSpotByID i) (hide_adult s)) = unless_hidden c (fst (api_db (GetSpotByID i) s))"
    and "same_but_spots (snd (api_db (GetSpotByID i) s)) (snd (api_db (GetSpotByID i) (hide_adult s)))"
  using assms find_without_adult[OF assms(1), of i]
  by (auto simp: api_db_def GetSpotByID_def query_def exec_def without_adult_def unless_hidden_def
      same_but_spots_def hiddenAdult_def scanSpot_def split: list.splits bool.splits option.splits)

lemma hidden_search:
  assumes "\<not> AllowAdult p" and "\<not> AdultOnly p"
  shows "fst (api_db (SearchSpots m p) (hide_adult s)) = fst (api_db (SearchSpots m p) s)"
proof -
  have "search_where m q (without_adult d) r = search_where m q d r" for q d r
    unfolding search_where_def in_fts_def without_adult_def by simp
  then have w: "search_where m q (without_adult d) = search_where m q d" for q d by (simp add: fun_eq_iff)
  have "search_where m (search_defaults p) d r \<Longrightarrow> \<not> r_is_adult r" for d r
    using assms unfolding search_where_def by simp
  then have "(search_where m (search_defaults p) d r \<and> \<not> r_is_adult r) = search_where m (search_defaults p) d r" for d r
    by blast
  then have "matching m (search_defaults p) (without_adult d) = matching m (search_defaults p) d" for d
    unfolding matching_def w by (simp add: without_adult_def filter_filter conj_commute)
  moreover have "(without_adult d)\<lparr>faults := fs\<rparr> = without_adult (d\<lparr>faults := fs\<rparr>)" for d fs
    by (simp add: without_adult_def)
  moreover have "faults (without_adult d) = faults d" for d by (simp add: without_adult_def)
  ultimately show ?thesis
    by (simp add: api_db_def SearchSpots_def Let_def query_def exec_def split: list.split bool.split)
qed

lemma hidden_spot_cases:
  fixes c :: "'f Config"
  assumes "distinct (map r_id (spots (adb s)))" and "\<not> cfg_AllowAdult c"
  obtains (failed) e s1 t1 where "api_db (GetSpotByID i) s = (Inl e, s1)" "api_db (GetSpotByID i) (hide_adult s) = (Inl e, t1)"
  | (refused) found s1 t1 where "api_db (GetSpotByID i) s = (Inr found, s1)"
      "api_db (GetSpotByID i) (hide_adult s) = (Inr None, t1)" "found = None \<or> hiddenAdult c found"
  | (shown) spot s1 t1 where "api_db (GetSpotByID i) s = (Inr (Some spot), s1)"
      "api_db (GetSpotByID i) (hide_adult s) = (Inr (Some spot), t1)" "\<not> hiddenAdult c (Some spot)" "same_but_spots s1 t1"
proof -
  obtain a s1 b t1 where g: "api_db (GetSpotByID i) s = (a, s1)" "api_db (GetSpotByID i) (hide_adult s) = (b, t1)"
    by fastforce
  with hidden_spot[OF assms, of i] have h: "b = unless_hidden c a" "same_but_spots s1 t1" by auto
  show thesis
  proof (cases a)
    case (Inl e)
    with failed g h show thesis by (simp add: unless_hidden_def)
  next
    case (Inr found)
    with refused shown g h show thesis
      by (cases "hiddenAdult c found"; cases found) (auto simp: unless_hidden_def)
  qed
qed

lemma hidden_getSpot:
  assumes "distinct (map r_id (spots (adb s)))" and "\<not> cfg_AllowAdult (cfg A)"
  shows "fst (getSpot A X r (hide_adult s)) = fst (getSpot A X r s)"
proof (cases "path_id r")
  case (Some i)
  from assms show ?thesis
  proof (cases rule: hidden_spot_cases[where i = i])
    case (shown spot s1 t1)
    obtain x s2 y t2 where en: "enrichSpot A X spot s1 = (x, s2)" "enrichSpot A X spot t1 = (y, t2)" by fastforce
    with same_enrich[OF shown(4), of A X spot] have "y = x" by simp
    with Some shown en show ?thesis
      by (simp add: getSpot_def Let_def split: prod.split option.split fetch_error.split enrich_error.split)
  qed (use Some in \<open>auto simp: getSpot_def hiddenAdult_def\<close>)
qed (simp add: getSpot_def)

lemma hidden_resolveNZB:
  assumes "distinct (map r_id (spots (adb s)))" and "\<not> cfg_AllowAdult (cfg A)"
  shows "fst (resolveNZB A X i (hide_adult s)) = fst (resolveNZB A X i s)"
  using assms
proof (cases rule: hidden_spot_cases[where i = i])
  case (shown spot s1 t1)
  obtain x spot1 s2 y t2 where en: "enrichSpot A X spot s1 = ((x, spot1), s2)" "enrichSpot A X spot t1 = (y, t2)"
    by (metis prod.exhaust_sel)
  with same_enrich[OF shown(4), of A X spot] have "y = (x, spot1)" "same_but_spots s2 t2" by auto
  moreover obtain s3 t3 u v where up: "api_db (UpdateSpotEnrichment spot1) s2 = (u, s3)"
    "api_db (UpdateSpotEnrichment spot1) t2 = (v, t3)" by fastforce
  ultimately have "same_but_spots s3 t3" using same_calls(5)[of s2 t2 spot1] by simp
  from same_resolve_cached[OF this, of A X spot1] same_resolve_cached[OF shown(4), of A X spot]
  show ?thesis using shown en up \<open>y = (x, spot1)\<close>
    by (auto simp: resolveNZB_def Let_def split: option.split fetch_error.split enrich_error.split)
qed (auto simp: resolveNZB_def hiddenAdult_def)

lemma hidden_downloads:
  assumes "distinct (map r_id (spots (adb s)))" and "\<not> cfg_AllowAdult (cfg A)"
  shows "fst (downloadNZB A X r (hide_adult s)) = fst (downloadNZB A X r s)"
    and "fst (sendToSAB A X body r (hide_adult s)) = fst (sendToSAB A X body r s)"
proof -
  have "\<exists>x s1 t1. resolveNZB A X i s = (x, s1) \<and> resolveNZB A X i (hide_adult s) = (x, t1)" for i
    using hidden_resolveNZB[OF assms, of X i] by (metis prod.collapse)
  then obtain x s1 t1 where r: "resolveNZB A X i s = (x i, s1 i)" "resolveNZB A X i (hide_adult s) = (x i, t1 i)" for i
    by metis
  show "fst (downloadNZB A X r (hide_adult s)) = fst (downloadNZB A X r s)"
    by (simp add: downloadNZB_def r split: option.split sum.split prod.split)
  show "fst (sendToSAB A X body r (hide_adult s)) = fst (sendToSAB A X body r s)"
    by (simp add: sendToSAB_def r Let_def split: option.split sum.split prod.split)
qed

lemma hidden_getImage:
  assumes "distinct (map r_id (spots (adb s)))" and "\<not> cfg_AllowAdult (cfg A)"
  shows "fst (getImage A X r (hide_adult s)) = fst (getImage A X r s)"
proof (cases "path_id r")
  case (Some i)
  from assms show ?thesis
  proof (cases rule: hidden_spot_cases[where i = i])
    case (shown spot s1 t1)
    let ?segs = "split_on (CHR ''|'') (trim_suffix (trim_prefix (sp_ImageURL spot) ''<nntp:'') ''>'')"
    obtain x s2 y t2 where c: "api_db (GetCachedImage (hd ?segs)) s1 = (x, s2)"
      "api_db (GetCachedImage (hd ?segs)) t1 = (y, t2)" by fastforce
    with same_calls(3,4)[OF shown(4), of "hd ?segs"] have "y = x" "same_but_spots s2 t2" by auto
    moreover obtain u s3 v t3 where f: "fetchImageSegments A ?segs s2 = (u, s3)" "fetchImageSegments A ?segs t2 = (v, t3)"
      by fastforce
    ultimately have "v = u" using same_fetch(2)[of s2 t2 A ?segs] by simp
    with Some shown c f \<open>y = x\<close> show ?thesis
      by (simp add: getImage_def Let_def split: prod.split sum.split option.split)
  qed (use Some in \<open>auto simp: getImage_def hiddenAdult_def split: option.splits\<close>)
qed (simp add: getImage_def)

lemma list_params_adult:
  "\<not> cfg_AllowAdult c \<Longrightarrow> \<not> AllowAdult (list_params c q) \<and> \<not> AdultOnly (list_params c q)"
  by (simp add: list_params_def no_params_def includeAdult_def Let_def split: prod.split)

lemma newznab_params_adult:
  "\<not> cfg_AllowAdult c \<Longrightarrow> \<not> AllowAdult (newznab_params c q) \<and> \<not> AdultOnly (newznab_params c q)"
  by (auto simp: newznab_params_def no_params_def newznabFilter_def Let_def split: prod.split)

lemma hidden_listSpots:
  assumes "\<not> cfg_AllowAdult (cfg A)"
  shows "fst (listSpots A X r (hide_adult s)) = fst (listSpots A X r s)"
  using hidden_search[of "list_params (cfg A) (rq_query r)" "fts5 X" s] list_params_adult[OF assms, of "rq_query r"]
  by (auto simp: listSpots_def Let_def split: prod.split sum.split)

lemma hidden_newznab:
  assumes "\<not> cfg_AllowAdult (cfg A)"
  shows "fst (newznabHandler A X info r (hide_adult s)) = fst (newznabHandler A X info r s)"
  using hidden_search[of "newznab_params (cfg A) (rq_query r)" "fts5 X" s] newznab_params_adult[OF assms, of "rq_query r"]
  by (auto simp: newznabHandler_def newznabSearch_def Let_def split: prod.split sum.split)

lemma hidden_others:
  "fst (sabQueue A X r (hide_adult s)) = fst (sabQueue A X r s)"
  "fst (sabCategories A X r (hide_adult s)) = fst (sabCategories A X r s)"
  "fst (readyz r (hide_adult s)) = fst (readyz r s)"
  by (auto simp: sabQueue_def sabCategories_def readyz_def api_db_def query_def exec_def without_adult_def
      split: option.splits sum.splits prod.splits list.splits bool.splits)

lemma hidden_handle:
  assumes "distinct (map r_id (spots (adb s)))" and "\<not> cfg_AllowAdult (cfg A)" and "rt \<noteq> Metrics"
  shows "fst (handle A X info rt r (hide_adult s)) = fst (handle A X info rt r s)"
  by (cases rt)
    (simp_all add: handle_def requireAPIKey_def requireAuth_def nzbAccess_def signedIn_def authStatus_def
       authenticated_def authLogin_def authLogout_def appConfig_def healthz_def Let_def hidden_listSpots hidden_newznab
       hidden_getSpot hidden_downloads hidden_getImage hidden_others assms split: option.split prod.split)

text \<open>C6: On a server that does not allow 18+ spots they might as well not exist. Whatever the request,
  route, id, filters, key or session, the response is the one the same server would give with every
  18+ row taken out of its table: such a spot appears in no listing, no count and no feed, it cannot
  be fetched by its id, neither its NZB nor its image, nor sent to SABnzbd, and it cannot be told
  from an id that does not exist. Only the metrics, which are for signed-in users, count every row.\<close>

theorem adult_spots_are_invisible:
  assumes "fresh_db d0" and "db_step\<^sup>*\<^sup>* d0 (adb s)" and "\<not> cfg_AllowAdult (cfg A)"
    and "rt \<noteq> Metrics"
  shows "fst (Router pa A X rt r (s\<lparr>adb := without_adult (adb s)\<rparr>)) = fst (Router pa A X rt r s)"
proof -
  have "store_inv (adb s)" using store.inv_reachable[OF assms(1,2)] .
  then have "distinct (map r_id (spots (adb s)))" by (simp add: store_inv_def tables_ok_def)
  from hidden_handle[OF this assms(3,4)] show ?thesis by (simp add: Router_def split: prod.split)
qed

theorem adult_spots_are_invisible_witness:
  "map r_is_adult (spots demo_mixed) = [False, True]
   \<and> fst (Router (\<lambda>_. None) demo_app demo_outside GetSpot demo_get (demo_io demo_mixed)) = (404, PError ''not found'')"
proof -
  let ?get = "\<lambda>d. fst (Router (\<lambda>_. None) demo_app demo_outside GetSpot demo_get (demo_io d))"
  have rows: "map (\<lambda>r. (r_id r, r_is_adult r)) (spots demo_mixed) = [(1, False), (2, True)]" "faults demo_mixed = []"
    by code_simp+
  then obtain r1 r2 where sp: "spots demo_mixed = [r1, r2]" "r_id r1 = 1" "r_id r2 = 2" "\<not> r_is_adult r1" "r_is_adult r2"
    by (auto simp: map_eq_Cons_conv)
  have two: "parse_int ''2'' = (2, None)"
    by (simp add: parse_int_def is_digit_def digit_val_def Let_def parse_uint_def parse_uint_from_digits
        max_int64_def max_uint64_def)
  have id: "path_id (snd (realIP (\<lambda>_. None) px demo_get)) = Some 2" for px
    using two by (simp add: path_id_def realIP_def demo_get_def Let_def)
  obtain info r where r: "realIP (\<lambda>_. None) (TrustedProxies (cfg demo_app)) demo_get = (info, r)"
    by (cases "realIP (\<lambda>_. None) (TrustedProxies (cfg demo_app)) demo_get")
  with id[of "TrustedProxies (cfg demo_app)"] have "path_id r = Some 2" by simp
  then have "?get (without_adult demo_mixed) = (404, PError ''not found'')"
    using r by (simp add: Router_def handle_def getSpot_def api_db_def GetSpotByID_def query_def exec_def demo_io_def
        without_adult_def sp rows(2) split: prod.split)
  moreover have "adb (demo_io demo_mixed) = demo_mixed" "(demo_io d)\<lparr>adb := d'\<rparr> = demo_io d'" for d d'
    by (simp_all add: demo_io_def)
  ultimately show ?thesis
    using adult_spots_are_invisible[OF demo_fresh, of "demo_io demo_mixed" demo_app GetSpot "\<lambda>_. None" demo_outside demo_get]
      r_into_rtranclp[of db_step, OF demo_mixed_step] by (simp add: sp demo_app_def demo_cfg_api)
qed

section \<open>Page sizes\<close>

lemma search_length:
  assumes "SearchSpots m p d = (Inr (ss, cnt), d')" and "1 \<le> Limit p"
  shows "int (length ss) \<le> Limit p \<and> int (length ss) \<le> cnt"
proof
  let ?q = "search_defaults p"
  note s = SearchSpots_Inr[OF assms(1)]
  show "int (length ss) \<le> Limit p"
    using length_sql_limit(2)[of "Limit ?q"] assms(2) by (simp add: s(1))
  show "int (length ss) \<le> cnt"
    using length_sql_limit(1)[of "Limit ?q" "Offset ?q" "sort_key (search_order ?q) (matching m ?q d)"] by (simp add: s)
qed

lemma Load_page_size: "Load std e = Inr c \<Longrightarrow> 1 \<le> MaxPageSize c"
  by (auto simp: Load_def Let_def split: if_splits sum.splits)

lemma clampPaging_bounds:
  assumes "1 \<le> MaxPageSize c"
  shows "1 \<le> fst (clampPaging c l k)" "fst (clampPaging c l k) \<le> MaxPageSize c"
    "snd (clampPaging c l k) \<le> max 0 (MaxOffset c)"
  using assms by (auto simp: clampPaging_def Let_def)

lemma params_bounds:
  assumes "1 \<le> MaxPageSize c"
  shows "1 \<le> Limit (list_params c q)" "Limit (list_params c q) \<le> MaxPageSize c"
    "Offset (list_params c q) \<le> max 0 (MaxOffset c)"
    "1 \<le> Limit (newznab_params c q)" "Limit (newznab_params c q) \<le> min 100 (MaxPageSize c)"
    "Offset (newznab_params c q) \<le> max 0 (MaxOffset c)"
  using clampPaging_bounds[OF assms, of "parseIntOr (q ''limit'') 25" "parseIntOr (q ''offset'') 0"]
  by (auto simp: list_params_def newznab_params_def no_params_def Let_def split: prod.split)

definition page_ok :: "'f Config \<Rightarrow> payload \<Rightarrow> bool" where
  "page_ok c p \<longleftrightarrow> (case p of
      PSpots ss cnt l k _ \<Rightarrow> int (length ss) \<le> min l cnt \<and> 1 \<le> l \<and> l \<le> MaxPageSize c \<and> k \<le> max 0 (MaxOffset c)
    | PFeed items k cnt \<Rightarrow> int (length items) \<le> min 100 (MaxPageSize c) \<and> int (length items) \<le> cnt \<and> k \<le> max 0 (MaxOffset c)
    | _ \<Rightarrow> True)"

lemma page_ok_pages:
  assumes "1 \<le> MaxPageSize (cfg A)"
  shows "page_ok (cfg A) (snd (fst (listSpots A X r s)))"
    and "page_ok (cfg A) (snd (fst (newznabHandler A X info r s)))"
  using params_bounds[OF assms, of "rq_query r"]
  by (auto simp: listSpots_def newznabHandler_def newznabSearch_def page_ok_def api_db_def Let_def
      split: prod.splits sum.splits dest: search_length)

lemma page_ok_others:
  "page_ok c (snd (fst (getSpot A X r s)))"
  "page_ok c (snd (fst (downloadNZB A X r s)))"
  "page_ok c (snd (fst (sendToSAB A X body r s)))"
  "page_ok c (snd (fst (sabQueue A X r s)))"
  "page_ok c (snd (fst (sabCategories A X r s)))"
  "page_ok c (snd (fst (metricsHandler r s)))"
  "page_ok c (snd (fst (appConfig A X r s)))"
  "page_ok c (snd (fst (healthz r s)))"
  "page_ok c (snd (fst (readyz r s)))"
  "page_ok c (snd (fst (getImage A X r s)))"
  "page_ok c (snd (fst (authStatus A X r s)))"
  "page_ok c (snd (fst (authLogout r s)))"
  "page_ok c (snd (fst (authLogin A X b r s)))"
  by (auto simp: page_ok_def getSpot_def downloadNZB_def sendToSAB_def sabQueue_def sabCategories_def metricsHandler_def
      appConfig_def healthz_def readyz_def getImage_def authStatus_def authLogout_def
      authLogin_def writeNZBError_def recovered_def Let_def
      split: prod.splits sum.splits option.splits fetch_error.splits enrich_error.splits nzb_failure.splits if_splits)

text \<open>C19: No request makes the server hand out an unbounded page. Under any configuration the program
  starts with, and for any \<open>limit\<close> and \<open>offset\<close> a caller writes (absent, unreadable, zero, negative or
  huge), a listing has at most \<open>MAX_PAGE_SIZE\<close> spots and a newznab feed at most 100 of them too, the
  offset is at most \<open>MAX_OFFSET\<close>, and neither has more entries than the total it reports.\<close>

theorem pages_are_bounded:
  assumes "Load std e = Inr (cfg A)"
  shows "case snd (fst (Router pa A X rt r s)) of
      PSpots ss cnt l k _ \<Rightarrow> int (length ss) \<le> min l cnt \<and> 1 \<le> l \<and> l \<le> MaxPageSize (cfg A)
        \<and> k \<le> max 0 (MaxOffset (cfg A))
    | PFeed items k cnt \<Rightarrow> int (length items) \<le> min 100 (MaxPageSize (cfg A)) \<and> int (length items) \<le> cnt
        \<and> k \<le> max 0 (MaxOffset (cfg A))
    | _ \<Rightarrow> True"
  unfolding page_ok_def[symmetric]
  using page_ok_pages[OF Load_page_size[OF assms]] page_ok_others
  by (cases rt) (auto simp: Router_def handle_def requireAPIKey_def requireAuth_def nzbAccess_def page_ok_def[of _ "PError _"]
      page_ok_def[of _ "PNewznabError _"] page_ok_def[of _ "PCategories _"] split: prod.split)

theorem pages_are_bounded_witness:
  "\<exists>c. Load demo_std demo_env = Inr c
     \<and> (case snd (fst (Router (\<lambda>_. None) (demo_app\<lparr>cfg := c\<rparr>) demo_outside ListSpots demo_get (demo_io demo_inserted))) of
          PSpots ss cnt l k _ \<Rightarrow> int (length ss) \<le> l \<and> l \<le> MaxPageSize c | _ \<Rightarrow> False)"
proof -
  obtain c where l: "Load demo_std demo_env = Inr c" using demo_loads by (elim exE conjE)
  let ?A = "demo_app\<lparr>cfg := c\<rparr>"
  have "faults demo_inserted = []" by code_simp
  then have p: "\<exists>ss cnt l k n. snd (fst (Router (\<lambda>_. None) ?A demo_outside ListSpots demo_get (demo_io demo_inserted)))
      = PSpots ss cnt l k n"
    by (simp add: Router_def handle_def listSpots_def api_db_def SearchSpots_def query_def exec_def demo_io_def Let_def
        split: prod.split)
  have "Load demo_std demo_env = Inr (cfg ?A)" by (simp add: l)
  from pages_are_bounded[OF this, of "\<lambda>_. None" demo_outside ListSpots demo_get "demo_io demo_inserted"] p l
  show ?thesis by (intro exI[of _ c]) auto
qed

end
