(* ===== verification/StartupProps.thy ===== *)
theory StartupProps
  imports Startup Upgrade CspProps ApiProps
begin

text \<open>
  From the first start on: what a started program runs with, and that the API key it generated once stays
  the key through every later operation, upgrade and start.
\<close>

section \<open>A setting stays\<close>

interpretation setting: table_invariant "\<lambda>d. app_settings d k = Some v" for k v
  by unfold_locales
    (auto simp: insert_ignore_def delete_spots_def update_spots_def mark_id_def ring_add_def Let_def split: if_splits)

lemma prune_setting:
  "PruneModeratedRing t d = (r, d') \<Longrightarrow> app_settings d k = Some v \<Longrightarrow> app_settings d' k = Some v"
  unfolding PruneModeratedRing_def by (elim setting.exec_keeps[rotated]) (auto simp: Let_def)

lemma db_step_setting: "db_step d d' \<Longrightarrow> app_settings d k = Some v \<Longrightarrow> app_settings d' k = Some v"
  by (auto elim!: db_stepE intro: setting.keep_step_keeps prune_setting)

section \<open>What a start leaves\<close>

lemma pragmas_file: "run_pragmas ps f = (b, f') \<Longrightarrow> quiet f' = quiet f"
  by (induction ps arbitrary: f) (auto split: prod.splits bool.splits dest!: fails_same)

lemma upgradable_quiet: "quiet f' = quiet f \<Longrightarrow> upgradable f' = upgradable f"
proof -
  have "upgradable (quiet f) = upgradable f" for f
    by (simp add: upgradable_def) (simp add: quiet_def fresh_db_def)
  then show "quiet f' = quiet f \<Longrightarrow> upgradable f' = upgradable f" by metis
qed

lemma settings_quiet: "quiet f' = quiet f \<Longrightarrow> app_settings (fdb f') = app_settings (fdb f)"
  by (drule arg_cong[of _ _ "\<lambda>f. app_settings (fdb f)"]) (simp add: quiet_def)

lemma Open_Some: "Open path n f = (Some h, f') \<Longrightarrow> \<exists>f1. quiet f1 = quiet f \<and> migrate f1 = (None, f')"
  by (auto simp: Open_def Let_def split: prod.splits bool.splits option.splits dest: pragmas_file)

lemma Open_settings: "Open path n f = (r, f') \<Longrightarrow> app_settings (fdb f') = app_settings (fdb f)"
  by (auto simp: Open_def Let_def split: prod.splits bool.splits option.splits
      dest!: pragmas_file migrate_settings settings_quiet)

text \<open>The key that was resolved is the one from the environment, the one stored, or a new one, stored now.\<close>

lemma ResolveAPIKey_Inr:
  assumes "ResolveAPIKey c rand d = (Inr (key, generated), d')" and "cfg_APIKey c = []"
  shows "app_settings d' SettingAPIKey = Some key"
    and "key \<noteq> [] \<or> randomHex rand 16 = Some key"
    and "app_settings d SettingAPIKey = Some k \<Longrightarrow> k \<noteq> [] \<Longrightarrow> key = k"
proof -
  obtain found d1 where q: "Setting SettingAPIKey d = (Inr found, d1)"
    and r: "found \<noteq> [] \<and> key = found \<and> d' = d1
      \<or> found = [] \<and> randomHex rand 16 = Some key \<and> (\<exists>u. SetSetting SettingAPIKey key d1 = (Inr u, d'))"
    using assms by (auto simp: ResolveAPIKey_def split: sum.splits prod.splits if_splits option.splits)
  from query_Inr[OF q[unfolded Setting_def]] obtain fs where
    d1: "found = (case app_settings d1 SettingAPIKey of None \<Rightarrow> [] | Some v \<Rightarrow> v)" "d1 = d\<lparr>faults := fs\<rparr>" by blast
  have s: "app_settings d2 SettingAPIKey = Some key" if "SetSetting SettingAPIKey key d1 = (Inr u, d2)" for u d2
    using exec_Inr[OF that[unfolded SetSetting_def]] by auto
  show "app_settings d' SettingAPIKey = Some key"
    using r d1(1) s by (cases "app_settings d1 SettingAPIKey") auto
  show "key \<noteq> [] \<or> randomHex rand 16 = Some key" using r by auto
  show "key = k" if "app_settings d SettingAPIKey = Some k" "k \<noteq> []"
    using that r d1 by auto
qed

lemma ResolveAPIKey_setting:
  assumes "ResolveAPIKey c rand d = (r, d')" and "app_settings d SettingAPIKey = Some k" and "k \<noteq> []"
  shows "app_settings d' SettingAPIKey = Some k"
proof (cases "cfg_APIKey c = []")
  case True
  obtain res d1 where q: "Setting SettingAPIKey d = (res, d1)" by fastforce
  from query_same[OF q[unfolded Setting_def]] obtain fs where d1: "d1 = d\<lparr>faults := fs\<rparr>" by blast
  have "x = k" if "res = Inr x" for x
    using query_Inr[OF q[unfolded Setting_def that]] d1 assms(2) by simp
  with assms q d1 True show ?thesis by (cases res) (auto simp: ResolveAPIKey_def split: if_splits)
qed (use assms in \<open>simp add: ResolveAPIKey_def\<close>)

lemma start_program_Inr:
  assumes "start_program F std e rand doc f = (Inr srv, f')"
  obtains c f1 generated where "Load std e = Inr c" "cfg (srv_app srv) = c"
    "\<exists>h. Open (DBPath c) (NNTPMaxConns c + 4) f = (Some h, f1)"
    "ResolveAPIKey c rand (fdb f1) = (Inr (apiKey (srv_app srv), generated), fdb f')" "f' = f1\<lparr>fdb := fdb f'\<rparr>"
    "sab (srv_app srv) = (if SABHost c \<noteq> [] then Some (New_client c) else None)"
    "srv_sessions srv = New_store (SessionDuration c)" "srv_pool srv = NewPool (NNTPMaxConns c)"
    "buildCSP doc = Some (Returns (srv_csp srv))"
  using assms
  by (auto simp: start_program_def NewHandler_def Let_def split: sum.splits prod.splits option.splits run.splits)

lemma start_program_setting:
  assumes "start_program F std e rand doc f = (r, f')" and "app_settings (fdb f) SettingAPIKey = Some k" and "k \<noteq> []"
  shows "app_settings (fdb f') SettingAPIKey = Some k"
proof (cases "Load std e")
  case (Inl err)
  with assms show ?thesis by (simp add: start_program_def)
next
  case (Inr c)
  obtain h f1 where o: "Open (DBPath c) (NNTPMaxConns c + 4) f = (h, f1)" by fastforce
  with Open_settings assms(2) have s: "app_settings (fdb f1) SettingAPIKey = Some k" by metis
  obtain kr d where k: "ResolveAPIKey c rand (fdb f1) = (kr, d)" by fastforce
  with ResolveAPIKey_setting s assms(3) have "app_settings d SettingAPIKey = Some k" by blast
  with assms(1) Inr o k s show ?thesis
    by (auto simp: start_program_def Let_def split: option.splits sum.splits prod.splits)
qed

section \<open>The API key survives\<close>

text \<open>What can happen to a file between two starts: any operation of the store, and any start, whatever its
  environment, whatever it meets and however it ends.\<close>

inductive life_step :: "'f float_ops \<Rightarrow> 'f stdlib \<Rightarrow> dbfile \<Rightarrow> dbfile \<Rightarrow> bool" for F std where
  operate: "db_step (fdb f) d \<Longrightarrow> life_step F std f (f\<lparr>fdb := d\<rparr>)"
| restart: "start_program F std e rand doc f = (r, f') \<Longrightarrow> life_step F std f f'"

lemma life_setting:
  "(life_step F std)\<^sup>*\<^sup>* f f' \<Longrightarrow> app_settings (fdb f) SettingAPIKey = Some k \<Longrightarrow> k \<noteq> []
   \<Longrightarrow> app_settings (fdb f') SettingAPIKey = Some k"
proof (induction rule: rtranclp_induct)
  case (step g h)
  from step(2) step(3)[OF step(4,5)] show ?case
    by cases (auto intro: db_step_setting start_program_setting[OF _ _ step(5)])
qed

lemma hex_encode_nonempty: "s \<noteq> [] \<Longrightarrow> hex_encode s \<noteq> []"
  by (cases s) (simp_all add: hex_encode_def)

lemma resolved_nonempty:
  assumes "ResolveAPIKey c rand d = (Inr (key, generated), d')" and "cfg_APIKey c = []"
    and "\<And>n b. rand n = Some b \<Longrightarrow> length b = n"
  shows "key \<noteq> []"
proof (cases "randomHex rand 16 = Some key")
  case True
  then obtain b where b: "rand 16 = Some b" "key = hex_encode b" by (auto simp: randomHex_def)
  from assms(3)[OF b(1)] have "b \<noteq> []" by auto
  with b(2) show ?thesis by (simp add: hex_encode_nonempty)
qed (use ResolveAPIKey_Inr(2)[OF assms(1,2)] in simp)

lemma start_key:
  assumes "start_program F std e rand doc f = (Inr srv, f')" and "cfg_APIKey (cfg (srv_app srv)) = []"
    and "\<And>n b. rand n = Some b \<Longrightarrow> length b = n"
  shows "app_settings (fdb f') SettingAPIKey = Some (apiKey (srv_app srv))" and "apiKey (srv_app srv) \<noteq> []"
proof -
  obtain c and g :: dbfile and generated where 1: "cfg (srv_app srv) = c"
    "ResolveAPIKey c rand (fdb g) = (Inr (apiKey (srv_app srv), generated), fdb f')"
    by (rule start_program_Inr[OF assms(1)]) blast
  with assms(2) have "cfg_APIKey c = []" by simp
  from ResolveAPIKey_Inr(1)[OF 1(2) this] resolved_nonempty[OF 1(2) this assms(3)]
  show "app_settings (fdb f') SettingAPIKey = Some (apiKey (srv_app srv))" "apiKey (srv_app srv) \<noteq> []" by blast+
qed

text \<open>C10: The API key survives. Without \<open>API_KEY\<close> in the environment, the key a start settles on (read or newly
  generated) is not empty, and it is the key of every later start without \<open>API_KEY\<close>, whatever happens to
  the file in between: any operations of the engine, the workers and the handlers, upgrades, starts that
  fail at any statement, starts under another environment. No restart breaks a configured indexer.\<close>

theorem api_key_survives:
  assumes "start_program F std e rand doc f = (Inr srv, f1)" and "cfg_APIKey (cfg (srv_app srv)) = []"
    and "\<And>n b. rand n = Some b \<Longrightarrow> length b = n"
    and "(life_step F std)\<^sup>*\<^sup>* f1 f2"
    and "start_program F std e' rand' doc' f2 = (Inr srv', f3)" and "cfg_APIKey (cfg (srv_app srv')) = []"
  shows "apiKey (srv_app srv') = apiKey (srv_app srv) \<and> apiKey (srv_app srv) \<noteq> []"
proof -
  note n = start_key(2)[OF assms(1,2,3)]
  from life_setting[OF assms(4) start_key(1)[OF assms(1,2,3)] n]
  have s: "app_settings (fdb f2) SettingAPIKey = Some (apiKey (srv_app srv))" .
  obtain c' and g' :: dbfile and generated' h where 2: "cfg (srv_app srv') = c'" "Open (DBPath c') (NNTPMaxConns c' + 4) f2 = (Some h, g')"
    "ResolveAPIKey c' rand' (fdb g') = (Inr (apiKey (srv_app srv'), generated'), fdb f3)"
    by (rule start_program_Inr[OF assms(5)]) blast
  from Open_settings[OF 2(2)] s have "app_settings (fdb g') SettingAPIKey = Some (apiKey (srv_app srv))" by simp
  from ResolveAPIKey_Inr(3)[OF 2(3) _ this n] assms(6) 2(1) n show ?thesis by simp
qed

section \<open>A started program is sound\<close>

lemma Load_complete:
  assumes "Load std e = Inr c"
  shows "AuthEnforced c \<longrightarrow> AppPassword c \<noteq> []" and "1 \<le> NNTPMaxConns c" and "1 \<le> MaxPageSize c"
  using assms by (auto simp: Load_def AuthEnforced_def Let_def split: if_splits sum.splits)

lemma start_store_inv:
  assumes "start_program F std e rand doc f = (Inr srv, f')" and "upgradable f"
  shows "store_inv (fdb f')"
proof -
  obtain c f1 generated where "cfg (srv_app srv) = c" and s: "\<exists>h. Open (DBPath c) (NNTPMaxConns c + 4) f = (Some h, f1)"
    "ResolveAPIKey c rand (fdb f1) = (Inr (apiKey (srv_app srv), generated), fdb f')"
    by (rule start_program_Inr[OF assms(1)]) blast
  from s(1) Open_Some obtain g where g: "quiet g = quiet f" "migrate g = (None, f1)" by blast
  from upgraded[OF g(2)] upgradable_quiet[OF g(1)] assms(2) have "store_inv (fdb f1)" by simp
  moreover have "store_inv d'" if "store_inv d" "ResolveAPIKey c rand d = (r, d')" for d d' r
    using that
    by (auto simp: ResolveAPIKey_def Setting_def SetSetting_def split: if_splits sum.splits prod.splits option.splits
        dest!: query_same elim!: tables.exec_keeps[rotated])
  ultimately show ?thesis using s(2) by blast
qed

text \<open>C9: What the program starts, it may run with. Whatever the environment, the shipped page, the file (new,
  or of any earlier version) and the faults of the start: if the program comes up, then at that moment
  and after any operations of the store the tables satisfy the store's invariant; the program has a
  password where it enforces one and an API key that is not empty, so no gate is open by default; no
  session exists; SABnzbd is reachable exactly if it is configured; the pool has the configured bound,
  at least one; and the policy names no script source but \<open>'self'\<close> and hashes.\<close>

theorem started_program_is_sound:
  assumes "start_program F std e rand doc f = (Inr srv, f')" and "upgradable f"
    and "\<And>n b. rand n = Some b \<Longrightarrow> length b = n" and "db_step\<^sup>*\<^sup>* (fdb f') d"
  shows "store_inv d
    \<and> (AuthEnforced (cfg (srv_app srv)) \<longrightarrow> AppPassword (cfg (srv_app srv)) \<noteq> []) \<and> apiKey (srv_app srv) \<noteq> []
    \<and> sessions (srv_sessions srv) = Map.empty
    \<and> (sab (srv_app srv) = None \<longleftrightarrow> SABHost (cfg (srv_app srv)) = [])
    \<and> cap (srv_pool srv) = NNTPMaxConns (cfg (srv_app srv)) \<and> 1 \<le> cap (srv_pool srv)
    \<and> (\<exists>hs. directives (srv_csp srv) = (''script-src'' # quoted ''self'' # map quoted hs) # fixed_directives)"
proof -
  obtain c and g :: dbfile and generated where s: "Load std e = Inr c" "cfg (srv_app srv) = c"
    "ResolveAPIKey c rand (fdb g) = (Inr (apiKey (srv_app srv), generated), fdb f')"
    "sab (srv_app srv) = (if SABHost c \<noteq> [] then Some (New_client c) else None)"
    "srv_sessions srv = New_store (SessionDuration c)" "srv_pool srv = NewPool (NNTPMaxConns c)"
    "buildCSP doc = Some (Returns (srv_csp srv))"
    by (rule start_program_Inr[OF assms(1)]) blast
  have "apiKey (srv_app srv) \<noteq> []"
  proof (cases "cfg_APIKey c = []")
    case True
    from resolved_nonempty[OF s(3) True assms(3)] show ?thesis .
  qed (use s(3) in \<open>simp add: ResolveAPIKey_def\<close>)
  moreover have "store_inv d" using store.inv_steps[OF assms(4)] start_store_inv[OF assms(1,2)] by blast
  ultimately show ?thesis
    using s Load_complete[OF s(1)] policy_hashes[OF s(7)] by (auto simp: New_store_def NewPool_def)
qed

section \<open>A start without faults\<close>

lemma run_pragmas_quiet: "faults (fdb f) = [] \<Longrightarrow> run_pragmas ps f = (True, f)"
  by (induction ps) (simp_all add: fails_def)

lemma quiet_id: "faults (fdb f) = [] \<Longrightarrow> quiet f = f"
  by (simp add: quiet_def)

text \<open>A start succeeds where nothing fails, the configuration loads and there is a key or randomness for one.\<close>

lemma start_succeeds:
  assumes "faults (fdb f) = []" and "Load std e = Inr c" and "cfg_APIKey c = []" and "buildCSP doc = Some (Returns policy)"
    and "rand 16 \<noteq> None \<or> (\<exists>k. app_settings (fdb f) SettingAPIKey = Some k \<and> k \<noteq> [])"
  shows "\<exists>srv f'. start_program F std e rand doc f = (Inr srv, f') \<and> cfg (srv_app srv) = c \<and> faults (fdb f') = []"
proof -
  note q = quiet_id[OF assms(1)]
  have "fst (migrate f) = None"
    using run_migrations_quiet[OF migrations_fn_ok] migrate_quiet[of f] by (simp add: q)
  then obtain f1 where m: "migrate f = (None, f1)" by (metis prod.collapse)
  with migrate_success[OF m] have "quiet f1 = f1" by (simp add: q)
  moreover have "faults (fdb (quiet f1)) = []" by (simp add: quiet_def)
  ultimately have n: "faults (fdb f1) = []" by simp
  from m have o: "Open (DBPath c) (NNTPMaxConns c + 4) f = (Some (open_dsn (DBPath c), max 1 (NNTPMaxConns c + 4)), f1)"
    by (simp add: Open_def Let_def run_pragmas_quiet[OF assms(1)] max_def)
  let ?found = "case app_settings (fdb f1) SettingAPIKey of None \<Rightarrow> [] | Some v \<Rightarrow> v"
  have st: "Setting SettingAPIKey (fdb f1) = (Inr ?found, fdb f1)" by (simp add: Setting_def query_def exec_def n)
  have ss: "SetSetting k v (fdb f1) = (Inr (), (fdb f1)\<lparr>app_settings := (app_settings (fdb f1))(k \<mapsto> v)\<rparr>)" for k v
    by (simp add: SetSetting_def exec_def n)
  have "\<exists>key generated d. ResolveAPIKey c rand (fdb f1) = (Inr (key, generated), d) \<and> faults d = []"
  proof (cases "?found = []")
    case True
    with assms(5) migrate_settings[OF m] obtain b where "rand 16 = Some b" by auto
    with True assms(3) st ss n show ?thesis by (auto simp: ResolveAPIKey_def randomHex_def)
  qed (use assms(3) st n in \<open>auto simp: ResolveAPIKey_def\<close>)
  then obtain key generated d where "ResolveAPIKey c rand (fdb f1) = (Inr (key, generated), d)" "faults d = []" by blast
  with assms(2,4) o show ?thesis by (auto simp: start_program_def NewHandler_def Let_def)
qed

definition demo_ops :: "int float_ops" where
  "demo_ops = \<lparr>f_less = (<), f_le = (\<le>), f_add = (+), f_sub = (-), f_mul = (*), f_int = id,
     f_seconds = (\<lambda>d. d div 1000000000)\<rparr>"

definition demo_new :: dbfile where
  "demo_new = demo_file\<lparr>has_tables := False, fdb := (fdb demo_file)\<lparr>spots := [], spots_fts := []\<rparr>\<rparr>"

definition demo_rand :: "nat \<Rightarrow> string option" where
  "demo_rand n = Some (replicate n (CHR ''a''))"

lemma demo_new_ok: "upgradable demo_new" "faults (fdb demo_new) = []"
  by (simp_all add: upgradable_def fresh_db_def demo_new_def demo_file_def Let_def)

lemma demo_config: "\<exists>c. Load demo_std demo_env = Inr c \<and> cfg_APIKey c = []"
proof -
  obtain c where l: "Load demo_std demo_env = Inr c" using demo_loads by (elim exE conjE)
  then have "cfg_APIKey c = cfg_APIKey (base_config demo_std demo_env)"
    by (auto simp: Load_def Let_def split: if_splits sum.splits)
  with l show ?thesis by (auto simp: base_config_def envOr_def demo_env_def)
qed

lemma no_page_policy: "buildCSP None = Some (Returns (''script-src 'self'' @ [CHR 0x27] @ ''; '' @ baseCSPDirectives))"
  by (simp add: buildCSP_def inlineScriptHashes_def)

lemma demo_start:
  "\<exists>srv f'. start_program demo_ops demo_std demo_env demo_rand None demo_new = (Inr srv, f')
     \<and> cfg_APIKey (cfg (srv_app srv)) = [] \<and> faults (fdb f') = []"
proof -
  obtain c where c: "Load demo_std demo_env = Inr c" "cfg_APIKey c = []" using demo_config by (elim exE conjE)
  have "demo_rand 16 \<noteq> None \<or> (\<exists>k. app_settings (fdb demo_new) SettingAPIKey = Some k \<and> k \<noteq> [])"
    by (simp add: demo_rand_def)
  from start_succeeds[where F = demo_ops and rand = demo_rand and f = demo_new, OF demo_new_ok(2) c no_page_policy this] c
  show ?thesis by fastforce
qed

text \<open>The second start finds no randomness and has another clock.\<close>

theorem api_key_survives_witness:
  "\<exists>srv f1 srv' f3. start_program demo_ops demo_std demo_env demo_rand None demo_new = (Inr srv, f1)
     \<and> start_program demo_ops demo_std demo_env (\<lambda>_. None) None (f1\<lparr>fdb := (fdb f1)\<lparr>clock := 99, faults := [], ctx_errs := []\<rparr>\<rparr>)
         = (Inr srv', f3)
     \<and> apiKey (srv_app srv') = apiKey (srv_app srv)"
proof -
  obtain srv f1 where 1: "start_program demo_ops demo_std demo_env demo_rand None demo_new = (Inr srv, f1)"
    "cfg_APIKey (cfg (srv_app srv)) = []" "faults (fdb f1) = []" using demo_start by (elim exE conjE)
  have r: "\<And>n b. demo_rand n = Some b \<Longrightarrow> length b = n" by (auto simp: demo_rand_def)
  let ?f2 = "f1\<lparr>fdb := (fdb f1)\<lparr>clock := 99, faults := [], ctx_errs := []\<rparr>\<rparr>"
  have "db_step (fdb f1) ((fdb f1)\<lparr>clock := 99, faults := [], ctx_errs := []\<rparr>)"
    by (intro db_step.keep keep_step.store store_step.env)
  then have l: "(life_step demo_ops demo_std)\<^sup>*\<^sup>* f1 ?f2" by (intro r_into_rtranclp life_step.operate)
  from start_key[OF 1(1,2) r] have k: "app_settings (fdb ?f2) SettingAPIKey = Some (apiKey (srv_app srv))"
    "apiKey (srv_app srv) \<noteq> []" by simp_all
  obtain c where c: "Load demo_std demo_env = Inr c" "cfg_APIKey c = []" using demo_config by (elim exE conjE)
  obtain srv' f3 where 2: "start_program demo_ops demo_std demo_env (\<lambda>_. None) None ?f2 = (Inr srv', f3)"
    "cfg (srv_app srv') = c"
    using start_succeeds[where F = demo_ops and rand = "\<lambda>_. None" and f = ?f2, OF _ c no_page_policy] k by auto
  from api_key_survives[OF 1(1,2) r l 2(1)] 2(2) c(2) have "apiKey (srv_app srv') = apiKey (srv_app srv)" by simp
  with 1(1) 2(1) show ?thesis by blast
qed

theorem started_program_is_sound_witness:
  "\<exists>srv f'. start_program demo_ops demo_std demo_env demo_rand None demo_new = (Inr srv, f')
     \<and> store_inv (fdb f') \<and> apiKey (srv_app srv) \<noteq> [] \<and> 1 \<le> cap (srv_pool srv)"
proof -
  obtain srv f1 where s: "start_program demo_ops demo_std demo_env demo_rand None demo_new = (Inr srv, f1)"
    using demo_start by (elim exE conjE)
  have r: "\<And>n b. demo_rand n = Some b \<Longrightarrow> length b = n" by (auto simp: demo_rand_def)
  from started_program_is_sound[OF s demo_new_ok(1) r rtranclp.rtrancl_refl] s show ?thesis by blast
qed

end
