(* ===== verification/FrontProps.thy ===== *)
theory FrontProps
  imports Front ApiProps
begin

text \<open>
  What the rate limiter before the handlers achieves: of the requests of one address only so many pass,
  whatever they carry and whoever else sends requests.
\<close>

section \<open>A flood is limited\<close>

lemma allow_other:
  "key' \<noteq> key \<Longrightarrow> map_of (buckets (snd (allow F now key' rl))) key = map_of (buckets rl) key"
  "rps (snd (allow F now key' rl)) = rps rl" "burst (snd (allow F now key' rl)) = burst rl"
  "length (buckets (snd (allow F now key' rl))) \<le> length (buckets rl) + 1"
proof -
  have "length (AList.update k v xs) \<le> length xs + 1" for k v and xs :: "(string \<times> 'a bucket) list"
    by (induction xs) auto
  note u = this
  show "key' \<noteq> key \<Longrightarrow> map_of (buckets (snd (allow F now key' rl))) key = map_of (buckets rl) key"
    by (auto simp: allow_def Let_def AList.update_conv' split: option.split)
  show "rps (snd (allow F now key' rl)) = rps rl" "burst (snd (allow F now key' rl)) = burst rl"
    by (auto simp: allow_def Let_def split: option.split)
  show "length (buckets (snd (allow F now key' rl))) \<le> length (buckets rl) + 1"
    using u le_SucI by (auto simp: allow_def Let_def split: option.split)
qed

definition limiter_key :: "(string \<Rightarrow> ip_addr option) \<Rightarrow> 'f app \<Rightarrow> request \<Rightarrow> string" where
  "limiter_key pa A r = hostOnly (RemoteAddr (snd (realIP pa (TrustedProxies (cfg A)) r)))"

definition rate_limited :: response where
  "rate_limited = (429, PError ''rate limit exceeded'')"

text \<open>One request: the limiter after it, and how a request that passed it is answered.\<close>

lemma Front_limiter:
  assumes "Front F pa A X rt r (s, rl) = (resp, s', rl')"
  shows "\<not> limited rt \<Longrightarrow> rl' = rl"
    and "limited rt \<Longrightarrow> allow F (now_at X) (limiter_key pa A r) rl = (ok, rl1)
      \<Longrightarrow> rl' = rl1 \<and> (\<not> ok \<longrightarrow> resp = rate_limited)"
  using assms
  by (auto simp: Front_def requestLogger_def limiter_middleware_def limiter_key_def rate_limited_def Let_def
      split: prod.splits bool.splits if_splits)

text \<open>The requests under a key that stand before the limiter and were not turned away by it.\<close>

fun passed :: "(request \<Rightarrow> bool) \<Rightarrow> (outside \<times> route \<times> request) list \<Rightarrow> response list \<Rightarrow> nat" where
  "passed mine ((X, rt, r) # reqs) (resp # resps) =
     (if mine r \<and> limited rt \<and> resp \<noteq> rate_limited then 1 else 0) + passed mine reqs resps"
| "passed mine _ _ = 0"

lemma passed_known:
  assumes "map_of (buckets rl) key = Some b" "0 \<le> tokens b" "sorted (bk_last b # map (now_at \<circ> fst) reqs)"
    "\<forall>q\<in>set reqs. now_at (fst q) \<le> fin" "bk_last b \<le> fin" "fin - bk_last b \<le> max_int64" "0 \<le> rps rl" "0 \<le> burst rl"
  shows "of_nat (passed (\<lambda>r. limiter_key pa A r = key) reqs (run_front exact pa A reqs (s, rl)))
    \<le> tokens b + of_int (fin - bk_last b) / 1000000000 * rps rl"
  using assms
proof (induction reqs arbitrary: rl b s)
  case Nil
  then show ?case by simp
next
  case (Cons q reqs)
  obtain X rt r where q: "q = (X, rt, r)" by (cases q)
  obtain resp s1 rl1 where f: "Front exact pa A X rt r (s, rl) = (resp, s1, rl1)" by (metis prod_cases3)
  obtain ok rl2 where a: "allow exact (now_at X) (limiter_key pa A r) rl = (ok, rl2)" by fastforce
  note l = Front_limiter[OF f]
  show ?case
  proof (cases "limiter_key pa A r = key \<and> limited rt")
    case False
    have same: "map_of (buckets rl1) key = map_of (buckets rl) key \<and> rps rl1 = rps rl \<and> burst rl1 = burst rl"
    proof (cases "limited rt")
      case True
      with False l(2)[OF True a] allow_other(1)[of "limiter_key pa A r" key exact "now_at X" rl]
        allow_other(2,3)[of exact "now_at X" "limiter_key pa A r" rl] a show ?thesis by simp
    qed (use l(1) in simp)
    have "of_nat (passed (\<lambda>r. limiter_key pa A r = key) reqs (run_front exact pa A reqs (s1, rl1)))
        \<le> tokens b + of_int (fin - bk_last b) / 1000000000 * rps rl"
      using Cons.IH[of rl1 b s1] Cons.prems same by (auto simp: q)
    with False f show ?thesis by (auto simp: q)
  next
    case True
    with l(2) a have rl1: "rl1 = rl2" "\<not> ok \<longrightarrow> resp = rate_limited" by auto
    have t: "bk_last b \<le> now_at X" "now_at X \<le> fin" using Cons.prems by (auto simp: q)
    from True a have a': "allow exact (now_at X) key rl = (ok, rl2)" by simp
    from allow_known[OF Cons.prems(1) a' Cons.prems(7) t(1)] t Cons.prems obtain b1 where b1:
      "map_of (buckets rl2) key = Some b1" "bk_last b1 = now_at X" "rps rl2 = rps rl" "burst rl2 = burst rl" "0 \<le> tokens b1"
      "(if ok then 1 else 0) + tokens b1 \<le> tokens b + of_int (now_at X - bk_last b) / 1000000000 * rps rl"
      by auto
    have "of_nat (passed (\<lambda>r. limiter_key pa A r = key) reqs (run_front exact pa A reqs (s1, rl2)))
        \<le> tokens b1 + of_int (fin - now_at X) / 1000000000 * rps rl"
      using Cons.IH[of rl2 b1 s1] Cons.prems b1 t by (auto simp: q)
    moreover have "of_int (fin - now_at X) / 1000000000 * rps rl + of_int (now_at X - bk_last b) / 1000000000 * rps rl
        = of_int (fin - bk_last b) / 1000000000 * rps rl"
      by (simp add: field_simps)
    ultimately show ?thesis using b1(6) rl1 f by (auto simp: q split: if_splits)
  qed
qed

lemma passed_unknown:
  assumes "map_of (buckets rl) key = None" "length (buckets rl) + length reqs \<le> 50000"
    "sorted (start # map (now_at \<circ> fst) reqs)" "\<forall>q\<in>set reqs. now_at (fst q) \<le> fin" "start \<le> fin"
    "fin - start \<le> max_int64" "0 \<le> rps rl" "1 \<le> burst rl"
  shows "of_nat (passed (\<lambda>r. limiter_key pa A r = key) reqs (run_front exact pa A reqs (s, rl)))
    \<le> burst rl + of_int (fin - start) / 1000000000 * rps rl"
  using assms
proof (induction reqs arbitrary: rl s)
  case Nil
  then show ?case by simp
next
  case (Cons q reqs)
  obtain X rt r where q: "q = (X, rt, r)" by (cases q)
  obtain resp s1 rl1 where f: "Front exact pa A X rt r (s, rl) = (resp, s1, rl1)" by (metis prod_cases3)
  obtain ok rl2 where a: "allow exact (now_at X) (limiter_key pa A r) rl = (ok, rl2)" by fastforce
  note l = Front_limiter[OF f]
  show ?case
  proof (cases "limiter_key pa A r = key \<and> limited rt")
    case False
    have same: "map_of (buckets rl1) key = None \<and> rps rl1 = rps rl \<and> burst rl1 = burst rl
        \<and> length (buckets rl1) \<le> length (buckets rl) + 1"
    proof (cases "limited rt")
      case True
      with False l(2)[OF True a] allow_other(1)[of "limiter_key pa A r" key exact "now_at X" rl]
        allow_other(2-4)[of exact "now_at X" "limiter_key pa A r" rl] a Cons.prems(1) show ?thesis by simp
    qed (use l(1) Cons.prems(1) in simp)
    have "of_nat (passed (\<lambda>r. limiter_key pa A r = key) reqs (run_front exact pa A reqs (s1, rl1)))
        \<le> burst rl + of_int (fin - start) / 1000000000 * rps rl"
      using Cons.IH[of rl1 s1] Cons.prems same by (auto simp: q)
    with False f show ?thesis by (auto simp: q)
  next
    case True
    let ?b = "\<lparr>tokens = burst rl - 1, bk_last = now_at X\<rparr>"
    from True a Cons.prems(1,2) have "rl2 = rl\<lparr>buckets := AList.update key ?b (buckets rl)\<rparr>" "ok"
      by (auto simp: allow_def exact_def)
    with l(2) a True have rl1: "rl1 = rl\<lparr>buckets := AList.update key ?b (buckets rl)\<rparr>" by auto
    have t: "start \<le> now_at X" "now_at X \<le> fin" using Cons.prems by (auto simp: q)
    have "map_of (buckets rl1) key = Some ?b" by (simp add: rl1 AList.update_conv')
    moreover have "sorted (bk_last ?b # map (now_at \<circ> fst) reqs)" using Cons.prems(3) by (simp add: q comp_def)
    moreover have "\<forall>q\<in>set reqs. now_at (fst q) \<le> fin" "0 \<le> tokens ?b" using Cons.prems(4,8) by simp_all
    ultimately have "of_nat (passed (\<lambda>r. limiter_key pa A r = key) reqs (run_front exact pa A reqs (s1, rl1)))
        \<le> burst rl - 1 + of_int (fin - now_at X) / 1000000000 * rps rl"
      using passed_known[of rl1 key ?b reqs fin pa A s1] Cons.prems(6-8) t by (simp add: rl1)
    moreover have "of_int (fin - now_at X) / 1000000000 * rps rl \<le> of_int (fin - start) / 1000000000 * rps rl"
      using t Cons.prems(7) by (intro mult_right_mono) (simp_all add: divide_right_mono)
    ultimately show ?thesis using f by (auto simp: q split: if_splits)
  qed
qed

text \<open>A peer is trusted or not by its address alone; what an untrusted one is limited under does not depend
  on what it sends.\<close>

definition untrusted :: "(string \<Rightarrow> ip_addr option) \<Rightarrow> 'f app \<Rightarrow> string \<Rightarrow> bool" where
  "untrusted pa A peer \<longleftrightarrow> (case pa peer of None \<Rightarrow> True | Some a \<Rightarrow> \<not> inAny a (TrustedProxies (cfg A)))"

lemma untrusted_key:
  assumes "untrusted pa A (hostOnly (RemoteAddr r))"
  shows "limiter_key pa A r = hostOnly (hostOnly (RemoteAddr r))"
proof -
  have "resolveClientIP pa r (TrustedProxies (cfg A)) = hostOnly (RemoteAddr r)"
    using assms by (auto simp: resolveClientIP_def untrusted_def Let_def split: option.splits)
  moreover have "hostOnly [] = []" by (simp add: hostOnly_def SplitHostPort_def)
  ultimately show ?thesis by (auto simp: limiter_key_def realIP_def Let_def)
qed

text \<open>C11: A flood is limited whatever it claims. Of the requests an untrusted address sends between two
  instants, with any headers (forged forwarding headers included), to any route but the health checks
  and the public settings, and among any requests of others, at most \<open>RATE_LIMIT_BURST\<close> plus
  \<open>RATE_LIMIT_RPS\<close> per second reach a handler; the others are answered 429. (Exact arithmetic; a
  limiter that does not know the address yet and has room for every client of the run.)\<close>

theorem flood_is_limited:
  assumes "untrusted pa A peer" and "map_of (buckets rl) (hostOnly peer) = None"
    and "length (buckets rl) + length reqs \<le> 50000"
    and "sorted (start # map (now_at \<circ> fst) reqs)" and "\<forall>q\<in>set reqs. now_at (fst q) \<le> fin"
    and "start \<le> fin" and "fin - start \<le> max_int64" and "0 \<le> rps rl" and "1 \<le> burst rl"
  shows "of_nat (passed (\<lambda>r. hostOnly (RemoteAddr r) = peer) reqs (run_front exact pa A reqs (s, rl)))
    \<le> burst rl + of_int (fin - start) / 1000000000 * rps rl"
proof -
  have mono: "passed P rs resps \<le> passed P' rs resps" if "\<And>r. P r \<Longrightarrow> P' r" for P P' rs resps
    using that by (induction P rs resps rule: passed.induct) (auto intro: le_SucI add_mono)
  have "passed (\<lambda>r. hostOnly (RemoteAddr r) = peer) reqs resps
      \<le> passed (\<lambda>r. limiter_key pa A r = hostOnly peer) reqs resps" for resps
    using assms(1) by (intro mono) (auto simp: untrusted_key)
  then have "(of_nat (passed (\<lambda>r. hostOnly (RemoteAddr r) = peer) reqs (run_front exact pa A reqs (s, rl))) :: rat)
      \<le> of_nat (passed (\<lambda>r. limiter_key pa A r = hostOnly peer) reqs (run_front exact pa A reqs (s, rl)))"
    by (simp only: of_nat_le_iff)
  also note passed_unknown[OF assms(2-9), of pa A s]
  finally show ?thesis .
qed

text \<open>Three requests in one instant to a limiter with a burst of one, under three forged addresses.\<close>

definition forging :: "string \<Rightarrow> request" where
  "forging ip = demo_request\<lparr>rq_header := (\<lambda>k. if k = ''X-Forwarded-For'' then ip else [])\<rparr>"

definition demo_flood :: "(outside \<times> route \<times> request) list" where
  "demo_flood = map (\<lambda>ip. (demo_outside, ListCategories, forging ip)) [''1.1.1.1'', ''2.2.2.2'', ''3.3.3.3'']"

definition demo_limiter :: "rat rateLimiter" where
  "demo_limiter = \<lparr>rps = 1, burst = 1, buckets = []\<rparr>"

definition demo_rat_std :: "rat stdlib" where
  "demo_rat_std = \<lparr>ParseFloat = (\<lambda>_. None), ParseDuration = (\<lambda>_. None), ParsePrefix = (\<lambda>_. None),
     ParseAddr = (\<lambda>_. None), float_of_int = of_int\<rparr>"

definition demo_rat_app :: "rat app" where
  "demo_rat_app = \<lparr>cfg = (base_config demo_rat_std demo_env)\<lparr>TrustedProxies := demo_trusted\<rparr>, apiKey = ''k'', sab = None\<rparr>"

theorem flood_is_limited_witness:
  "let resps = run_front exact demo_pa demo_rat_app demo_flood (demo_io demo_db, demo_limiter)
   in map fst resps = [200, 429, 429]
      \<and> passed (\<lambda>r. hostOnly (RemoteAddr r) = ''9.9.9.9'') demo_flood resps \<le> 1"
proof -
  have h: "hostOnly ''9.9.9.9:5'' = ''9.9.9.9''" "hostOnly ''9.9.9.9'' = ''9.9.9.9''"
    by (simp_all add: hostOnly_def SplitHostPort_def go_contains_def Let_def)
  have u: "\<not> inAny (IPv4 151587081) demo_trusted"
    by (simp add: inAny_def demo_trusted_def prefix_contains_def Unmap_def)
  then have "untrusted demo_pa demo_rat_app ''9.9.9.9''"
    by (simp add: untrusted_def demo_pa_def demo_rat_app_def)
  moreover have key: "limiter_key demo_pa demo_rat_app (forging ip) = ''9.9.9.9''" for ip
    using calculation untrusted_key[of demo_pa demo_rat_app "forging ip"] h by (simp add: forging_def demo_request_def)
  have front: "Front exact demo_pa demo_rat_app demo_outside ListCategories (forging ip) (s, rl) =
      (case allow exact 5 ''9.9.9.9'' rl of (ok, rl1) \<Rightarrow>
         (if ok then ((200, PCategories MainCategories), add_duration 1 (Add1 metricRequests_update s), rl1)
          else (rate_limited, add_duration 1 (Add1 metricRequests_update (Add1 metricRateLimited_update s)), rl1)))" for ip s rl
  proof -
    obtain info r1 where r1: "realIP demo_pa (TrustedProxies (cfg demo_rat_app)) (forging ip) = (info, r1)" by fastforce
    with key[of ip] have "hostOnly (RemoteAddr r1) = ''9.9.9.9''" by (simp add: limiter_key_def)
    with r1 show ?thesis
      by (cases "allow exact 5 ''9.9.9.9'' rl")
        (auto simp: Front_def limited_def limiter_middleware_def handle_def demo_outside_def rate_limited_def
          requestLogger_def recovered_def split: bool.split)
  qed
  let ?rl = "demo_limiter\<lparr>buckets := [(''9.9.9.9'', \<lparr>tokens = 0, bk_last = 5\<rparr>)]\<rparr>"
  have "allow exact 5 ''9.9.9.9'' demo_limiter = (True, ?rl)" "allow exact 5 ''9.9.9.9'' ?rl = (False, ?rl)"
    by (simp_all add: allow_def demo_limiter_def exact_def refill_def time_sub_def min_int64_def max_int64_def)
  with front have "map fst (run_front exact demo_pa demo_rat_app demo_flood (demo_io demo_db, demo_limiter)) = [200, 429, 429]"
    by (simp add: demo_flood_def rate_limited_def)
  moreover have "of_nat (passed (\<lambda>r. hostOnly (RemoteAddr r) = ''9.9.9.9'') demo_flood
      (run_front exact demo_pa demo_rat_app demo_flood (demo_io demo_db, demo_limiter))) \<le> (1 :: rat)"
    using flood_is_limited[OF \<open>untrusted _ _ _\<close>, of demo_limiter demo_flood 5 5 "demo_io demo_db"]
    by (simp add: demo_limiter_def demo_flood_def demo_outside_def max_int64_def)
  ultimately show ?thesis by (simp add: Let_def)
qed

end
