(* ===== verification/Login.thy ===== *)
theory Login
  imports ApiProps
begin

text \<open>
  The life of a session across the handlers: what a login gives, what the cookie opens afterwards, and
  what ends it. A run is any sequence of requests, with the sweeps of \<open>periodicCleanup\<close> in between.
\<close>

section \<open>Runs\<close>

datatype event = Served outside route request | Swept gotime

definition happen :: "(string \<Rightarrow> ip_addr option) \<Rightarrow> 'f app \<Rightarrow> event \<Rightarrow> api_io \<Rightarrow> api_io" where
  "happen pa A ev s =
     (case ev of
        Served X rt r \<Rightarrow> snd (Router pa A X rt r s)
      | Swept t \<Rightarrow> s\<lparr>asess := cleanup_sessions t (asess s)\<rparr>)"

text \<open>The routes behind \<open>requireAuth\<close>.\<close>

definition privileged :: "route \<Rightarrow> bool" where
  "privileged rt = (case rt of SendToSAB _ \<Rightarrow> True | Queue \<Rightarrow> True | SabCategories \<Rightarrow> True | Metrics \<Rightarrow> True | _ \<Rightarrow> False)"

definition logs_out :: "string \<Rightarrow> event \<Rightarrow> bool" where
  "logs_out token ev = (case ev of Served X AuthLogout r \<Rightarrow> TokenFromRequest (rq_cookies r) = token | _ \<Rightarrow> False)"

text \<open>What happens before the instant \<open>now\<close>, with other random bytes than \<open>b\<close>.\<close>

definition earlier :: "string \<Rightarrow> gotime \<Rightarrow> event \<Rightarrow> bool" where
  "earlier b now ev = (case ev of Served X rt r \<Rightarrow> os_random X \<noteq> b | Swept t \<Rightarrow> t \<le> now)"

section \<open>One session\<close>

text \<open>Only the login and the logout touch the sessions.\<close>

interpretation one_session: handler_invariant "\<lambda>s. sessions (asess s) token = v" A for token v A
  by unfold_locales (auto simp: leaseNNTP_eqs hand_back_def)

lemma hex_digit_inj: "m < 16 \<Longrightarrow> n < 16 \<Longrightarrow> hex_digit m = hex_digit n \<Longrightarrow> m = n"
  by (drule arg_cong[where f = "of_char :: char \<Rightarrow> nat"]) (simp add: hex_digit_def split: if_splits)

lemma hex_encode_inj: "hex_encode a = hex_encode b \<Longrightarrow> a = b"
proof (induction a arbitrary: b)
  case (Cons c a)
  then obtain d b' where b: "b = d # b'" by (cases b) (auto simp: hex_encode_def)
  have lt: "of_char x div 16 < (16::nat)" "of_char x mod 16 < (16::nat)" for x :: char
    by (rule less_mult_imp_div_less, simp add: of_char_lt del: of_char_mod_256, rule mod_less_divisor, simp)
  from Cons.prems b have "hex_digit (of_char c div 16) = hex_digit (of_char d div 16)"
    "hex_digit (of_char c mod 16) = hex_digit (of_char d mod 16)"
    by (simp_all only: hex_encode_def list.map concat.simps append.simps list.inject)
  then have "of_char c div 16 = (of_char d div 16 :: nat)" "of_char c mod 16 = (of_char d mod 16 :: nat)"
    by (auto intro: hex_digit_inj lt)
  then have "of_char c = (of_char d :: nat)" by (metis div_mult_mod_eq)
  with Cons b show ?case by (auto simp: hex_encode_def)
qed (auto simp: hex_encode_def)

lemma handle_session:
  assumes "handle A X info rt r s = (resp, s')"
    and "hex_encode (os_random X) \<noteq> token"
  shows "sessions (asess s') token =
    (if rt = AuthLogout \<and> TokenFromRequest (rq_cookies r) = token then None else sessions (asess s) token)"
proof (cases rt)
  case (AuthLogin b)
  with assms show ?thesis
    by (auto simp: handle_def authLogin_def RecordFailure_def RecordSuccess_def Create_def Let_def
        split: option.splits if_splits)
next
  case AuthLogout
  with assms show ?thesis by (auto simp: handle_def authLogout_def Delete_def)
qed (use assms in \<open>auto simp: handle_def requireAPIKey_def requireAuth_def nzbAccess_def authStatus_def appConfig_def
      healthz_def split: if_splits prod.splits dest: one_session.searches_keep one_session.getSpot_keeps
        one_session.downloadNZB_keeps one_session.getImage_keeps one_session.sab_keeps one_session.health_keeps\<close>)


lemma happen_session:
  assumes "earlier b now ev" "token = hex_encode b"
  shows "sessions (asess (happen pa A ev s)) token =
    (if logs_out token ev then None
     else case sessions (asess s) token of None \<Rightarrow> None
          | Some e \<Rightarrow> (case ev of Swept t \<Rightarrow> if e < t then None else Some e | _ \<Rightarrow> Some e))"
proof (cases ev)
  case (Served X rt r)
  obtain info r1 where r1: "realIP pa (TrustedProxies (cfg A)) r = (info, r1)" by fastforce
  then have c: "rq_cookies r1 = rq_cookies r" by (auto simp: realIP_def Let_def split: if_splits)
  obtain resp s' where h: "handle A X info rt r1 s = (resp, s')" by fastforce
  from assms Served have "hex_encode (os_random X) \<noteq> token" by (auto simp: earlier_def dest: hex_encode_inj)
  from handle_session[OF h this] h r1 c Served show ?thesis
    by (auto simp: happen_def Router_def logs_out_def split: route.splits option.splits)
qed (auto simp: happen_def cleanup_sessions_def logs_out_def split: option.splits)

text \<open>A session lives on until a logout with its token; a sweep only takes it when it has expired.\<close>

lemma happen_Valid:
  assumes "earlier b now ev" "token = hex_encode b"
  shows "Valid now token (asess (happen pa A ev s)) \<longleftrightarrow> Valid now token (asess s) \<and> \<not> logs_out token ev"
  using happen_session[OF assms, of pa A s] assms
  by (auto simp: Valid_def earlier_def split: option.splits event.splits if_splits)

lemma run_Valid:
  "list_all (earlier b now) evs \<Longrightarrow> token = hex_encode b \<Longrightarrow>
   Valid now token (asess (fold (happen pa A) evs s)) \<longleftrightarrow>
     Valid now token (asess s) \<and> \<not> list_ex (logs_out token) evs"
proof (induction evs arbitrary: s)
  case (Cons ev evs)
  with happen_Valid[of b now ev token pa A s] show ?case by auto
qed simp

lemma login_outcome:
  assumes "AuthEnforced (cfg A)" "realIP pa (TrustedProxies (cfg A)) r = (info, r1)"
    and "\<not> Locked (now_at X) (hostOnly (RemoteAddr r1)) (asess s)"
  shows "Router pa A X (AuthLogin (Some (AppPassword (cfg A)))) r s =
    ((200, PLogin True (Some (SetCookie (hex_encode (os_random X)) (SessionDuration (cfg A)) (SecureCookie (cfg A))))),
     s\<lparr>asess := snd (Create (os_random X) (now_at X) (RecordSuccess (hostOnly (RemoteAddr r1)) (asess s)))\<rparr>)"
  using assms by (simp add: Router_def handle_def authLogin_def CheckPassword_def Create_def Let_def)

text \<open>No handler behind the gate answers 401 itself.\<close>

definition status_ok :: "nzb_failure + 'a \<Rightarrow> bool" where
  "status_ok r = (case r of Inl (NZBStatus st _) \<Rightarrow> st = 404 \<or> st = 502 | _ \<Rightarrow> True)"

lemma resolve_cached_status: "status_ok (fst (resolve_cached A X spot s))"
  by (simp add: status_ok_def resolve_cached_def Let_def split: prod.split sum.split)

lemma resolveNZB_status: "status_ok (fst (resolveNZB A X i s))"
  by (simp add: resolveNZB_def Let_def resolve_cached_status split: prod.split sum.split option.split
      fetch_error.split enrich_error.split) (simp add: status_ok_def)

lemma resolveNZB_answer: "resolveNZB A X i s = (Inl e, s') \<Longrightarrow> fst (writeNZBError e) \<notin> {401, 429}"
  using resolveNZB_status[of A X i s] by (auto simp: status_ok_def writeNZBError_def recovered_def split: nzb_failure.splits)

lemma behind_the_gate:
  "sendToSAB A X body r s = ((st, p), s') \<Longrightarrow> st \<notin> {401, 429}"
  "sabQueue A X r s = ((st, p), s') \<Longrightarrow> st \<notin> {401, 429}"
  "sabCategories A X r s = ((st, p), s') \<Longrightarrow> st \<notin> {401, 429}"
  "metricsHandler r s = ((st, p), s') \<Longrightarrow> st \<notin> {401, 429}"
  by (auto simp: sendToSAB_def sabQueue_def sabCategories_def metricsHandler_def Let_def
      split: prod.splits sum.splits option.splits if_splits dest!: resolveNZB_answer)

lemma gate_admits:
  assumes "AuthEnforced (cfg A)" "privileged rt"
  shows "fst (fst (Router pa A X rt r s)) \<noteq> 401 \<longleftrightarrow> Valid (now_at X) (TokenFromRequest (rq_cookies r)) (asess s)"
proof -
  obtain info r1 where r1: "realIP pa (TrustedProxies (cfg A)) r = (info, r1)" by fastforce
  then have c: "rq_cookies r1 = rq_cookies r" by (auto simp: realIP_def Let_def split: if_splits)
  obtain st p s' where h: "handle A X info rt r1 s = ((st, p), s')" by (metis surj_pair)
  then have "st \<noteq> 401 \<longleftrightarrow> Valid (now_at X) (TokenFromRequest (rq_cookies r)) (asess s)"
    using assms c by (cases rt) (auto simp: privileged_def handle_def requireAuth_def dest: behind_the_gate split: if_splits)
  with r1 h show ?thesis by (simp add: Router_def)
qed

text \<open>C8: A login lasts until its logout or its expiry, and no longer. Where the server asks for a password,
  the right one from an address that is not locked out is always answered with a session cookie, which
  is \<open>HttpOnly\<close>, \<open>SameSite=Lax\<close>, and \<open>Secure\<close> as configured. From then on, whatever requests and sweeps
  come in between (logins drawing other random bytes), a request with that cookie is let through to the
  SABnzbd and metrics routes exactly while the lifetime has not passed and nobody has logged out with it;
  otherwise it is answered 401.\<close>

theorem login_lasts_until_logout_or_expiry:
  assumes "AuthEnforced (cfg A)"
    and "\<not> Locked (now_at X0) (hostOnly (RemoteAddr (snd (realIP pa (TrustedProxies (cfg A)) r0)))) (asess s0)"
    and "os_random X0 \<noteq> []"
    and "Router pa A X0 (AuthLogin (Some (AppPassword (cfg A)))) r0 s0 = (resp, s1)"
    and "list_all (earlier (os_random X0) (now_at X)) evs"
    and "privileged rt"
  shows "\<exists>c. resp = (200, PLogin True (Some c)) \<and> ck_HttpOnly c \<and> ck_SameSite c = SameSiteLaxMode
    \<and> ck_Secure c = SecureCookie (cfg A)
    \<and> (TokenFromRequest (rq_cookies r) = ck_Value c \<longrightarrow>
        (fst (fst (Router pa A X rt r (fold (happen pa A) evs s1))) \<noteq> 401 \<longleftrightarrow>
          now_at X < now_at X0 + ttl (asess s0) \<and> \<not> list_ex (logs_out (ck_Value c)) evs))"
proof -
  let ?b = "os_random X0"
  let ?ip = "hostOnly (RemoteAddr (snd (realIP pa (TrustedProxies (cfg A)) r0)))"
  let ?c = "SetCookie (hex_encode ?b) (SessionDuration (cfg A)) (SecureCookie (cfg A))"
  have l: "resp = (200, PLogin True (Some ?c))"
    and s1: "asess s1 = snd (Create ?b (now_at X0) (RecordSuccess ?ip (asess s0)))"
    using login_outcome[OF assms(1) prod.collapse[symmetric] assms(2)] assms(4) by auto
  have "hex_encode ?b \<noteq> []" using assms(3) by (cases ?b) (auto simp: hex_encode_def)
  with s1 have alive: "Valid (now_at X) (hex_encode ?b) (asess s1) \<longleftrightarrow> now_at X < now_at X0 + ttl (asess s0)"
    by (simp add: Create_def Valid_def RecordSuccess_def Let_def)
  have val: "ck_Value ?c = hex_encode ?b" by (simp add: SetCookie_def)
  show ?thesis unfolding l
    by (rule exI[of _ ?c])
      (auto simp: val gate_admits[OF assms(1,6)] run_Valid[OF assms(5) refl] alive, simp_all add: SetCookie_def)
qed

definition demo_cookie :: request where
  "demo_cookie = demo_get\<lparr>rq_cookies := [(''lang'', ''nl''), (''spottr_session'', ''72'')]\<rparr>"

definition demo_at :: "gotime \<Rightarrow> outside" where
  "demo_at t = demo_outside\<lparr>now_at := t, os_random := ''z''\<rparr>"

definition demo_login :: api_io where
  "demo_login = snd (Router (\<lambda>_. None) demo_app demo_outside (AuthLogin (Some ''s'')) demo_get (demo_io demo_db))"

theorem login_lasts_until_logout_or_expiry_witness:
  "fst (fst (Router (\<lambda>_. None) demo_app (demo_at 9) Queue demo_cookie
      (fold (happen (\<lambda>_. None) demo_app) [Served (demo_at 6) ListSpots demo_get, Swept 7] demo_login))) \<noteq> 401
   \<and> fst (fst (Router (\<lambda>_. None) demo_app (demo_at 9) Queue demo_cookie
      (fold (happen (\<lambda>_. None) demo_app) [Served (demo_at 6) AuthLogout demo_cookie] demo_login))) = 401"
proof -
  have l: "Router (\<lambda>_. None) demo_app demo_outside (AuthLogin (Some (AppPassword (cfg demo_app)))) demo_get (demo_io demo_db)
    = (fst (Router (\<lambda>_. None) demo_app demo_outside (AuthLogin (Some ''s'')) demo_get (demo_io demo_db)), demo_login)"
    by (simp add: demo_login_def demo_app_def demo_cfg_api)
  have a: "AuthEnforced (cfg demo_app)" by (simp add: demo_app_def demo_cfg_api)
  have n: "\<not> Locked (now_at demo_outside) ip (asess (demo_io demo_db))" for ip
    by (simp add: Locked_def demo_io_def New_store_def)
  have b: "os_random demo_outside = ''r''" "os_random (demo_at t) = ''z''" "now_at (demo_at t) = t"
    "now_at demo_outside = 5" "ttl (asess (demo_io demo_db)) = 10" for t
    by (simp_all add: demo_at_def demo_outside_def demo_io_def New_store_def)
  have h: "hex_encode ''r'' = ''72''" by code_simp
  have out: "fst (Router (\<lambda>_. None) demo_app demo_outside (AuthLogin (Some (AppPassword (cfg demo_app)))) demo_get (demo_io demo_db))
    = (200, PLogin True (Some (SetCookie ''72'' (SessionDuration (cfg demo_app)) (SecureCookie (cfg demo_app)))))"
    using login_outcome[OF a prod.collapse[symmetric] n, where r = demo_get] by (simp add: b h)
  have tok: "TokenFromRequest (rq_cookies demo_cookie) = ''72''" "TokenFromRequest (rq_cookies demo_get) = ''t''"
    by (simp_all add: demo_cookie_def demo_get_def TokenFromRequest_def cookieName_def)
  note T = login_lasts_until_logout_or_expiry[OF a n _ l, where X = "demo_at 9" and r = demo_cookie and rt = Queue]
  show ?thesis
    using T[of "[Served (demo_at 6) ListSpots demo_get, Swept 7]"] T[of "[Served (demo_at 6) AuthLogout demo_cookie]"] out l
    by (simp add: b h earlier_def privileged_def tok SetCookie_def logs_out_def)
qed

end
