(* ===== verification/Metrics.thy ===== *)
theory Metrics
  imports FrontProps Login
begin

text \<open>
  What the counters of \<open>internal/api/metrics.go\<close> mean: over any run of requests through the whole front, each
  of them is the number of the answers it is documented to count.
\<close>

section \<open>Which handler counts what\<close>

definition front_counters :: "api_io \<Rightarrow> int \<times> int \<times> int \<times> int" where
  "front_counters s =
     (metricRequests (counters s), metricServerErrors (counters s), metricRateLimited (counters s), metricAuthFailures (counters s))"

text \<open>The store and Usenet leave the counters of the front alone.\<close>

interpretation uncounted: handler_invariant "\<lambda>s. front_counters s = v" A for v A
  by unfold_locales (auto simp: leaseNNTP_eqs hand_back_def front_counters_def Add1_def add_duration_def Let_def)

lemma other_answers:
  "getSpot A X r s = ((st, p), s') \<Longrightarrow> st \<notin> {401, 429}"
  "getImage A X r s = ((st, p), s') \<Longrightarrow> st \<notin> {401, 429}"
  "downloadNZB A X r s = ((st, p), s') \<Longrightarrow> st \<notin> {401, 429}"
  "listSpots A X r s = ((st, p), s') \<Longrightarrow> st \<notin> {401, 429}"
  "newznabHandler A X info r s = ((st, p), s') \<Longrightarrow> st \<notin> {401, 429}"
  "readyz r s = ((st, p), s') \<Longrightarrow> st \<notin> {401, 429}"
  by (auto simp: getSpot_def getImage_def downloadNZB_def listSpots_def newznabHandler_def newznabSearch_def readyz_def
      recovered_def Let_def split: prod.splits sum.splits option.splits if_splits fetch_error.splits enrich_error.splits
      dest!: resolveNZB_answer)

lemmas answers = other_answers behind_the_gate

lemmas uncounted_keeps = uncounted.searches_keep uncounted.getSpot_keeps uncounted.downloadNZB_keeps
  uncounted.getImage_keeps uncounted.sab_keeps uncounted.health_keeps

lemma handle_counts:
  assumes "handle A X info rt r s = ((st, p), s')"
  shows "front_counters s' =
    (case front_counters s of (n, e, l, a) \<Rightarrow> (n, e, l, a + (if st = 401 then 1 else 0)))"
    and "(st, p) \<noteq> rate_limited"
proof -
  have refusal: "front_counters (Add1 metricAuthFailures_update s) =
      (case front_counters s of (n, e, l, a) \<Rightarrow> (n, e, l, a + 1))" for s
    by (simp add: front_counters_def Add1_def add_duration_def Let_def)
  have same: "(case front_counters s of (n, e, l, a) \<Rightarrow> (n, e, l, a + 0)) = front_counters s" for s
    by (simp add: front_counters_def)
  have "front_counters s' = (case front_counters s of (n, e, l, a) \<Rightarrow> (n, e, l, a + (if st = 401 then 1 else 0)))
      \<and> (st, p) \<noteq> rate_limited"
  proof (cases rt)
    case (AuthLogin b)
    with assms show ?thesis
      by (auto simp: handle_def authLogin_def front_counters_def Add1_def rate_limited_def Let_def
          split: option.splits if_splits prod.splits)
  qed (use assms in \<open>auto simp: handle_def requireAPIKey_def requireAuth_def nzbAccess_def authStatus_def appConfig_def
      healthz_def authLogout_def refusal same rate_limited_def front_counters_def[of "s\<lparr>asess := _\<rparr>"] front_counters_def[of s]
      split: if_splits dest: uncounted_keeps[OF _ refl] answers\<close>)
  then show "front_counters s' =
    (case front_counters s of (n, e, l, a) \<Rightarrow> (n, e, l, a + (if st = 401 then 1 else 0)))" "(st, p) \<noteq> rate_limited"
    by simp_all
qed

section \<open>A run of the server\<close>

lemma Front_counts:
  assumes "Front F pa A X rt r (s, rl) = (resp, s', rl')"
  shows "front_counters s' =
    (case front_counters s of (n, e, l, a) \<Rightarrow>
       (n + (if resp = recovered then 0 else 1), e + (if 500 \<le> fst resp \<and> resp \<noteq> recovered then 1 else 0),
        l + (if resp = rate_limited then 1 else 0), a + (if fst resp = 401 then 1 else 0)))"
proof -
  obtain info r1 where r1: "realIP pa (TrustedProxies (cfg A)) r = (info, r1)" by fastforce
  obtain st p s1 where h: "handle A X info rt r1 s = ((st, p), s1)" by (metis surj_pair)
  note c = handle_counts[OF h]
  have rr: "rate_limited \<noteq> recovered" "fst rate_limited = 429" "fst recovered = 500"
    by (simp_all add: rate_limited_def recovered_def)
  obtain ok rl1 where a: "allow F (now_at X) (hostOnly (RemoteAddr r1)) rl = (ok, rl1)" by fastforce
  show ?thesis
  proof (cases "limited rt \<and> \<not> ok")
    case True
    with assms r1 a rr have "resp = rate_limited"
      "s' = add_duration (took X) (Add1 metricRequests_update (Add1 metricRateLimited_update s))"
      by (auto simp: Front_def requestLogger_def limiter_middleware_def rate_limited_def[symmetric] Let_def)
    with rr show ?thesis by (simp add: front_counters_def Add1_def add_duration_def Let_def)
  next
    case False
    with assms r1 a h have "resp = (st, p)" "s' = (if (st, p) = recovered then s1
        else let s2 = add_duration (took X) (Add1 metricRequests_update s1)
          in if 500 \<le> st then Add1 metricServerErrors_update s2 else s2)"
      by (auto simp: Front_def requestLogger_def limiter_middleware_def Let_def split: if_splits)
    with c show ?thesis by (auto simp: front_counters_def Add1_def add_duration_def Let_def)
  qed
qed

fun fronted ::
  "'f float_ops \<Rightarrow> (string \<Rightarrow> ip_addr option) \<Rightarrow> 'f app \<Rightarrow> (outside \<times> route \<times> request) list \<Rightarrow> api_io \<times> 'f rateLimiter
   \<Rightarrow> response list \<times> api_io \<times> 'f rateLimiter" where
  "fronted F pa A [] st = ([], st)"
| "fronted F pa A ((X, rt, r) # reqs) st =
     (case Front F pa A X rt r st of (resp, st1) \<Rightarrow>
        (case fronted F pa A reqs st1 of (resps, st2) \<Rightarrow> (resp # resps, st2)))"

definition count_if :: "(response \<Rightarrow> bool) \<Rightarrow> response list \<Rightarrow> int" where
  "count_if P resps = int (length (filter P resps))"

lemma count_if_simps [simp]: "count_if P [] = 0" "count_if P (x # xs) = (if P x then 1 else 0) + count_if P xs"
  by (simp_all add: count_if_def)

lemma fronted_counts:
  assumes "fronted F pa A reqs (s, rl) = (resps, s', rl')"
  shows "metricAuthFailures (counters s') = metricAuthFailures (counters s) + count_if (\<lambda>r. fst r = 401) resps
    \<and> metricRateLimited (counters s') = metricRateLimited (counters s) + count_if (\<lambda>r. r = rate_limited) resps
    \<and> metricRequests (counters s') = metricRequests (counters s) + count_if (\<lambda>r. r \<noteq> recovered) resps
    \<and> metricServerErrors (counters s')
      = metricServerErrors (counters s) + count_if (\<lambda>r. 500 \<le> fst r \<and> r \<noteq> recovered) resps"
  using assms
proof (induction reqs arbitrary: s rl resps)
  case (Cons q reqs)
  obtain X rt r where q: "q = (X, rt, r)" by (cases q)
  obtain resp s1 rl1 where f: "Front F pa A X rt r (s, rl) = (resp, s1, rl1)" by (metis prod_cases3)
  from Cons.prems obtain rest where g: "fronted F pa A reqs (s1, rl1) = (rest, s', rl')" and resps: "resps = resp # rest"
    by (auto simp: q f split: prod.splits)
  from Cons.IH[OF g] Front_counts[OF f] show ?case
    by (auto simp: resps front_counters_def)
qed simp

text \<open>C20: The counters tell the truth. Over any run of requests through the whole front, with whatever the store,
  Usenet, SABnzbd and the clock do: the failed authentications are exactly the answers 401, of every gate
  and of the login; the rate-limited requests are exactly those the limiter turned away; the requests and
  the server errors are all answers, and all answers of 500 and above, except those to a handler that
  panicked, which are neither counted nor logged.\<close>

theorem counters_tell_the_truth:
  "case fronted F pa A reqs (s, rl) of (resps, s', _) \<Rightarrow>
      metricAuthFailures (counters s') = metricAuthFailures (counters s) + count_if (\<lambda>r. fst r = 401) resps
    \<and> metricRateLimited (counters s') = metricRateLimited (counters s) + count_if (\<lambda>r. r = rate_limited) resps
    \<and> metricRequests (counters s') = metricRequests (counters s) + count_if (\<lambda>r. r \<noteq> recovered) resps
    \<and> metricServerErrors (counters s')
      = metricServerErrors (counters s) + count_if (\<lambda>r. 500 \<le> fst r \<and> r \<noteq> recovered) resps"
  by (cases "fronted F pa A reqs (s, rl)") (simp add: fronted_counts)

end
