(* ===== verification/Delivery.thy ===== *)
theory Delivery
  imports ApiProps
begin

text \<open>
  From the feed to the file: an item of a newznab feed carries a link; following it gives back the NZB
  exactly as it was posted, and from then on without asking the news server. The article passes the
  reader of \<open>internal/nntp/client.go\<close>, the decoder of \<open>internal/spotnet/parser.go\<close>, the cache of
  \<open>internal/db/db.go\<close> and the handler of \<open>internal/api/router.go\<close>.
\<close>

section \<open>The article on the wire\<close>

text \<open>A binary article: the status line, the lines, dot-stuffed, and the dot.\<close>

definition article_reply :: "string \<Rightarrow> string list \<Rightarrow> string" where
  "article_reply status ls = status @ CRLF @ dot_lines ls @ ''.'' @ CRLF"

lemma code_222: "show_nat 222 = ''222''"
  by code_simp

lemma body_of_binary: "body_of False ls = concat ls"
  by (simp add: body_of_def)

lemma BinaryBody_article:
  assumes "NormalizeMessageID i = Inr m" "werr c = None" "inp c = article_reply status ls @ rest"
    and "text_line status" "has_prefix status ''222''"
    and "list_all text_line ls" "int (length (body_of True ls)) \<le> read_limit c"
  shows "BinaryBody i c = (Inr (concat ls), c\<lparr>inp := rest, out := out c @ ''BODY '' @ m @ CRLF\<rparr>)"
proof -
  let ?c = "c\<lparr>out := out c @ (''BODY '' @ m) @ CRLF\<rparr>"
  let ?body = "dot_lines ls @ ''.'' @ CRLF @ rest"
  have nl: "LF \<notin> set (status @ [CR])" using assms(4) by (simp add: text_line_def)
  have "?c = ?c\<lparr>inp := status @ CR # LF # ?body\<rparr>" using assms(3) by (cases c) (simp add: article_reply_def)
  then have "read_string ?c = (status @ CRLF, None, ?c\<lparr>inp := ?body\<rparr>)"
    using read_string_line[OF nl, where c = ?c and rest = ?body] by simp
  then have s: "sendCmd (''BODY '' @ m) c = (Inr status, ?c\<lparr>inp := ?body\<rparr>)"
    using assms(2) chomp_line[OF assms(4)] by (simp add: sendCmd_def)
  have "read_limit ?c = read_limit c" by (simp add: read_limit_def)
  then have "readDot False (?c\<lparr>inp := ?body\<rparr>) = (Inr (concat ls), ?c\<lparr>inp := rest\<rparr>)"
    using readDot_article[OF assms(6), where c = ?c and keep = False and rest = rest] assms(7) by (simp add: body_of_binary)
  with s assms(1,5) show ?thesis
    by (simp add: BinaryBody_def checkCode_def code_222 readDotBinaryBody_def)
qed

text \<open>The poster cuts the escaped bytes wherever he likes: there is no line break among them.\<close>

lemma escaped_plain: "x \<in> {LF, CR} \<Longrightarrow> x \<notin> set (specialZipStr z)"
  by (auto simp: specialZipStr_def escape_in_def escape_letter_def split: if_splits)

lemma chunks_are_lines:
  assumes "concat ls = specialZipStr z"
  shows "list_all text_line ls"
proof -
  have "LF \<notin> set l" "CR \<notin> set l" if "l \<in> set ls" for l
    using escaped_plain[of LF z] escaped_plain[of CR z] that unfolding assms[symmetric] by auto
  then show ?thesis
    by (auto simp: list_all_iff text_line_def dest: last_in_set)
qed

section \<open>The handler\<close>

text \<open>What it takes for an article to arrive: the connection is fresh and the server sends the article, in
  lines of the escaped deflate stream of \<open>nzb\<close>, within the limits of the configuration.\<close>

definition delivers :: "'f app \<Rightarrow> outside \<Rightarrow> conn \<Rightarrow> string \<Rightarrow> string \<Rightarrow> bool" where
  "delivers A X c nzb rest \<longleftrightarrow>
     werr c = None \<and> MaxNZBBytes (cfg A) < max_int64 \<and> int (length nzb) \<le> nzb_limit (MaxNZBBytes (cfg A))
     \<and> (\<exists>status ls z. inp c = article_reply status ls @ rest \<and> text_line status \<and> has_prefix status ''222''
          \<and> concat ls = specialZipStr z \<and> inflater X z = (nzb, False)
          \<and> int (length (body_of True ls)) \<le> read_limit (SetMaxArticleBytes (MaxArticleBytes (cfg A)) c))"

text \<open>The connection as it is handed back: the command sent, the reply read to its end.\<close>

definition used :: "'f app \<Rightarrow> conn \<Rightarrow> string \<Rightarrow> string \<Rightarrow> conn" where
  "used A c m rest = (SetMaxArticleBytes (MaxArticleBytes (cfg A)) c)\<lparr>inp := rest, out := out c @ ''BODY '' @ m @ CRLF\<rparr>"

lemma fetchNZBSegment_delivers:
  assumes "delivers A X c nzb rest" "gives s = Some c # gs" "NormalizeMessageID i = Inr m"
  shows "fetchNZBSegment A X i s = (Inr nzb, s\<lparr>gives := gs, returned := (used A c m rest, False) # returned s\<rparr>)"
proof -
  let ?c = "SetMaxArticleBytes (MaxArticleBytes (cfg A)) c"
  from assms(1) obtain status ls z where w: "inp c = article_reply status ls @ rest" "text_line status"
    "has_prefix status ''222''" "concat ls = specialZipStr z" "inflater X z = (nzb, False)"
    "int (length (body_of True ls)) \<le> read_limit ?c" by (auto simp: delivers_def)
  have e: "werr ?c = None" "inp ?c = article_reply status ls @ rest" "out ?c = out c"
    using assms(1) w(1) by (auto simp: delivers_def SetMaxArticleBytes_def)
  have b: "BinaryBody i ?c = (Inr (specialZipStr z), used A c m rest)"
    using BinaryBody_article[OF assms(3) e(1,2) w(2,3) chunks_are_lines[OF w(4)] w(6)] e(3) w(4) by (simp add: used_def)
  have "DecodeNZBBodyLimit (inflater X) (specialZipStr z) (MaxNZBBytes (cfg A)) = Inr nzb"
    using assms(1) w(5) by (simp add: DecodeNZBBodyLimit_cases delivers_def zipstr.dec_enc Let_def)
  with b assms(2) show ?thesis by (simp add: fetchNZBSegment_def leaseNNTP_def hand_back_def)
qed

lemma find_row:
  assumes "store_inv d" "r \<in> set (spots d)"
  shows "find (\<lambda>x. r_id x = r_id r) (spots d) = Some r"
proof -
  have "distinct (map r_id (spots d))" using assms(1) by (simp add: store_inv_def tables_ok_def)
  moreover have "distinct (map r_id rs) \<Longrightarrow> r \<in> set rs \<Longrightarrow> find (\<lambda>x. r_id x = r_id r) rs = Some r" for rs
    by (induction rs) (auto simp: rev_image_eqI)
  ultimately show ?thesis using assms(2) by blast
qed

text \<open>A healthy database, in which a row is to be served to everyone who may fetch it.\<close>

definition servable :: "'f app \<Rightarrow> spot_row \<Rightarrow> api_io \<Rightarrow> bool" where
  "servable A row s \<longleftrightarrow>
     store_inv (adb s) \<and> faults (adb s) = [] \<and> row \<in> set (spots (adb s)) \<and> r_nzb_id row \<noteq> []
     \<and> (r_is_adult row \<longrightarrow> cfg_AllowAdult (cfg A))"

definition cached_nzb :: "string \<Rightarrow> api_io \<Rightarrow> string option" where
  "cached_nzb i s = map_option b_content (find (\<lambda>b. b_message_id b = i) (nzbs (adb s)))"

lemma scan_fields:
  "sp_NzbID (scanSpot row) = r_nzb_id row" "sp_IsAdult (scanSpot row) = r_is_adult row" "sp_ID (scanSpot row) = r_id row"
  by (simp_all add: scanSpot_def)

lemma api_reads:
  assumes "faults (adb s) = []"
  shows "api_db (query f) s = (Inr (f (adb s)), s)"
  using assms by (simp add: api_db_def query_def exec_def)

lemma servable_resolve:
  assumes "servable A row s"
  shows "resolveNZB A X (r_id row) s = resolve_cached A X (scanSpot row) s"
  using assms find_row[of "adb s" row]
  by (auto simp: servable_def resolveNZB_def GetSpotByID_def api_reads hiddenAdult_def scan_fields)

lemma cached_is_served:
  assumes "servable A row s" "cached_nzb (r_nzb_id row) s = Some nzb" "nzb \<noteq> []"
  shows "resolveNZB A X (r_id row) s = (Inr (scanSpot row, nzb), Add1 metricNZBCacheHits_update s)"
  using assms
  by (auto simp: servable_resolve[OF assms(1)] resolve_cached_def GetCachedNZB_def api_reads servable_def cached_nzb_def
      scan_fields Let_def)

lemma posted_is_served:
  assumes "servable A row s" "cached_nzb (r_nzb_id row) s = None" "delivers A X c nzb rest"
    and "gives s = Some c # gs" "NormalizeMessageID (r_nzb_id row) = Inr m"
  obtains s' where "resolveNZB A X (r_id row) s = (Inr (scanSpot row, nzb), s')"
    "gives s' = gs" "returned s' = (used A c m rest, False) # returned s" "asess s' = asess s"
    "servable A row s'" "cached_nzb (r_nzb_id row) s' = Some nzb"
proof -
  let ?s0 = "Add1 metricNZBFetches_update s"
  let ?s1 = "?s0\<lparr>gives := gs, returned := (used A c m rest, False) # returned s\<rparr>"
  let ?b = "\<lparr>b_message_id = r_nzb_id row, b_content = nzb, b_mime_type = [], b_fetched_at = clock (adb s)\<rparr>"
  let ?s' = "?s1\<lparr>adb := (adb s)\<lparr>nzbs := replace_blob ?b (nzbs (adb s))\<rparr>\<rparr>"
  have f: "faults (adb s) = []" "r_nzb_id row \<noteq> []" using assms(1) by (auto simp: servable_def)
  then have c: "api_db (CacheNZB (r_nzb_id row) nzb) ?s1 = (Inr (), ?s')"
    by (simp add: api_db_def CacheNZB_def exec_def)
  have "api_db (GetCachedNZB (r_nzb_id row)) s = (Inr None, s)"
    using assms(2) f(1) by (simp add: GetCachedNZB_def api_reads cached_nzb_def)
  moreover have "gives ?s0 = Some c # gs" using assms(4) by simp
  note fetchNZBSegment_delivers[OF assms(3) this assms(5)]
  ultimately have "resolveNZB A X (r_id row) s = (Inr (scanSpot row, nzb), ?s')" using c f
    by (simp add: servable_resolve[OF assms(1)] resolve_cached_def scan_fields)
  moreover have "servable A row ?s'" using assms(1) by (simp add: servable_def)
  moreover have "find (\<lambda>b. b_message_id b = r_nzb_id row) (filter (\<lambda>x. b_message_id x \<noteq> r_nzb_id row) bs @ [?b]) = Some ?b"
    for bs by (induction bs) auto
  then have "cached_nzb (r_nzb_id row) ?s' = Some nzb" by (simp add: cached_nzb_def replace_blob_def)
  ultimately show ?thesis by (intro that[of ?s']) simp_all
qed

section \<open>Feeds and links\<close>

text \<open>A client follows a link of the feed: the path and the query as chi and \<open>net/http\<close> take them apart.\<close>

definition follow :: "string \<Rightarrow> string \<Rightarrow> request \<Rightarrow> request" where
  "follow base link r =
     (let (i, rest) = cut_at (CHR ''/'') (trim_prefix (trim_prefix link base) ''/v1/spots/'');
          qs = ParseQuery (snd (cut_at (CHR ''?'') rest))
      in r\<lparr>rq_id := i, rq_query := (\<lambda>k. case map_of qs k of None \<Rightarrow> [] | Some v \<Rightarrow> v)\<rparr>)"

lemma follow_feed:
  assumes "it = feed_of A base spot"
  shows "rq_id (follow base (it_URL it) r) = show_int (sp_ID spot)"
    and "rq_query (follow base (it_URL it) r) ''apikey'' = apiKey A"
proof -
  let ?q = "''nzb?apikey='' @ QueryEscape (apiKey A)"
  have "CHR ''/'' \<notin> set (show_int n)" for n by (auto simp: is_digit_def dest: show_int_set)
  then have c: "cut_at (CHR ''/'') (show_int (sp_ID spot) @ CHR ''/'' # ?q) = (show_int (sp_ID spot), ?q)"
    by (simp add: cut_at_def takeWhile_append dropWhile_append)
  have "query_entry (QueryEscape ''apikey'' @ ''='' @ QueryEscape (apiKey A)) = Some (''apikey'', apiKey A)"
    by (rule query_entry_pair)
  moreover have "QueryEscape ''apikey'' = ''apikey''" by code_simp
  ultimately have e: "query_entry (''apikey='' @ QueryEscape (apiKey A)) = Some (''apikey'', apiKey A)" by simp
  have "CHR ''&'' \<notin> set (''apikey='' @ QueryEscape (apiKey A))"
    using QueryEscape_plain[of "CHR ''&''" "apiKey A"] by (simp add: separators_def)
  from split_on_no_sep[OF this] e have "ParseQuery (''apikey='' @ QueryEscape (apiKey A)) = [(''apikey'', apiKey A)]"
    by (simp only: ParseQuery_def List.map_filter_simps option.case)
  then have p: "ParseQuery (snd (cut_at (CHR ''?'') ?q)) = [(''apikey'', apiKey A)]" by (simp add: cut_at_def)
  have "trim_prefix (trim_prefix (it_URL it) base) ''/v1/spots/'' = show_int (sp_ID spot) @ CHR ''/'' # ?q"
  proof -
    have "it_URL it = base @ ''/v1/spots/'' @ show_int (sp_ID spot) @ CHR ''/'' # ?q"
      by (simp add: assms feed_of_def)
    then show ?thesis by (simp only: trim_prefix_append)
  qed
  then have f: "follow base (it_URL it) r = r\<lparr>rq_id := show_int (sp_ID spot),
      rq_query := (\<lambda>k. case map_of [(''apikey'', apiKey A)] k of None \<Rightarrow> [] | Some v \<Rightarrow> v)\<rparr>"
    by (simp only: follow_def c p Let_def prod.case)
  show "rq_id (follow base (it_URL it) r) = show_int (sp_ID spot)"
    and "rq_query (follow base (it_URL it) r) ''apikey'' = apiKey A"
    by (simp_all add: f)
qed

lemma feed_rows:
  assumes "Router pa A X Newznab r s = ((200, PFeed items off cnt), s1)"
    and "realIP pa (TrustedProxies (cfg A)) r = (info, r1)" "it \<in> set items" "faults (adb s) = []"
  obtains row where "row \<in> set (spots (adb s))" "\<not> r_moderated row" "r_is_adult row \<longrightarrow> cfg_AllowAdult (cfg A)"
    "it = feed_of A (requestScheme (Some info) r1 @ ''://'' @ rq_Host r1) (scanSpot row)" "s1 = s" "apiKey A \<noteq> []"
proof -
  let ?p = "newznab_params (cfg A) (rq_query r1)"
  have k: "apiKey A \<noteq> []" and n: "newznabSearch A X info r1 s = ((200, PFeed items off cnt), s1)"
    using assms(1,2) by (auto simp: Router_def handle_def requireAPIKey_def newznabHandler_def validAPIKey_def Let_def
        split: if_splits)
  from n obtain ss d where q: "SearchSpots (fts5 X) ?p (adb s) = (Inr (ss, cnt), d)"
    and i: "items = map (feed_of A (requestScheme (Some info) r1 @ ''://'' @ rq_Host r1)) ss" and d: "s1 = s\<lparr>adb := d\<rparr>"
    by (auto simp: newznabSearch_def Let_def split: prod.splits sum.splits elim!: api_dbE)
  from i assms(3) obtain spot where sp: "spot \<in> set ss"
    "it = feed_of A (requestScheme (Some info) r1 @ ''://'' @ rq_Host r1) spot" by auto
  from search_visible[OF q sp(1)] obtain row where row: "row \<in> set (spots (adb s))" "spot = scanSpot row"
    "search_where (fts5 X) (search_defaults ?p) (adb s) row" by blast
  have "d = adb s" using q assms(4) by (simp add: SearchSpots_def query_def exec_def Let_def)
  moreover have "\<not> r_moderated row \<and> (if AdultOnly ?p then r_is_adult row else AllowAdult ?p \<or> \<not> r_is_adult row)"
    using row(3) unfolding search_where_def search_defaults_simps by blast
  then have "\<not> r_moderated row" "r_is_adult row \<longrightarrow> cfg_AllowAdult (cfg A)"
    using newznab_params_adult[of "cfg A" "rq_query r1"] by (auto split: if_splits)
  ultimately show ?thesis using that row(1,2) sp(2) d k by simp
qed

lemma no_id: "NormalizeMessageID [] = Inl EmptyMessageID"
  by code_simp

lemma linked_download:
  assumes "it = feed_of A base (scanSpot row)" "apiKey A \<noteq> []" "0 \<le> r_id row" "r_id row \<le> max_int64"
    and "resolveNZB A X (r_id row) s = (Inr (scanSpot row, nzb), s')"
  shows "Router pa A X DownloadNZB (follow base (it_URL it) r) s
    = ((200, PNZB (sanitizeFilename (r_title row) @ ''.nzb'') nzb), s')"
proof -
  let ?r = "follow base (it_URL it) r"
  obtain info r1 where r1: "realIP pa (TrustedProxies (cfg A)) ?r = (info, r1)" by fastforce
  then have "rq_id r1 = rq_id ?r" "rq_query r1 = rq_query ?r" by (auto simp: realIP_def Let_def split: if_splits)
  with follow_feed[OF assms(1), of r] have l: "rq_id r1 = show_int (r_id row)" "rq_query r1 ''apikey'' = apiKey A"
    by (simp_all add: scan_fields)
  have "parse_int (show_int (r_id row)) = (r_id row, None)"
    using assms(3,4) by (intro int64.dec_enc) (simp add: min_int64_def)
  then have "path_id r1 = Some (r_id row)" by (simp add: path_id_def l(1))
  with r1 l(2) assms(2,5) show ?thesis
    by (simp add: Router_def handle_def nzbAccess_def validAPIKey_def CheckPassword_def downloadNZB_def scanSpot_def)
qed


definition demo_feed :: request where
  "demo_feed = demo_get\<lparr>rq_query := (\<lambda>k. if k = ''apikey'' then ''k'' else []), rq_Host := ''h''\<rparr>"

definition demo_posted :: conn where
  "demo_posted = \<lparr>inp = article_reply ''222 0 <b@x>'' [''a'', ''=Db''] @ ''205 bye'', eof_err = EOF, out = [], werr = None,
     maxArticleBytes = 0\<rparr>"

definition demo_serving :: api_io where
  "demo_serving = (demo_io demo_inserted)\<lparr>gives := [Some demo_posted]\<rparr>"

definition demo_feed_app :: "int app" where
  "demo_feed_app = demo_app\<lparr>cfg := demo_cfg\<lparr>MaxPageSize := 200, MaxOffset := 1000, TrustedProxies := [],
     MaxNZBBytes := 1000, MaxArticleBytes := 1000\<rparr>\<rparr>"

lemma demo_feed_parts:
  "cfg demo_feed_app = demo_cfg\<lparr>MaxPageSize := 200, MaxOffset := 1000, TrustedProxies := [],
     MaxNZBBytes := 1000, MaxArticleBytes := 1000\<rparr>" "apiKey demo_feed_app = ''k''"
  by (simp_all add: demo_feed_app_def demo_app_def)

lemma demo_params: "newznab_params (cfg demo_feed_app) (rq_query demo_feed) = no_params\<lparr>Limit := 25\<rparr>"
proof -
  have "parseIntOr [] n = n" for n by (simp add: parseIntOr_def parse_int_def)
  moreover have "newznabFilter [] b = ([], False)" for b by (cases b; code_simp)
  ultimately show ?thesis
    by (simp add: newznab_params_def clampPaging_def demo_feed_def demo_feed_parts no_params_def)
qed

lemma demo_search:
  "fst (SearchSpots (\<lambda>_ _. True) (no_params\<lparr>Limit := 25\<rparr>) demo_inserted)
    = Inr (map scanSpot (rev (spots demo_inserted)), 2)"
  by code_simp


lemma demo_feed_reply:
  "Router (\<lambda>_. None) demo_feed_app demo_outside Newznab demo_feed demo_serving
   = ((200, PFeed (map (feed_of demo_feed_app ''http://h'') (map scanSpot (rev (spots demo_inserted)))) 0 2), demo_serving)"
proof -
  have r: "realIP (\<lambda>_. None) [] demo_feed = (\<lparr>scheme = ''http'', pi_fromTrustedProxy = False\<rparr>, demo_feed\<lparr>RemoteAddr := ''1.2.3.4''\<rparr>)"
  proof -
    have "hostOnly ''1.2.3.4:5'' = ''1.2.3.4''" by code_simp
    then show ?thesis
      by (simp add: realIP_def resolveScheme_def peerTrusted_def resolveClientIP_def demo_feed_def demo_get_def Let_def)
  qed
  have "faults demo_inserted = []" by code_simp
  then have "SearchSpots (\<lambda>_ _. True) (no_params\<lparr>Limit := 25\<rparr>) demo_inserted
    = (Inr (map scanSpot (rev (spots demo_inserted)), 2), demo_inserted)"
    using demo_search by (simp add: prod_eq_iff SearchSpots_def query_def exec_def Let_def)
  moreover have "demo_serving\<lparr>adb := demo_inserted\<rparr> = demo_serving" "adb demo_serving = demo_inserted"
    by (simp_all add: demo_serving_def demo_io_def)
  moreover have "fts5 demo_outside = (\<lambda>_ _. True)" by (simp add: demo_outside_def)
  ultimately show ?thesis using demo_params r
    by (simp add: Router_def handle_def requireAPIKey_def validAPIKey_def newznabHandler_def newznabSearch_def demo_feed_parts
        demo_feed_def CheckPassword_def api_db_def requestScheme_def no_params_def Let_def)
qed


end
