(* ===== verification/Dial.thy ===== *)
theory Dial
  imports Nntp
begin

text \<open>
  \<open>Dial\<close> and \<open>Close\<close> of \<open>internal/nntp/client.go\<close>: from a connected socket to a client the pool may lease.
  Whether the TCP or TLS connection comes up is the socket's: the argument is the new connection, or
  \<open>None\<close>.
\<close>

text \<open>\<open>net.JoinHostPort\<close>.\<close>

definition JoinHostPort :: "string \<Rightarrow> int \<Rightarrow> string" where
  "JoinHostPort host port =
     (if CHR '':'' \<in> set host then ''['' @ host @ '']:'' @ show_int port else host @ '':'' @ show_int port)"

datatype dial_error = NoConnection | GreetingFailed nntp_error | AuthFailed nntp_error

definition Dial :: "string \<Rightarrow> string \<Rightarrow> conn option \<Rightarrow> dial_error + conn" where
  "Dial user pass dialled =
     (case dialled of
        None \<Rightarrow> Inl NoConnection
      | Some c0 \<Rightarrow>
          (case readResponse [200, 201] (c0\<lparr>maxArticleBytes := defaultMaxArticleBytes\<rparr>) of
             (Inl e, _) \<Rightarrow> Inl (GreetingFailed e)
           | (Inr _, c) \<Rightarrow>
               if user \<noteq> []
               then (case auth user pass c of (Some e, _) \<Rightarrow> Inl (AuthFailed e) | (None, c1) \<Rightarrow> Inr c1)
               else Inr c))"

text \<open>What \<open>Close\<close> leaves written on the socket.\<close>

definition Close :: "conn \<Rightarrow> conn" where
  "Close c = snd (sendCmd ''QUIT'' c)"

section \<open>What was said before a client is used\<close>

lemma read_string_split:
  assumes "read_string c = (line, None, c')"
  shows "inp c = line @ inp c' \<and> out c' = out c"
proof -
  let ?pre = "takeWhile (\<lambda>x. x \<noteq> LF) (inp c)" and ?rest = "dropWhile (\<lambda>x. x \<noteq> LF) (inp c)"
  from assms have r: "?rest \<noteq> []" "line = ?pre @ [LF]" "c' = c\<lparr>inp := tl ?rest\<rparr>"
    by (auto simp: read_string_def Let_def split: if_splits)
  from hd_dropWhile[OF r(1)] have "hd ?rest = LF" by simp
  with r(1) have "?rest = LF # tl ?rest" by (metis list.collapse)
  then have "inp c = ?pre @ LF # tl ?rest" by (metis takeWhile_dropWhile_id)
  with r show ?thesis by simp
qed

lemma reply_codes: "show_nat 281 = ''281''" "show_nat 381 = ''381''"
  by code_simp+

lemma sendCmd_said:
  "sendCmd cmd c = (Inr resp, c') \<Longrightarrow> \<exists>line. inp c = line @ inp c' \<and> resp = chomp line \<and> out c' = out c @ cmd @ CRLF"
  by (auto simp: sendCmd_def split: option.splits prod.splits dest!: read_string_split)

text \<open>A client with credentials that \<open>Dial\<close> returns is authenticated: after the greeting the server answered
  281 to the user name, or 381 and then 281 to the password, and nothing else was sent.\<close>

lemma dialled_is_authenticated:
  assumes "Dial user pass (Some c) = Inr c'" and "user \<noteq> []"
  shows "\<exists>greeting r1. (inp c = greeting @ r1 @ inp c' \<and> has_prefix (chomp r1) ''281''
        \<and> out c' = out c @ ''AUTHINFO USER '' @ user @ CRLF)
    \<or> (\<exists>r2. inp c = greeting @ r1 @ r2 @ inp c' \<and> has_prefix (chomp r1) ''381'' \<and> has_prefix (chomp r2) ''281''
        \<and> out c' = out c @ (''AUTHINFO USER '' @ user @ CRLF) @ ''AUTHINFO PASS '' @ pass @ CRLF)"
proof -
  obtain g c1 where g: "readResponse [200, 201] (c\<lparr>maxArticleBytes := defaultMaxArticleBytes\<rparr>) = (Inr g, c1)"
    and a: "auth user pass c1 = (None, c')"
    using assms by (auto simp: Dial_def split: prod.splits sum.splits option.splits)
  from g obtain line where l: "inp c = line @ inp c1" "out c1 = out c"
    by (auto simp: readResponse_def split: prod.splits option.splits if_splits dest!: read_string_split)
  obtain resp c2 where u: "sendCmd (''AUTHINFO USER '' @ user) c1 = (Inr resp, c2)"
    using a by (auto simp: auth_def split: prod.splits sum.splits)
  from sendCmd_said[OF u] obtain l1 where l1: "inp c1 = l1 @ inp c2" "resp = chomp l1"
    "out c2 = out c1 @ (''AUTHINFO USER '' @ user) @ CRLF" by blast
  have "has_prefix resp ''281'' \<and> c' = c2
      \<or> has_prefix resp ''381'' \<and> (\<exists>resp2. sendCmd (''AUTHINFO PASS '' @ pass) c2 = (Inr resp2, c') \<and> has_prefix resp2 ''281'')"
    using a u by (auto simp: auth_def checkCode_def reply_codes split: prod.splits sum.splits option.splits if_splits)
  then show ?thesis
  proof (elim disjE conjE exE)
    assume "has_prefix resp ''281''" "c' = c2"
    with l l1 show ?thesis by (intro exI[of _ line] exI[of _ l1] disjI1) simp
  next
    fix resp2 assume p: "has_prefix resp ''381''" "has_prefix resp2 ''281''"
      and s: "sendCmd (''AUTHINFO PASS '' @ pass) c2 = (Inr resp2, c')"
    from sendCmd_said[OF s] obtain l2 where "inp c2 = l2 @ inp c'" "resp2 = chomp l2"
      "out c' = out c2 @ (''AUTHINFO PASS '' @ pass) @ CRLF" by blast
    with l l1 p show ?thesis by (intro exI[of _ line] exI[of _ l1] disjI2 exI[of _ l2]) simp
  qed
qed

text \<open>The greeting itself is not looked at: the codes \<open>Dial\<close> passes are compared, but a line with another
  code is returned without an error too. A server that refuses the connection gives a client all the
  same, which then fails at its first command.\<close>

lemma any_greeting_is_welcome:
  assumes "inp c = line @ LF # rest" and "LF \<notin> set line"
  shows "Dial [] pass (Some c) = Inr (c\<lparr>inp := rest, maxArticleBytes := defaultMaxArticleBytes\<rparr>)"
  using assms by (simp add: Dial_def readResponse_def read_string_def Let_def takeWhile_append dropWhile_append)

lemma refusing_greeting:
  "\<exists>c. inp c = ''502 access denied'' @ CRLF \<and> Dial [] ''p'' (Some c) = Inr (c\<lparr>inp := []\<rparr>)"
proof -
  let ?c = "\<lparr>inp = ''502 access denied'' @ CRLF, eof_err = EOF, out = [], werr = None,
    maxArticleBytes = defaultMaxArticleBytes\<rparr>"
  have "Dial [] ''p'' (Some ?c) = Inr (?c\<lparr>inp := []\<rparr>)"
    using any_greeting_is_welcome[of ?c "''502 access denied'' @ [CR]" "[]" "''p''"] by simp
  then show ?thesis by (intro exI[of _ ?c]) simp
qed

end
