(* ===== verification/Spec2Isabelle.thy ===== *)
theory Spec2Isabelle
  imports Withdrawal Progress Takedown Browse StartupProps Metrics Delivery Dial
begin

text \<open>
  spottr, an indexer for Spotnet: workers read the headers of a newsgroup, check them and index them in
  SQLite; an HTTP server lists the index, hands out NZB files and images it fetches from Usenet on
  demand, and passes NZBs on to SABnzbd. This is a model of the Go code under \<open>src/internal\<close> and
  \<open>src/cmd/spottr\<close> with the theorems that make it correct. The definitions carry the names of the code,
  with a suffix where HOL has taken the name.

  \<^bold>\<open>The parts and how they interact.\<close> \<open>main\<close> reads the configuration, opens and upgrades the file, settles the
  API key and starts the workers and the server. A worker leases a connection from the pool, reads
  overview lines, turns each into a spot or a withdrawal command, and inserts the spots or applies the
  withdrawals; the checkpoint of the group says how far it has come. A request passes the resolution of
  the client's address, the rate limiter and the gates for the session and the API key; its handler
  reads the database, and where a spot lacks its details or its NZB is not cached it leases a connection
  too. All of them share the database, the pool, the sessions and the limiter.

  \<^bold>\<open>The Go runtime and its libraries.\<close>
  \<^item> \<open>Prelude\<close>: strings as byte strings, \<open>strings\<close>, \<open>strconv\<close>, instants and durations, 64-bit wrap-around
    (\<open>wrap64\<close>), and the locales \<open>codec\<close> (decoding undoes encoding) and \<open>invariant\<close> (what a start has and
    every step keeps holds in every reachable state).
  \<^item> \<open>Base64\<close>, \<open>Crypto\<close> (SHA-1, SHA-256, CRC-32, hex, RSA on integers), \<open>Netip\<close> (addresses and prefixes),
    \<open>Url\<close> (query escaping and parsing).

  \<^bold>\<open>From the news server to a spot.\<close>
  \<^item> \<open>Msgid\<close>, \<open>Nntp\<close>, \<open>Dial\<close>, \<open>Pool\<close> (\<open>internal/nntp\<close>): the check of message-ids; a connection as the
    bytes still to come, the bytes sent and the errors, with every command; greeting and authentication;
    the pool at the granularity of its lock. No message-id adds a command to the stream, dot-stuffing
    is undone exactly, the pool keeps its limit and never leases a connection twice.
  \<^item> \<open>Text\<close>, \<open>Kind\<close>, \<open>Parser\<close>, \<open>Categories\<close>, \<open>Password\<close> (\<open>internal/spotnet\<close>, \<open>internal/db/kind.go\<close>): the encodings of
    headers, the spot of an overview line, the NZB and the details of an article. Parsed spots are well
    formed, the kind computed in Go is the kind SQL computes, decoding an NZB is bounded and exact.
  \<^item> \<open>Signing\<close>, \<open>Moderation\<close>, \<open>Withdrawal\<close> (\<open>signing.go\<close>, \<open>moderation.go\<close>): the hand-written signature check is
    the textbook PKCS#1 v1.5 one; who may withdraw a spot, with a real withdrawal evaluated.

  \<^bold>\<open>The store.\<close>
  \<^item> \<open>Fts\<close>, \<open>Store\<close> (\<open>internal/db\<close>): the tables as a record, every statement and transaction over it, with the
    triggers of the full-text index; the field \<open>faults\<close> says which statements fail, \<open>ctx_errs\<close> when the
    context is found done.
  \<^item> \<open>StoreInv\<close>, \<open>StoreOps\<close>, \<open>StoreProps\<close>: the invariant of the tables and the steps a store can take. The
    locale \<open>statement_invariant\<close> lifts what every statement keeps to the operations, \<open>table_invariant\<close> to
    the whole store; they are interpreted on the invariant, on the ring of withdrawn ids, on the meaning
    of row ids, on settings, and on what the index holds.
  \<^item> \<open>StoreSpec\<close>, \<open>Upkeep\<close>: what inserting, searching, retention, eviction and list replacement do.
  \<^item> \<open>Migrations\<close>, \<open>MigrationProps\<close>, \<open>Upgrade\<close> (\<open>migrations.go\<close>, \<open>schema.go\<close>): every migration over the rows,
    each in a transaction that may fail anywhere; resuming after an interruption loses nothing, and an
    upgraded file satisfies the invariant. The locale \<open>untouched\<close> is what no migration changes.

  \<^bold>\<open>The workers.\<close>
  \<^item> \<open>Config\<close> (\<open>internal/config\<close>): the configuration fails closed.
  \<^item> \<open>Sync\<close>, \<open>Workers\<close> (\<open>internal/sync\<close>): the forward sync, withdrawals, backfill, sweep and maintenance.
  \<^item> \<open>SyncProps\<close>, \<open>Authority\<close>, \<open>Takedown\<close>, \<open>Progress\<close>: the workers refine the store (the locales \<open>engine_invariant\<close>,
    \<open>maintained_invariant\<close> and \<open>backfilled_invariant\<close> carry a property of the database through every worker);
    nothing is withdrawn without authority, and what is withdrawn with it stays hidden; what a chunk indexes and how the checkpoints move.

  \<^bold>\<open>The server.\<close>
  \<^item> \<open>Web\<close>, \<open>Session\<close>, \<open>Sabnzbd\<close>, \<open>Api\<close>, \<open>Front\<close>, \<open>Csp\<close> (\<open>internal/api\<close>, \<open>internal/auth\<close>, \<open>internal/sabnzbd\<close>): the client
    address and the token bucket, sessions, cookies and the lockout, the client of SABnzbd, the handlers,
    the middleware and the static files, the security policy.
  \<^item> \<open>ApiProps\<close>, \<open>FrontProps\<close>, \<open>Login\<close>, \<open>Metrics\<close>, \<open>CspProps\<close>: the handlers refine the store and hand back every connection
    (\<open>handler_invariant\<close>, \<open>server_invariant\<close>), 18+ spots are invisible, pages are bounded, nobody enters
    without password or key, a flood is limited, a session lives exactly until its logout or expiry,
    the counters of the metrics are what they say, and the policy allows no foreign script.
  \<^item> \<open>Startup\<close>, \<open>StartupProps\<close>: what \<open>main\<close> does in order, and what a started program has.
  \<^item> \<open>Browse\<close>, \<open>Delivery\<close>: across all layers, an article the sync reads is found in the listing, and the link
    of a feed item gives back the NZB as it was posted.

  \<^bold>\<open>Loops, bounds and fuel.\<close> No definition takes fuel. Loops over a connection shrink the bytes still to come
  (\<open>readDot_loop\<close>, \<open>overview_loop\<close>, \<open>head_loop\<close>) or the range of articles left; the endless loops of the workers
  are runs over a list of leases, ticks or requests, any length of which is covered. The scan for inline
  scripts is a \<open>partial_function\<close>, shown to return on every document. Integers of Go are \<open>int\<close> with
  \<open>wrap64\<close> where they can overflow, bit patterns are words.

  \<^bold>\<open>Parameters.\<close> \<open>encoding/xml\<close> and \<open>encoding/json\<close> decoders, \<open>compress/flate\<close>, SQLite's \<open>MATCH\<close>, \<open>time.Parse\<close>,
  \<open>ParseFloat\<close>, \<open>ParseDuration\<close>, \<open>ParseAddr\<close>, \<open>ParsePrefix\<close>, floating point (\<open>float_ops\<close>), the clock, random
  bytes, the answers of SABnzbd and of the list servers, and the embedded files are arguments. Of the
  signatures nothing is assumed beyond the arithmetic of RSA.

  \<^bold>\<open>Not modelled.\<close> Sockets, TLS and deadlines; the interleaving of goroutines below a lock, a transaction or a
  request (a handler is one step, but for the lockout, whose race is a lemma); the write lock of the
  database; the encoding of responses as JSON, XML and headers; the log; embedded files; signals and the
  shutdown. Error values carry no wrapped text. Lower case beyond ASCII is approximated, and the order in
  which Go walks a map is fixed. These parts are pure input and output, or the library's own business,
  and leave no state that another part reads.
\<close>

end
